(* ===== verification/Prelude.thy ===== *)
theory Prelude
  imports Main "HOL-Library.Word" "HOL-Library.State_Monad" "HOL-Library.List_Lexorder" "HOL-Library.Char_ord"
begin

text \<open>
  Vocabulary shared by all components: Go's machine integers and their signed comparison,
  instants and durations of package \<open>time\<close>, Go's unspecified map iteration order, the
  collections of rules the component proofs use, and lemmas on maps built by a loop.
\<close>

named_theorems go_cmp \<open>signed comparisons of machine words, read as integers\<close>
named_theorems emits_intros \<open>trace rules of the monadic primitives\<close>

section \<open>Machine integers\<close>

text \<open>Go's \<open>int32\<close>, \<open>int64\<close> and (on 64-bit platforms) \<open>int\<close>, in two's complement.\<close>

type_synonym int32 = "32 word"
type_synonym int64 = "64 word"

text \<open>The conversion \<open>int64(v)\<close> of a 32-bit value: sign extension.\<close>

definition int64_of :: "int32 \<Rightarrow> int64" where
  "int64_of v = word_of_int (sint v)"

text \<open>The built-in \<open>len\<close>, as a Go \<open>int\<close>.\<close>

definition len :: "'a list \<Rightarrow> int64" where
  "len xs = word_of_nat (length xs)"

lemmas [go_cmp] = word_sle_eq word_sless_alt

lemma sint_word_of_int64:
  "- (2 ^ 63) \<le> i \<Longrightarrow> i < 2 ^ 63 \<Longrightarrow> sint (word_of_int i :: int64) = i"
  by (simp add: signed_of_int signed_take_bit_int_eq_self)

lemma sint_word_of_int32:
  "- (2 ^ 31) \<le> i \<Longrightarrow> i < 2 ^ 31 \<Longrightarrow> sint (word_of_int i :: int32) = i"
  by (simp add: signed_of_int signed_take_bit_int_eq_self)

lemma sint32_range: "- (2 ^ 31) \<le> sint (v :: int32)" "sint (v :: int32) < 2 ^ 31"
  using sint_range_size [of v] by (simp_all add: word_size)

lemma sint64_range: "- (2 ^ 63) \<le> sint (v :: int64)" "sint (v :: int64) < 2 ^ 63"
  using sint_range_size [of v] by (simp_all add: word_size)

lemma sint_int64_of [simp]: "sint (int64_of v) = sint v"
  unfolding int64_of_def
  by (rule sint_word_of_int64) (use sint32_range [of v] in simp_all)

lemma sint_len: "length xs < 2 ^ 63 \<Longrightarrow> sint (len xs) = int (length xs)"
proof -
  assume "length xs < 2 ^ 63"
  then have "int (length xs) < 2 ^ 63" by simp
  moreover have "len xs = word_of_int (int (length xs))"
    by (simp add: len_def)
  ultimately show ?thesis by (simp only: sint_word_of_int64)
qed

text \<open>Adding and multiplying without wrap-around when the exact result fits.\<close>

lemma sint_mult64:
  assumes "- (2 ^ 63) \<le> sint a * sint b" and "sint a * sint b < 2 ^ 63"
  shows "sint (a * b :: int64) = sint a * sint b"
proof -
  have "a * b = word_of_int (sint a * sint b)" by simp
  then show ?thesis using assms by (simp only: sint_word_of_int64)
qed

lemma sint_Suc32:
  assumes "sint a < 2 ^ 31 - 1"
  shows "sint (a + 1 :: int32) = sint a + 1"
proof -
  have "a + 1 = word_of_int (sint a + 1)" by simp
  then show ?thesis using assms sint32_range(1) [of a]
    by (simp only: sint_word_of_int32)
qed

section \<open>Instants and durations\<close>

text \<open>
  A \<open>time.Time\<close> is the exact number of nanoseconds since Go's zero instant
  (January 1, year 1, 00:00 UTC); \<open>IsZero\<close> recognises that instant. A
  \<open>time.Duration\<close> is a 64-bit count of nanoseconds.
\<close>

type_synonym gotime = int
type_synonym Duration = int64

definition IsZero :: "gotime \<Rightarrow> bool" where
  "IsZero t \<longleftrightarrow> t = 0"

text \<open>\<open>metav1.Time\<close> pointers: a nil pointer counts as zero.\<close>

definition IsZeroPtr :: "gotime option \<Rightarrow> bool" where
  "IsZeroPtr t \<longleftrightarrow> (case t of None \<Rightarrow> True | Some u \<Rightarrow> IsZero u)"

definition Second :: Duration where "Second = 1000000000"
definition Minute :: Duration where "Minute = 60 * Second"

definition maxDuration :: int where "maxDuration = 2 ^ 63 - 1"
definition minDuration :: int where "minDuration = - (2 ^ 63)"

text \<open>\<open>Time.Sub\<close> saturates at the least and the greatest duration.\<close>

definition TimeSub :: "gotime \<Rightarrow> gotime \<Rightarrow> Duration" where
  "TimeSub t u = word_of_int (max minDuration (min maxDuration (t - u)))"

lemma sint_TimeSub: "sint (TimeSub t u) = max minDuration (min maxDuration (t - u))"
  by (simp add: TimeSub_def sint_word_of_int64 minDuration_def maxDuration_def)

lemma sint_Second [simp]: "sint Second = 1000000000"
  by (simp add: Second_def)

lemma sint_TimeSub_less:
  "sint (TimeSub t u) < sint (d :: Duration) \<longleftrightarrow> t - u < sint d"
  if "minDuration < sint d"
  using sint64_range [of d] that
  by (auto simp: sint_TimeSub minDuration_def maxDuration_def max_def min_def)

section \<open>Map iteration order\<close>

text \<open>
  A \<open>for range\<close> over a Go map visits every key once, in an order the language leaves
  unspecified. A \<open>range_order\<close> is one such choice: for every finite key set a list of
  exactly these keys without repetition. Definitions that range over a map take the order as
  an argument, so that theorems hold for every order the runtime may pick.
\<close>

typedef (overloaded) 'k range_order =
  "{f :: 'k set \<Rightarrow> 'k list. \<forall>S. finite S \<longrightarrow> distinct (f S) \<and> set (f S) = S}"
  morphisms keys_of Abs_range_order
proof -
  have "\<forall>S :: 'k set. \<exists>xs. finite S \<longrightarrow> distinct xs \<and> set xs = S"
    using finite_distinct_list by metis
  then obtain f :: "'k set \<Rightarrow> 'k list" where "\<forall>S. finite S \<longrightarrow> distinct (f S) \<and> set (f S) = S"
    by metis
  then show ?thesis by blast
qed

lemma distinct_keys_of [simp]: "finite S \<Longrightarrow> distinct (keys_of ord S)"
  using keys_of [of ord] by simp

lemma set_keys_of [simp]: "finite S \<Longrightarrow> set (keys_of ord S) = S"
  using keys_of [of ord] by simp

lemma keys_of_empty [simp]: "keys_of ord {} = []"
  by (metis finite.emptyI set_empty set_keys_of)

lemma keys_of_singleton [simp]: "keys_of ord {k} = [k]"
proof -
  have s: "set (keys_of ord {k}) = {k}" and d: "distinct (keys_of ord {k})" by simp_all
  then have "length (keys_of ord {k}) = 1" using distinct_card [OF d] by simp
  with s show ?thesis by (cases "keys_of ord {k}") auto
qed

text \<open>The increasing order, for concrete evaluations.\<close>

definition ascending :: "'k::linorder range_order" where
  "ascending = Abs_range_order sorted_list_of_set"

lemma keys_of_ascending [simp]: "keys_of ascending S = sorted_list_of_set S"
  by (simp add: ascending_def Abs_range_order_inverse)

section \<open>Lists and maps\<close>

lemma fold_map_upd_notin:
  "k \<notin> key ` set xs \<Longrightarrow> fold (\<lambda>x m. m(key x \<mapsto> val x)) xs m k = m k"
  by (induction xs arbitrary: m) auto

lemma dom_fold_map_upd:
  "dom (fold (\<lambda>x m. m(key x \<mapsto> val x)) xs m) = dom m \<union> key ` set xs"
  by (induction xs arbitrary: m) auto

lemma fold_map_upd_in:
  "k \<in> key ` set xs \<Longrightarrow>
   \<exists>x \<in> set xs. key x = k \<and> fold (\<lambda>x m. m(key x \<mapsto> val x)) xs m k = Some (val x)"
proof (induction xs arbitrary: m)
  case (Cons x xs)
  show ?case
  proof (cases "k \<in> key ` set xs")
    case True
    from Cons.IH [OF True] show ?thesis by auto
  next
    case False
    with Cons.prems have "k = key x" by simp
    moreover have "fold (\<lambda>x m. m(key x \<mapsto> val x)) xs (m(key x \<mapsto> val x)) k = (m(key x \<mapsto> val x)) k"
      by (rule fold_map_upd_notin [OF False])
    ultimately show ?thesis by (simp del: fun_upd_apply add: fun_upd_same)
  qed
qed simp

end
