(* ===== verification/ApiTypes.thy ===== *)
theory ApiTypes
  imports Prelude
begin

text \<open>
  The data the operator works on. The \<open>HotSwapPolicy\<close> types follow
  \<open>api/v1alpha1/hotswappolicy_types.go\<close> field by field (the type and list metadata that
  only the encoder reads is left out); field names carry a prefix for their struct because
  record fields are global names. The Kubernetes objects carry the fields the operator reads.
\<close>

section \<open>Names\<close>

text \<open>\<open>types.NamespacedName\<close>, also the key of a reconcile request.\<close>

record NamespacedName =
  nn_Namespace :: string
  nn_Name :: string

type_synonym UID = string

section \<open>RemediationStrategy, TargetReference, RemediationSpec\<close>

text \<open>A Go string type with three named values; any other string is a value too.\<close>

type_synonym RemediationStrategy = string

definition StrategyAuto :: RemediationStrategy where "StrategyAuto = ''Auto''"
definition StrategyRolloutRestart :: RemediationStrategy where "StrategyRolloutRestart = ''RolloutRestart''"
definition StrategyDeletePod :: RemediationStrategy where "StrategyDeletePod = ''DeletePod''"

lemma strategies_distinct [simp]:
  "StrategyRolloutRestart \<noteq> StrategyDeletePod" "StrategyDeletePod \<noteq> StrategyRolloutRestart"
  "StrategyAuto \<noteq> StrategyRolloutRestart" "StrategyAuto \<noteq> StrategyDeletePod"
  by (simp_all add: StrategyAuto_def StrategyRolloutRestart_def StrategyDeletePod_def)

record TargetReference =
  tr_APIVersion :: string
  tr_Kind :: string
  tr_Name :: string

record RemediationSpec =
  Strategy :: RemediationStrategy
  RequireStable :: "bool option"
  MaxConsecutiveAttempts :: int32
  CooldownSeconds :: int32
  MaxConcurrent :: int32
  SystemicFailureSkipPercent :: int32
  DryRun :: bool

section \<open>The probe schema (core/v1 Probe)\<close>

datatype intstr_type = IntType | StringType

record IntOrString =
  ios_Type :: intstr_type
  IntVal :: int32
  StrVal :: string

record HTTPHeader =
  hd_Name :: string
  hd_Value :: string

record HTTPGetAction =
  hg_Path :: string
  hg_Port :: IntOrString
  hg_Host :: string
  hg_Scheme :: string
  hg_HTTPHeaders :: "HTTPHeader list"

record Probe =
  HTTPGet :: "HTTPGetAction option"
  InitialDelaySeconds :: int32
  TimeoutSeconds :: int32
  PeriodSeconds :: int32
  p_SuccessThreshold :: int32
  p_FailureThreshold :: int32

section \<open>Policy spec and status\<close>

record HotSwapPolicySpec =
  TargetRef :: TargetReference
  HotswapProbe :: Probe
  Remediation :: RemediationSpec

record TargetHealth =
  th_PodName :: string
  th_PodIP :: string
  th_Healthy :: bool
  th_ConsecutiveFailures :: int32
  th_LastProbeTime :: "gotime option"
  th_LastTransitionTime :: "gotime option"

record RemediationRecord =
  rr_PodName :: string
  rr_Strategy :: RemediationStrategy
  rr_Time :: gotime
  rr_Reason :: string

datatype ConditionStatus = ConditionTrue | ConditionFalse | ConditionUnknown

text \<open>
  \<open>metav1.Condition\<close>, without \<open>LastTransitionTime\<close>: no code here reads or sets it, the library's
  \<open>SetStatusCondition\<close> fills it from its own clock.
\<close>

record Condition =
  c_Type :: string
  c_Status :: ConditionStatus
  c_ObservedGeneration :: int64
  c_Reason :: string
  c_Message :: string

record HotSwapPolicyStatus =
  ObservedGeneration :: int64
  Targets :: "TargetHealth list"
  LastRemediation :: "RemediationRecord option"
  ConsecutiveAttempts :: int32
  Conditions :: "Condition list"

record HotSwapPolicy =
  pol_Namespace :: string
  pol_Name :: string
  pol_ResourceVersion :: string
  pol_Generation :: int64
  pol_CreationTimestamp :: gotime
  pol_DeletionTimestamp :: "gotime option"
  pol_Finalizers :: "string list"
  pol_Spec :: HotSwapPolicySpec
  pol_Status :: HotSwapPolicyStatus

definition ConditionHealthy :: string where "ConditionHealthy = ''Healthy''"
definition ConditionRemediating :: string where "ConditionRemediating = ''Remediating''"
definition ConditionDegraded :: string where "ConditionDegraded = ''Degraded''"

lemma condition_types_distinct [simp]:
  "ConditionHealthy \<noteq> ConditionRemediating" "ConditionHealthy \<noteq> ConditionDegraded"
  "ConditionRemediating \<noteq> ConditionHealthy" "ConditionRemediating \<noteq> ConditionDegraded"
  "ConditionDegraded \<noteq> ConditionHealthy" "ConditionDegraded \<noteq> ConditionRemediating"
  by (simp_all add: ConditionHealthy_def ConditionRemediating_def ConditionDegraded_def)

definition ReasonAllHealthy :: string where "ReasonAllHealthy = ''AllHealthy''"
definition ReasonRemediating :: string where "ReasonRemediating = ''Remediating''"
definition ReasonDryRun :: string where "ReasonDryRun = ''DryRun''"
definition ReasonTargetNotFound :: string where "ReasonTargetNotFound = ''TargetNotFound''"
definition ReasonCircuitOpen :: string where "ReasonCircuitOpen = ''CircuitOpen''"
definition ReasonRolloutStalled :: string where "ReasonRolloutStalled = ''RolloutStalled''"
definition ReasonSystemicFailure :: string where "ReasonSystemicFailure = ''SystemicFailure''"
definition ReasonConflictingPolic :: string where "ReasonConflictingPolic = ''ConflictingPolicy''"
definition ReasonInvalidProbe :: string where "ReasonInvalidProbe = ''InvalidProbe''"

lemmas Reason_defs = ReasonAllHealthy_def ReasonRemediating_def ReasonDryRun_def
  ReasonTargetNotFound_def ReasonCircuitOpen_def ReasonRolloutStalled_def
  ReasonSystemicFailure_def ReasonConflictingPolic_def ReasonInvalidProbe_def

section \<open>Kubernetes objects\<close>

text \<open>A label selector as written, and the matcher (\<open>labels.Selector\<close>) it is converted to.\<close>

record LabelSelectorRequirement =
  lsr_Key :: string
  lsr_Operator :: string
  lsr_Values :: "string list"

record LabelSelector =
  MatchLabels :: "string \<rightharpoonup> string"
  MatchExpressions :: "LabelSelectorRequirement list"

type_synonym Selector = "(string \<rightharpoonup> string) \<Rightarrow> bool"

record DeploymentCondition =
  dc_Type :: string
  dc_Status :: ConditionStatus
  dc_Reason :: string

record Deployment =
  dep_Namespace :: string
  dep_Name :: string
  dep_Generation :: int64
  dep_Replicas :: "int32 option"
  dep_Selector :: "LabelSelector option"
  ds_ObservedGeneration :: int64
  ds_Replicas :: int32
  ds_UpdatedReplicas :: int32
  ds_AvailableReplicas :: int32
  ds_UnavailableReplicas :: int32
  ds_Conditions :: "DeploymentCondition list"

definition DeploymentProgressing :: string where "DeploymentProgressing = ''Progressing''"

record OwnerReference =
  or_Kind :: string
  or_Name :: string

record PodCondition =
  pc_Type :: string
  pc_Status :: ConditionStatus

definition PodReady :: string where "PodReady = ''Ready''"

record Pod =
  pod_Namespace :: string
  pod_Name :: string
  pod_UID :: UID
  pod_DeletionTimestamp :: "gotime option"
  pod_OwnerReferences :: "OwnerReference list"
  pod_PodIP :: string
  pod_Conditions :: "PodCondition list"

record ReplicaSet =
  rs_Name :: string
  rs_OwnerReferences :: "OwnerReference list"

end
