(* ===== verification/GoStd.thy ===== *)
theory GoStd
  imports Prelude
begin

text \<open>
  The parts of Go's standard library that the operator's results depend on: decimal and
  quoted formatting (\<open>fmt\<close> verbs \<open>%d\<close> and \<open>%q\<close>), \<open>strings.ToLower\<close>,
  \<open>strings.HasPrefix\<close>, \<open>net.JoinHostPort\<close> and the \<open>time.RFC3339\<close> layout. Strings are
  byte lists; \<open>ToLower\<close> and \<open>%q\<close> are exact on ASCII, bytes of printable multi-byte runes
  pass through.
\<close>

section \<open>Formatting\<close>

definition digit :: "nat \<Rightarrow> char" where
  "digit n = char_of (48 + n)"

fun itoa_nat :: "nat \<Rightarrow> string" where
  "itoa_nat n = (if n < 10 then [digit n] else itoa_nat (n div 10) @ [digit (n mod 10)])"

declare itoa_nat.simps [simp del]

definition itoa :: "int \<Rightarrow> string" where
  "itoa i = (if i < 0 then CHR ''-'' # itoa_nat (nat (- i)) else itoa_nat (nat i))"

text \<open>\<open>strconv.Quote\<close>, the \<open>%q\<close> verb.\<close>

definition hexdigit :: "nat \<Rightarrow> char" where
  "hexdigit n = (if n < 10 then char_of (48 + n) else char_of (87 + n))"

definition quote_char :: "char \<Rightarrow> string" where
  "quote_char c =
     (let n = of_char c :: nat in
      if n = 34 then [char_of (92::nat), c]
      else if n = 92 then [c, c]
      else if n = 7 then [char_of (92::nat), CHR ''a'']
      else if n = 8 then [char_of (92::nat), CHR ''b'']
      else if n = 12 then [char_of (92::nat), CHR ''f'']
      else if n = 10 then [char_of (92::nat), CHR ''n'']
      else if n = 13 then [char_of (92::nat), CHR ''r'']
      else if n = 9 then [char_of (92::nat), CHR ''t'']
      else if n = 11 then [char_of (92::nat), CHR ''v'']
      else if n < 32 \<or> n = 127 then
        [char_of (92::nat), CHR ''x'', hexdigit (n div 16), hexdigit (n mod 16)]
      else [c])"

definition dquote :: char where "dquote = char_of (34::nat)"

definition quote :: "string \<Rightarrow> string" where
  "quote s = dquote # concat (map quote_char s) @ [dquote]"

lemma quote_dns:
  assumes "\<forall>c \<in> set s. of_char c \<in> {45..57::nat} \<union> {97..122}"
  shows "quote s = dquote # s @ [dquote]"
proof -
  have "quote_char c = [c]" if "c \<in> set s" for c
    using assms that by (auto simp: quote_char_def Let_def)
  then have "concat (map quote_char s) = s" by (induction s) simp_all
  then show ?thesis by (simp add: quote_def)
qed

section \<open>Strings\<close>

definition lower_char :: "char \<Rightarrow> char" where
  "lower_char c = (let n = of_char c :: nat in if 65 \<le> n \<and> n \<le> 90 then char_of (n + 32) else c)"

definition ToLower :: "string \<Rightarrow> string" where
  "ToLower s = map lower_char s"

fun HasPrefix :: "string \<Rightarrow> string \<Rightarrow> bool" where
  "HasPrefix s [] = True"
| "HasPrefix [] (p # ps) = False"
| "HasPrefix (c # cs) (p # ps) = (c = p \<and> HasPrefix cs ps)"

text \<open>\<open>net.JoinHostPort\<close>: a host that contains a colon (an IPv6 literal) is bracketed.\<close>

definition JoinHostPort :: "string \<Rightarrow> string \<Rightarrow> string" where
  "JoinHostPort host port =
     (if CHR '':'' \<in> set host then ''['' @ host @ '']:'' @ port else host @ '':'' @ port)"

text \<open>
  \<open>textproto.CanonicalMIMEHeaderKey\<close>, by which \<open>Header.Set\<close> files a header: the first letter
  and every letter after a hyphen in upper case, the others in lower case; a name with a byte
  that no header name may have stays as it is.
\<close>

definition upper_char :: "char \<Rightarrow> char" where
  "upper_char c = (let n = of_char c :: nat in if 97 \<le> n \<and> n \<le> 122 then char_of (n - 32) else c)"

definition header_char :: "char \<Rightarrow> bool" where
  "header_char c = (let n = of_char c :: nat in
     48 \<le> n \<and> n \<le> 57 \<or> 65 \<le> n \<and> n \<le> 90 \<or> 97 \<le> n \<and> n \<le> 122 \<or>
     n \<in> {33, 35, 36, 37, 38, 39, 42, 43, 45, 46, 94, 95, 96, 124, 126})"

fun canonical_from :: "bool \<Rightarrow> string \<Rightarrow> string" where
  "canonical_from up [] = []"
| "canonical_from up (c # cs) = (if up then upper_char c else lower_char c) # canonical_from (c = CHR ''-'') cs"

definition CanonicalHeaderKey :: "string \<Rightarrow> string" where
  "CanonicalHeaderKey s = (if list_all header_char s then canonical_from True s else s)"

section \<open>RFC 3339\<close>

text \<open>
  The proleptic Gregorian date of a day number counted from January 1 of year 1: cycles of
  400, 100, 4 and 1 years, then the month by walking the month lengths.
\<close>

definition is_leap :: "int \<Rightarrow> bool" where
  "is_leap y \<longleftrightarrow> y mod 4 = 0 \<and> (y mod 100 \<noteq> 0 \<or> y mod 400 = 0)"

definition month_lengths :: "bool \<Rightarrow> int list" where
  "month_lengths leap = [31, if leap then 29 else 28, 31, 30, 31, 30, 31, 31, 30, 31, 30, 31]"

fun month_day :: "int list \<Rightarrow> int \<Rightarrow> int \<Rightarrow> int \<times> int" where
  "month_day [] m d = (m, d + 1)"
| "month_day (l # ls) m d = (if d < l then (m, d + 1) else month_day ls (m + 1) (d - l))"

definition year_of :: "int \<Rightarrow> int \<times> int" where
  "year_of d =
     (let n400 = d div 146097; d1 = d mod 146097;
          n100 = min 3 (d1 div 36524); d2 = d1 - n100 * 36524;
          n4 = d2 div 1461; d3 = d2 mod 1461;
          n1 = min 3 (d3 div 365); yday = d3 - n1 * 365
      in (400 * n400 + 100 * n100 + 4 * n4 + n1 + 1, yday))"

definition civil :: "int \<Rightarrow> int \<times> int \<times> int" where
  "civil d = (case year_of d of (y, yday) \<Rightarrow>
                case month_day (month_lengths (is_leap y)) 1 yday of (m, md) \<Rightarrow> (y, m, md))"

definition pad :: "nat \<Rightarrow> int \<Rightarrow> string" where
  "pad w i = (let s = itoa i in replicate (w - length s) (CHR ''0'') @ s)"

text \<open>\<open>now.UTC().Format(time.RFC3339)\<close>: whole seconds, zone \<open>Z\<close>.\<close>

definition FormatRFC3339 :: "gotime \<Rightarrow> string" where
  "FormatRFC3339 t =
     (let s = t div 1000000000; d = s div 86400; r = s mod 86400 in
      case civil d of (y, m, md) \<Rightarrow>
        pad 4 y @ ''-'' @ pad 2 m @ ''-'' @ pad 2 md @ ''T'' @
        pad 2 (r div 3600) @ '':'' @ pad 2 (r mod 3600 div 60) @ '':'' @ pad 2 (r mod 60) @ ''Z'')"

text \<open>The instant of a Unix second (\<open>time.Unix(s, 0)\<close>).\<close>

definition Unix :: "int \<Rightarrow> gotime" where
  "Unix s = (s + 62135596800) * 1000000000"

lemma FormatRFC3339_example: "FormatRFC3339 (Unix 1000000000) = ''2001-09-09T01:46:40Z''"
  by code_simp

lemma FormatRFC3339_leap_day: "FormatRFC3339 (Unix 951782400) = ''2000-02-29T00:00:00Z''"
  by code_simp

end
