(* ===== verification/Checker.thy ===== *)
theory Checker
  imports GoStd
begin

text \<open>
  \<open>internal/prober/checker.go\<close>: the normalized probe configuration and the HTTP check. The
  network is a parameter: whether a URL is accepted by \<open>http.NewRequestWithContext\<close>, and
  what \<open>client.Do\<close> answers (\<open>None\<close> for a transport error, which includes the expiry of
  the request's timeout; otherwise the status code of the first response, since redirects are
  not followed).
\<close>

record ProbeConfig =
  Path :: string
  Scheme :: string
  Port :: int32
  Timeout :: Duration
  Period :: Duration
  InitialDelay :: Duration
  SuccessThreshold :: int32
  FailureThreshold :: int32
  Headers :: "string \<rightharpoonup> string"

record HTTPRequest =
  rq_URL :: string
  rq_Timeout :: Duration
  rq_Headers :: "string \<rightharpoonup> string"

record HTTPNet =
  url_ok :: "string \<Rightarrow> bool"
  Do :: "HTTPRequest \<Rightarrow> int option"

text \<open>The URL \<open>Probe\<close> builds, in the order of its statements.\<close>

definition probe_url :: "string \<Rightarrow> ProbeConfig \<Rightarrow> string" where
  "probe_url podIP cfg =
     (let scheme = ToLower (Scheme cfg);
          scheme = (if scheme = '''' then ''http'' else scheme);
          path = Path cfg;
          path = (if path \<noteq> '''' \<and> \<not> HasPrefix path ''/'' then ''/'' @ path else path)
      in scheme @ ''://'' @ JoinHostPort podIP (itoa (sint (Port cfg))) @ path)"

definition probe_timeout :: "ProbeConfig \<Rightarrow> Duration" where
  "probe_timeout cfg = (if Timeout cfg \<le>s 0 then Second else Timeout cfg)"

text \<open>
  The loop over \<open>cfg.Headers\<close>: each header under its canonical name, in the order in which the
  runtime walks the map.
\<close>

definition request_headers :: "string range_order \<Rightarrow> (string \<rightharpoonup> string) \<Rightarrow> (string \<rightharpoonup> string)" where
  "request_headers ord headers =
     fold (\<lambda>k h. case headers k of None \<Rightarrow> h | Some v \<Rightarrow> h(CanonicalHeaderKey k \<mapsto> v))
       (keys_of ord (dom headers)) Map.empty"

definition HTTPProbe :: "HTTPNet \<Rightarrow> string range_order \<Rightarrow> string \<Rightarrow> ProbeConfig \<Rightarrow> bool" where
  "HTTPProbe net ord podIP cfg =
     (if podIP = '''' then False
      else
        let url = probe_url podIP cfg in
        if \<not> url_ok net url then False
        else
          case Do net \<lparr>rq_URL = url, rq_Timeout = probe_timeout cfg,
                       rq_Headers = request_headers ord (Headers cfg)\<rparr> of
            None \<Rightarrow> False
          | Some status \<Rightarrow> status \<ge> 200 \<and> status < 400)"

end
