(* ===== verification/Logic.thy ===== *)
theory Logic
  imports ApiTypes Checker
begin

text \<open>
  \<open>internal/controller/logic.go\<close>: validation and defaulting of the probe, the stability and
  stall tests on a Deployment, the choice of strategy, the systemic-failure valve, the circuit
  breaker and the cooldown.
\<close>

section \<open>Definitions\<close>

definition seconds :: "int32 \<Rightarrow> int32 \<Rightarrow> Duration" where
  "seconds v dflt = (if v \<le>s 0 then int64_of dflt * Second else int64_of v * Second)"

definition threshold :: "int32 \<Rightarrow> int32 \<Rightarrow> int32" where
  "threshold v dflt = (if v \<le>s 0 then dflt else v)"

text \<open>The header loop of \<open>normalizeProbe\<close>: later headers of the same name win.\<close>

definition headers_map :: "HTTPHeader list \<Rightarrow> (string \<rightharpoonup> string)" where
  "headers_map hs = fold (\<lambda>hd m. m(hd_Name hd \<mapsto> hd_Value hd)) hs Map.empty"

definition httpGet_required :: string where
  "httpGet_required = ''hotswapProbe.httpGet is required (exec/tcp/grpc probes are not supported)''"

definition port_required :: string where
  "port_required = ''hotswapProbe.httpGet.port must be a numeric container port''"

definition normalizeProbe :: "Probe \<Rightarrow> string + ProbeConfig" where
  "normalizeProbe p =
     (case HTTPGet p of
        None \<Rightarrow> Inl httpGet_required
      | Some h \<Rightarrow>
          if ios_Type (hg_Port h) \<noteq> IntType \<or> IntVal (hg_Port h) \<le>s 0 then Inl port_required
          else Inr \<lparr>Path = hg_Path h,
                    Scheme = hg_Scheme h,
                    Port = IntVal (hg_Port h),
                    Timeout = seconds (TimeoutSeconds p) 1,
                    Period = seconds (PeriodSeconds p) 10,
                    InitialDelay = seconds (InitialDelaySeconds p) 0,
                    SuccessThreshold = threshold (p_SuccessThreshold p) 1,
                    FailureThreshold = threshold (p_FailureThreshold p) 3,
                    Headers = headers_map (hg_HTTPHeaders h)\<rparr>)"

definition deploymentStable :: "Deployment \<Rightarrow> bool" where
  "deploymentStable dep =
     (if dep_Generation dep \<noteq> ds_ObservedGeneration dep then False
      else case dep_Replicas dep of
        None \<Rightarrow> False
      | Some r \<Rightarrow> ds_Replicas dep = r \<and> ds_UpdatedReplicas dep = r \<and>
                  ds_AvailableReplicas dep = r \<and> ds_UnavailableReplicas dep = 0)"

fun stalled_condition :: "DeploymentCondition list \<Rightarrow> bool" where
  "stalled_condition [] = False"
| "stalled_condition (c # cs) =
     (if dc_Type c = DeploymentProgressing \<and> dc_Status c = ConditionFalse \<and>
         dc_Reason c = ''ProgressDeadlineExceeded'' then True
      else stalled_condition cs)"

definition progressDeadlineExceeded :: "Deployment \<Rightarrow> bool" where
  "progressDeadlineExceeded dep = stalled_condition (ds_Conditions dep)"

definition effectiveReplicas :: "Deployment \<Rightarrow> int32" where
  "effectiveReplicas dep = (case dep_Replicas dep of None \<Rightarrow> 1 | Some r \<Rightarrow> r)"

definition chooseStrategy :: "RemediationStrategy \<Rightarrow> int32 \<Rightarrow> RemediationStrategy" where
  "chooseStrategy s replicas =
     (if s = StrategyRolloutRestart \<or> s = StrategyDeletePod then s
      else if replicas \<le>s 1 then StrategyRolloutRestart
      else StrategyDeletePod)"

definition isSystemic :: "int64 \<Rightarrow> int64 \<Rightarrow> int32 \<Rightarrow> bool" where
  "isSystemic unhealthy n_total skipPercent =
     (if n_total <s 2 \<or> unhealthy \<le>s 0 \<or> skipPercent \<le>s 0 then False
      else int64_of skipPercent * n_total \<le>s unhealthy * 100)"

definition breakerOpen ::
  "int32 \<Rightarrow> int32 \<Rightarrow> RemediationRecord option \<Rightarrow> Duration \<Rightarrow> gotime \<Rightarrow> bool" where
  "breakerOpen consecutiveAttempts maxAttempts lastRem cooldown now =
     (if consecutiveAttempts <s maxAttempts then False
      else case lastRem of
        None \<Rightarrow> False
      | Some l \<Rightarrow> TimeSub now (rr_Time l) <s cooldown)"

definition cooldownActive :: "RemediationRecord option \<Rightarrow> Duration \<Rightarrow> gotime \<Rightarrow> bool" where
  "cooldownActive lastRem cooldown now =
     (case lastRem of
        None \<Rightarrow> False
      | Some l \<Rightarrow> if cooldown \<le>s 0 then False else TimeSub now (rr_Time l) <s cooldown)"

section \<open>Timing and thresholds\<close>

lemma sint_seconds:
  "sint (seconds v dflt) = (if 0 < sint v then sint v else sint dflt) * 1000000000"
proof -
  have "sint (int64_of w * Second) = sint w * 1000000000" for w :: int32
    using sint32_range [of w] by (subst sint_mult64) simp_all
  then show ?thesis by (simp add: seconds_def go_cmp)
qed

lemma sint_threshold: "sint (threshold v dflt) = (if 0 < sint v then sint v else sint dflt)"
  by (simp add: threshold_def go_cmp)

lemma headers_map_snoc:
  "headers_map (hs @ [h]) = (headers_map hs)(hd_Name h \<mapsto> hd_Value h)"
  by (simp add: headers_map_def)

lemma headers_map_last:
  "hd_Name h \<notin> hd_Name ` set hs2 \<Longrightarrow> headers_map (hs1 @ h # hs2) (hd_Name h) = Some (hd_Value h)"
proof (induction hs2 rule: rev_induct)
  case Nil
  then show ?case by (simp add: headers_map_snoc)
next
  case (snoc x xs)
  then have "headers_map (hs1 @ h # xs) (hd_Name h) = Some (hd_Value h)" by simp
  moreover have "headers_map (hs1 @ h # xs @ [x]) = (headers_map (hs1 @ h # xs))(hd_Name x \<mapsto> hd_Value x)"
    using headers_map_snoc [of "hs1 @ h # xs" x] by simp
  ultimately show ?case using snoc.prems by auto
qed

text \<open>
  What a normalized configuration guarantees its users: positive period and timeout, a
  non-negative initial delay, thresholds of at least one, a positive port.
\<close>

definition normalized :: "ProbeConfig \<Rightarrow> bool" where
  "normalized cfg \<longleftrightarrow>
     0 < sint (Port cfg) \<and> 0 < sint (Timeout cfg) \<and> 0 < sint (Period cfg) \<and>
     0 \<le> sint (InitialDelay cfg) \<and> 1 \<le> sint (SuccessThreshold cfg) \<and> 1 \<le> sint (FailureThreshold cfg)"

lemma normalizeProbe_Inr:
  assumes "normalizeProbe p = Inr cfg"
  obtains h where "HTTPGet p = Some h" and "ios_Type (hg_Port h) = IntType"
    and "0 < sint (IntVal (hg_Port h))"
    and "cfg = \<lparr>Path = hg_Path h, Scheme = hg_Scheme h, Port = IntVal (hg_Port h),
                Timeout = seconds (TimeoutSeconds p) 1, Period = seconds (PeriodSeconds p) 10,
                InitialDelay = seconds (InitialDelaySeconds p) 0,
                SuccessThreshold = threshold (p_SuccessThreshold p) 1,
                FailureThreshold = threshold (p_FailureThreshold p) 3,
                Headers = headers_map (hg_HTTPHeaders h)\<rparr>"
  using assms by (auto simp: normalizeProbe_def go_cmp split: option.splits if_splits)

lemma normalizeProbe_normalized: "normalizeProbe p = Inr cfg \<Longrightarrow> normalized cfg"
  by (erule normalizeProbe_Inr) (simp add: normalized_def sint_seconds sint_threshold)

section \<open>The safety valves\<close>

lemma isSystemic_iff:
  assumes "0 \<le> sint u" "sint u < 2 ^ 31" "0 \<le> sint n" "sint n < 2 ^ 31"
  shows "isSystemic u n skip \<longleftrightarrow>
    2 \<le> sint n \<and> 0 < sint u \<and> 0 < sint skip \<and> sint skip * sint n \<le> sint u * 100"
proof (cases "2 \<le> sint n \<and> 0 < sint u \<and> 0 < sint skip")
  case True
  have "sint skip * sint n \<le> 2 ^ 31 * 2 ^ 31"
    using True assms sint32_range(2) [of skip] by (intro mult_mono) auto
  moreover have "- (2 ^ 63) \<le> sint skip * sint n"
    by (rule order_trans [of _ 0]) (use True in simp_all)
  ultimately have "sint (int64_of skip * n) = sint skip * sint n"
    by (simp add: sint_mult64)
  moreover have "sint (u * 100) = sint u * 100"
    using assms by (subst sint_mult64) auto
  ultimately show ?thesis using True by (simp add: isSystemic_def go_cmp)
next
  case False
  then show ?thesis by (auto simp: isSystemic_def go_cmp)
qed

lemma cooldownActive_iff:
  "cooldownActive lastRem cooldown now \<longleftrightarrow>
     0 < sint cooldown \<and> (\<exists>l. lastRem = Some l \<and> now - rr_Time l < sint cooldown)"
proof (cases "0 < sint cooldown")
  case True
  then show ?thesis
    by (auto simp: cooldownActive_def go_cmp sint_TimeSub_less minDuration_def split: option.splits)
next
  case False
  then show ?thesis by (auto simp: cooldownActive_def go_cmp split: option.splits)
qed

lemma breakerOpen_iff:
  assumes "minDuration < sint cooldown"
  shows "breakerOpen a m lastRem cooldown now \<longleftrightarrow>
     sint m \<le> sint a \<and> (\<exists>l. lastRem = Some l \<and> now - rr_Time l < sint cooldown)"
  using assms by (auto simp: breakerOpen_def go_cmp sint_TimeSub_less split: option.splits)

lemma chooseStrategy_cases:
  "chooseStrategy s n = StrategyRolloutRestart \<or> chooseStrategy s n = StrategyDeletePod"
  by (simp add: chooseStrategy_def)

lemma progressDeadlineExceeded_iff:
  "progressDeadlineExceeded dep \<longleftrightarrow>
     (\<exists>c \<in> set (ds_Conditions dep). dc_Type c = DeploymentProgressing \<and>
        dc_Status c = ConditionFalse \<and> dc_Reason c = ''ProgressDeadlineExceeded'')"
proof -
  have "stalled_condition cs \<longleftrightarrow> (\<exists>c \<in> set cs. dc_Type c = DeploymentProgressing \<and>
        dc_Status c = ConditionFalse \<and> dc_Reason c = ''ProgressDeadlineExceeded'')" for cs
    by (induction cs) auto
  then show ?thesis by (simp add: progressDeadlineExceeded_def)
qed

end
