(* ===== verification/Metrics.thy ===== *)
theory Metrics
  imports Main
begin

text \<open>
  \<open>internal/metrics/metrics.go\<close>: the Prometheus collectors, with their label names. A sample
  is addressed by \<open>WithLabelValues\<close>, which panics unless it is given one value per label.
\<close>

datatype vec_kind = CounterVec | GaugeVec

record collector =
  m_kind :: vec_kind
  m_Name :: string
  m_Help :: string
  m_labels :: "string list"

definition ProbeTotal :: collector where
  "ProbeTotal = \<lparr>m_kind = CounterVec, m_Name = ''hotswap_probe_total'',
     m_Help = ''Total hotswap health probes performed, by policy and result.'',
     m_labels = [''namespace'', ''policy'', ''result'']\<rparr>"

definition RemediationsTotal :: collector where
  "RemediationsTotal = \<lparr>m_kind = CounterVec, m_Name = ''hotswap_remediations_total'',
     m_Help = ''Total hotswap remediations performed, by policy and strategy.'',
     m_labels = [''namespace'', ''policy'', ''strategy'']\<rparr>"

definition DryRunTotal :: collector where
  "DryRunTotal = \<lparr>m_kind = CounterVec, m_Name = ''hotswap_dryrun_total'',
     m_Help = ''Total hotswap remediations simulated in dry-run mode, by policy and strategy.'',
     m_labels = [''namespace'', ''policy'', ''strategy'']\<rparr>"

definition CircuitOpen :: collector where
  "CircuitOpen = \<lparr>m_kind = GaugeVec, m_Name = ''hotswap_circuit_open'',
     m_Help = ''1 when a hotswap policy's remediation circuit breaker is open.'',
     m_labels = [''namespace'', ''policy'']\<rparr>"

definition TargetsHealthy :: collector where
  "TargetsHealthy = \<lparr>m_kind = GaugeVec, m_Name = ''hotswap_targets_healthy'',
     m_Help = ''Number of healthy targets observed for a hotswap policy.'',
     m_labels = [''namespace'', ''policy'']\<rparr>"

definition TargetsTotal :: collector where
  "TargetsTotal = \<lparr>m_kind = GaugeVec, m_Name = ''hotswap_targets_total'',
     m_Help = ''Number of targets observed for a hotswap policy.'',
     m_labels = [''namespace'', ''policy'']\<rparr>"

text \<open>The argument list of \<open>MustRegister\<close> in \<open>init\<close>, in its order.\<close>

definition registered :: "collector list" where
  "registered = [ProbeTotal, RemediationsTotal, DryRunTotal, CircuitOpen, TargetsHealthy, TargetsTotal]"

lemmas collector_defs = ProbeTotal_def RemediationsTotal_def DryRunTotal_def CircuitOpen_def
  TargetsHealthy_def TargetsTotal_def

text \<open>\<open>MustRegister\<close> panics on a duplicate name; a sample needs as many values as labels.\<close>

definition label_values_ok :: "collector \<Rightarrow> string list \<Rightarrow> bool" where
  "label_values_ok c vs \<longleftrightarrow> c \<in> set registered \<and> length vs = length (m_labels c)"

lemma registered_names_distinct: "distinct (map m_Name registered)"
  by (simp add: registered_def collector_defs)

end
