(* ===== verification/ProbeState.thy ===== *)
theory ProbeState
  imports Checker ApiTypes "HOL-Library.Sublist"
begin

text \<open>
  The per-pod data of \<open>internal/prober/prober.go\<close> (\<open>PodTarget\<close>, \<open>PodState\<close>,
  \<open>podEntry\<close>) and \<open>record\<close>, the threshold state machine that turns probe results into
  health transitions. The second half relates the counters and the verdict of the machine to
  the history of results it has seen.
\<close>

record PodTarget =
  t_Name :: string
  t_UID :: UID
  t_IP :: string

record PodState =
  PodName :: string
  PodUID :: UID
  PodIP :: string
  Healthy :: bool
  ConsecutiveFailures :: int32
  ConsecutiveSuccesses :: int32
  SeenReady :: bool
  LastProbe :: gotime
  LastTransition :: gotime

text \<open>
  \<open>podEntry\<close> embeds \<open>PodState\<close>; the cancel function is the number of the context it
  cancels.
\<close>

record podEntry = PodState +
  started :: bool
  cancel :: "nat option"

text \<open>The entry \<open>Sync\<close> makes for a new pod, before its context is created.\<close>

definition new_podEntry :: "PodTarget \<Rightarrow> podEntry" where
  "new_podEntry t =
     \<lparr>PodName = t_Name t, PodUID = t_UID t, PodIP = t_IP t, Healthy = True,
      ConsecutiveFailures = 0, ConsecutiveSuccesses = 0, SeenReady = False,
      LastProbe = 0, LastTransition = 0, started = False, cancel = None\<rparr>"

definition success_of :: "ProbeConfig \<Rightarrow> int32" where
  "success_of cfg = (if SuccessThreshold cfg \<le>s 0 then 1 else SuccessThreshold cfg)"

definition failure_of :: "ProbeConfig \<Rightarrow> int32" where
  "failure_of cfg = (if FailureThreshold cfg \<le>s 0 then 3 else FailureThreshold cfg)"

definition record_probe ::
  "podEntry \<Rightarrow> ProbeConfig \<Rightarrow> bool \<Rightarrow> gotime \<Rightarrow> bool \<times> podEntry" where
  "record_probe pod cfg ok now =
     (let success = success_of cfg;
          failure = failure_of cfg;
          pod = pod\<lparr>LastProbe := now, started := True\<rparr>
      in if ok then
           let pod = pod\<lparr>ConsecutiveSuccesses := ConsecutiveSuccesses pod + 1,
                         ConsecutiveFailures := 0\<rparr>
           in if \<not> Healthy pod \<and> success \<le>s ConsecutiveSuccesses pod
              then (True, pod\<lparr>Healthy := True, LastTransition := now\<rparr>)
              else (False, pod)
         else
           let pod = pod\<lparr>ConsecutiveFailures := ConsecutiveFailures pod + 1,
                         ConsecutiveSuccesses := 0\<rparr>
           in if Healthy pod \<and> failure \<le>s ConsecutiveFailures pod
              then (True, pod\<lparr>Healthy := False, LastTransition := now\<rparr>)
              else (False, pod))"

text \<open>A run of probes: the results in the order they are recorded, each with its time.\<close>

fun record_all :: "ProbeConfig \<Rightarrow> podEntry \<Rightarrow> (bool \<times> gotime) list \<Rightarrow> podEntry" where
  "record_all cfg pod [] = pod"
| "record_all cfg pod ((ok, now) # rs) = record_all cfg (snd (record_probe pod cfg ok now)) rs"

section \<open>One step\<close>

lemma success_of_pos: "1 \<le> sint (success_of cfg)"
  by (simp add: success_of_def go_cmp)

lemma failure_of_pos: "1 \<le> sint (failure_of cfg)"
  by (simp add: failure_of_def go_cmp)

lemma record_probe_frame:
  "record_probe pod cfg ok now = (tr, pod') \<Longrightarrow>
     PodName pod' = PodName pod \<and> PodUID pod' = PodUID pod \<and> PodIP pod' = PodIP pod \<and>
     SeenReady pod' = SeenReady pod \<and> cancel pod' = cancel pod \<and>
     started pod' \<and> LastProbe pod' = now"
  by (auto simp: record_probe_def Let_def split: if_splits)

lemma record_probe_transition:
  "record_probe pod cfg ok now = (tr, pod') \<Longrightarrow>
     tr = (Healthy pod' \<noteq> Healthy pod) \<and>
     (tr \<longrightarrow> Healthy pod' = ok) \<and>
     LastTransition pod' = (if tr then now else LastTransition pod)"
  by (auto simp: record_probe_def Let_def split: if_splits)

lemma record_probe_counters:
  "ConsecutiveSuccesses (snd (record_probe pod cfg ok now)) =
     (if ok then ConsecutiveSuccesses pod + 1 else 0)"
  "ConsecutiveFailures (snd (record_probe pod cfg ok now)) =
     (if ok then 0 else ConsecutiveFailures pod + 1)"
  by (simp_all add: record_probe_def Let_def)

lemma record_probe_Healthy:
  "Healthy (snd (record_probe pod cfg ok now)) =
     (if ok then Healthy pod \<or> success_of cfg \<le>s ConsecutiveSuccesses pod + 1
      else Healthy pod \<and> \<not> failure_of cfg \<le>s ConsecutiveFailures pod + 1)"
  by (auto simp: record_probe_def Let_def)

lemma record_all_append:
  "record_all cfg pod (rs @ qs) = record_all cfg (record_all cfg pod rs) qs"
  by (induction rs arbitrary: pod) auto

lemma record_all_frame:
  "PodName (record_all cfg pod rs) = PodName pod \<and> PodUID (record_all cfg pod rs) = PodUID pod \<and>
   PodIP (record_all cfg pod rs) = PodIP pod \<and> SeenReady (record_all cfg pod rs) = SeenReady pod"
proof (induction rs arbitrary: pod)
  case (Cons r rs)
  obtain ok now where r: "r = (ok, now)" by fastforce
  obtain tr pod' where p: "record_probe pod cfg ok now = (tr, pod')" by fastforce
  show ?case using Cons.IH [of pod'] record_probe_frame [OF p] by (simp add: r p)
qed simp

section \<open>The history of results\<close>

text \<open>The length of the run of results equal to \<open>b\<close> at the end of a history.\<close>

definition streak :: "bool \<Rightarrow> bool list \<Rightarrow> nat" where
  "streak b h = length (takeWhile (\<lambda>x. x = b) (rev h))"

lemma streak_Nil [simp]: "streak b [] = 0"
  by (simp add: streak_def)

lemma streak_snoc: "streak b (h @ [x]) = (if x = b then Suc (streak b h) else 0)"
  by (simp add: streak_def)

lemma streak_le_length: "streak b h \<le> length h"
  by (metis streak_def length_rev length_takeWhile_le)

lemma streak_suffix: "n \<le> streak b h \<longleftrightarrow> suffix (replicate n b) h"
proof (induction h arbitrary: n rule: rev_induct)
  case Nil
  then show ?case by simp
next
  case (snoc x h)
  show ?case
  proof (cases n)
    case 0
    then show ?thesis by simp
  next
    case (Suc k)
    have "replicate n b = replicate k b @ [b]"
      by (simp add: Suc replicate_append_same)
    then have "suffix (replicate n b) (h @ [x]) \<longleftrightarrow> b = x \<and> suffix (replicate k b) h"
      by (simp only: snoc_suffix_snoc)
    then show ?thesis using snoc.IH [of k] by (auto simp: Suc streak_snoc)
  qed
qed

text \<open>
  The verdict the thresholds define: a pod is down when some run of \<open>f\<close> failures in a row
  has not been followed by a run of \<open>s\<close> successes in a row.
\<close>

definition down :: "nat \<Rightarrow> nat \<Rightarrow> bool list \<Rightarrow> bool" where
  "down s f h \<longleftrightarrow>
     (\<exists>pre post. h = pre @ replicate f False @ post \<and> \<not> sublist (replicate s True) post)"

lemma sublist_snoc_run:
  "sublist (replicate s b) (h @ [x]) \<longleftrightarrow>
     sublist (replicate s b) h \<or> s \<le> streak b (h @ [x])"
  unfolding streak_suffix sublist_snoc by blast

lemma down_Nil: "0 < f \<Longrightarrow> \<not> down s f []"
  by (simp add: down_def)

lemma streak_after_run:
  "0 < f \<Longrightarrow> streak b (pre @ replicate f (\<not> b) @ post) = streak b post"
proof -
  assume "0 < f"
  then obtain g where "f = Suc g" by (cases f) auto
  then have "rev (pre @ replicate f (\<not> b) @ post) =
      rev post @ (\<not> b) # (replicate g (\<not> b) @ rev pre)"
    by simp (simp add: replicate_append_same [symmetric])
  then show ?thesis by (simp only: streak_def) (simp add: takeWhile_tail)
qed

lemma down_snoc:
  assumes s: "0 < s" and f: "0 < f"
  shows "down s f (h @ [x]) \<longleftrightarrow>
    (if x then down s f h \<and> streak True (h @ [x]) < s
     else down s f h \<or> f \<le> streak False (h @ [x]))"
proof (cases "down s f h")
  case True
  then obtain pre post where h: "h = pre @ replicate f False @ post"
    and post: "\<not> sublist (replicate s True) post"
    unfolding down_def by blast
  have streak: "streak True (h @ [x]) = streak True (post @ [x])"
    using streak_after_run [OF f, of True pre "post @ [x]"] by (simp add: h)
  have up: "down s f (h @ [x])" if "streak True (h @ [x]) < s"
  proof -
    from that post have "\<not> sublist (replicate s True) (post @ [x])"
      by (simp add: sublist_snoc_run streak not_le)
    moreover have "h @ [x] = pre @ replicate f False @ (post @ [x])" by (simp add: h)
    ultimately show ?thesis unfolding down_def by blast
  qed
  have "\<not> down s f (h @ [x])" if "s \<le> streak True (h @ [x])"
  proof
    assume "down s f (h @ [x])"
    then obtain pre' post' where eq: "h @ [x] = pre' @ replicate f False @ post'"
      and "\<not> sublist (replicate s True) post'"
      unfolding down_def by blast
    then have "\<not> s \<le> streak True post'"
      by (auto simp: streak_suffix)
    then show False using that streak_after_run [OF f, of True pre' post'] by (simp add: eq)
  qed
  with up have "down s f (h @ [x]) \<longleftrightarrow> streak True (h @ [x]) < s"
    by (meson not_less)
  with True s show ?thesis by (cases x) (simp_all add: streak_snoc)
next
  case False
  have "down s f (h @ [x]) \<longleftrightarrow> f \<le> streak False (h @ [x])"
  proof
    assume "down s f (h @ [x])"
    then obtain pre post where eq: "h @ [x] = pre @ replicate f False @ post"
      and post: "\<not> sublist (replicate s True) post"
      unfolding down_def by blast
    show "f \<le> streak False (h @ [x])"
    proof (cases post rule: rev_cases)
      case Nil
      then show ?thesis by (simp add: streak_suffix eq suffix_def)
    next
      case (snoc q y)
      with eq have "h = pre @ replicate f False @ q" by simp
      moreover have "\<not> sublist (replicate s True) q"
        using post snoc by (simp add: sublist_snoc_run)
      ultimately show ?thesis using False unfolding down_def by blast
    qed
  next
    assume "f \<le> streak False (h @ [x])"
    then obtain pre where "h @ [x] = pre @ replicate f False @ []"
      unfolding streak_suffix suffix_def by auto
    moreover have "\<not> sublist (replicate s True) []" using s by simp
    ultimately show "down s f (h @ [x])" unfolding down_def by blast
  qed
  with False f show ?thesis by (cases x) (simp_all add: streak_snoc)
qed

section \<open>The machine against the history\<close>

lemma record_all_snoc:
  "record_all cfg pod (rs @ [(ok, now)]) = snd (record_probe (record_all cfg pod rs) cfg ok now)"
  by (simp add: record_all_append)

lemma record_all_counters:
  "ConsecutiveFailures (record_all cfg (new_podEntry t) rs) = word_of_nat (streak False (map fst rs)) \<and>
   ConsecutiveSuccesses (record_all cfg (new_podEntry t) rs) = word_of_nat (streak True (map fst rs))"
proof (induction rs rule: rev_induct)
  case Nil
  then show ?case by (simp add: new_podEntry_def)
next
  case (snoc r rs)
  then show ?case
    by (cases r) (simp add: record_all_snoc record_probe_counters streak_snoc)
qed

lemma sint_streak:
  "length h < 2 ^ 31 \<Longrightarrow> sint (word_of_nat (streak b h) :: int32) = int (streak b h)"
proof -
  assume "length h < 2 ^ 31"
  with streak_le_length have "streak b h < 2 ^ 31" by (rule le_less_trans)
  then have "int (streak b h) < 2 ^ 31" by simp
  then show ?thesis using sint_word_of_int32 [of "int (streak b h)"] by simp
qed

lemma record_all_Healthy:
  "length rs < 2 ^ 31 \<Longrightarrow>
   Healthy (record_all cfg (new_podEntry t) rs) \<longleftrightarrow>
     \<not> down (nat (sint (success_of cfg))) (nat (sint (failure_of cfg))) (map fst rs)"
proof (induction rs rule: rev_induct)
  case Nil
  then show ?case
    using failure_of_pos [of cfg] by (simp add: new_podEntry_def down_Nil)
next
  case (snoc r rs)
  obtain ok now where r: "r = (ok, now)" by fastforce
  let ?h = "map fst rs" and ?pod = "record_all cfg (new_podEntry t) rs"
  have pos: "0 < nat (sint (success_of cfg))" "0 < nat (sint (failure_of cfg))"
    using success_of_pos [of cfg] failure_of_pos [of cfg] by simp_all
  have succ: "sint (ConsecutiveSuccesses ?pod + 1) = int (streak True (?h @ [True]))"
    using snoc.prems sint_streak [of "?h @ [True]" True]
    by (simp add: record_all_counters [of cfg t rs] streak_snoc ac_simps)
  have fail: "sint (ConsecutiveFailures ?pod + 1) = int (streak False (?h @ [False]))"
    using snoc.prems sint_streak [of "?h @ [False]" False]
    by (simp add: record_all_counters [of cfg t rs] streak_snoc ac_simps)
  have "Healthy ?pod \<longleftrightarrow>
      \<not> down (nat (sint (success_of cfg))) (nat (sint (failure_of cfg))) ?h"
    using snoc by simp
  with succ fail show ?case
    by (cases ok) (auto simp: r record_all_snoc record_probe_Healthy down_snoc [OF pos] go_cmp)
qed

end
