(* ===== verification/ProbeSource.thy ===== *)
theory ProbeSource
  imports ProbeState
begin

text \<open>
  \<open>ProbeSource\<close> of \<open>internal/controller/hotswappolicy_controller.go\<close>: the part of the
  prober the reconciler depends on, as a record of operations on a state of its own, and the
  contract of these operations as a locale. The contract speaks of the facts that only the
  reconciler's own calls change (which pods are tracked, their name, address and Ready mark);
  health and counters may change between two calls, because the probe loops run concurrently.
\<close>

record 'p ProbeSource =
  ps_Sync :: "NamespacedName \<Rightarrow> ProbeConfig \<Rightarrow> PodTarget list \<Rightarrow> 'p \<Rightarrow> 'p"
  ps_SetSeenReady :: "NamespacedName \<Rightarrow> UID \<Rightarrow> 'p \<Rightarrow> 'p"
  ps_Snapshot :: "NamespacedName \<Rightarrow> 'p \<Rightarrow> PodState list \<times> 'p"
  ps_Forget :: "NamespacedName \<Rightarrow> 'p \<Rightarrow> 'p"
  ps_Events :: "'p \<Rightarrow> NamespacedName list"

text \<open>What a tracked pod shows of its identity: name, address, seen Ready.\<close>

type_synonym identity = "string \<times> string \<times> bool"

definition identity_of :: "PodState \<Rightarrow> identity" where
  "identity_of s = (PodName s, PodIP s, SeenReady s)"

text \<open>The map \<open>desired\<close> that \<open>Sync\<close> builds: of several targets with one UID the last wins.\<close>

definition desired_map :: "PodTarget list \<Rightarrow> (UID \<rightharpoonup> PodTarget)" where
  "desired_map targets = fold (\<lambda>t d. d(t_UID t \<mapsto> t)) targets Map.empty"

definition synced_identity :: "(UID \<rightharpoonup> identity) \<Rightarrow> PodTarget list \<Rightarrow> (UID \<rightharpoonup> identity)" where
  "synced_identity view targets u =
     (case desired_map targets u of
        None \<Rightarrow> None
      | Some t \<Rightarrow> Some (t_Name t, t_IP t,
                       case view u of None \<Rightarrow> False | Some (_, _, seen) \<Rightarrow> seen))"

definition seen_identity :: "identity \<Rightarrow> identity" where
  "seen_identity i = (case i of (n, ip, _) \<Rightarrow> (n, ip, True))"

lemma desired_map_Some: "desired_map ts u = Some t \<Longrightarrow> t \<in> set ts \<and> t_UID t = u"
proof -
  assume d: "desired_map ts u = Some t"
  have "u \<in> t_UID ` set ts"
  proof (rule ccontr)
    assume "u \<notin> t_UID ` set ts"
    then have "desired_map ts u = None"
      unfolding desired_map_def by (subst fold_map_upd_notin) simp_all
    with d show False by simp
  qed
  from fold_map_upd_in [where val = "\<lambda>t. t" and m = Map.empty, OF this] d show ?thesis
    by (auto simp: desired_map_def)
qed

lemma dom_desired_map: "dom (desired_map ts) = t_UID ` set ts"
  by (simp add: desired_map_def dom_fold_map_upd)

locale probe_source =
  fixes ps :: "'p ProbeSource"
    and inv :: "'p \<Rightarrow> bool"
    and view :: "NamespacedName \<Rightarrow> 'p \<Rightarrow> (UID \<rightharpoonup> identity)"
    and separate :: "NamespacedName \<Rightarrow> NamespacedName \<Rightarrow> bool"
  assumes inv_Sync: "inv p \<Longrightarrow> inv (ps_Sync ps nn cfg ts p)"
    and inv_SetSeenReady: "inv p \<Longrightarrow> inv (ps_SetSeenReady ps nn u p)"
    and inv_Snapshot: "inv p \<Longrightarrow> inv (snd (ps_Snapshot ps nn p))"
    and inv_Forget: "inv p \<Longrightarrow> inv (ps_Forget ps nn p)"
    and view_Sync: "inv p \<Longrightarrow> view nn (ps_Sync ps nn cfg ts p) = synced_identity (view nn p) ts"
    and view_SetSeenReady: "inv p \<Longrightarrow>
      view nn (ps_SetSeenReady ps nn u p) = (view nn p)(u := map_option seen_identity (view nn p u))"
    and view_Snapshot: "inv p \<Longrightarrow> view nn (snd (ps_Snapshot ps nn p)) = view nn p"
    and view_Forget: "inv p \<Longrightarrow> view nn (ps_Forget ps nn p) = Map.empty"
    and Snapshot_distinct: "inv p \<Longrightarrow> distinct (map PodUID (fst (ps_Snapshot ps nn p)))"
    and Snapshot_uids: "inv p \<Longrightarrow> PodUID ` set (fst (ps_Snapshot ps nn p)) = dom (view nn p)"
    and Snapshot_identity: "inv p \<Longrightarrow> s \<in> set (fst (ps_Snapshot ps nn p)) \<Longrightarrow>
      view nn p (PodUID s) = Some (identity_of s)"
    and other_Sync: "inv p \<Longrightarrow> separate nn nn' \<Longrightarrow> view nn' (ps_Sync ps nn cfg ts p) = view nn' p"
    and other_SetSeenReady: "inv p \<Longrightarrow> separate nn nn' \<Longrightarrow>
      view nn' (ps_SetSeenReady ps nn u p) = view nn' p"
    and other_Snapshot: "inv p \<Longrightarrow> separate nn nn' \<Longrightarrow>
      view nn' (snd (ps_Snapshot ps nn p)) = view nn' p"
    and other_Forget: "inv p \<Longrightarrow> separate nn nn' \<Longrightarrow> view nn' (ps_Forget ps nn p) = view nn' p"
begin

lemmas inv_ops = inv_Sync inv_SetSeenReady inv_Snapshot inv_Forget
lemmas view_ops = view_Sync view_SetSeenReady view_Snapshot view_Forget
lemmas other_ops = other_Sync other_SetSeenReady other_Snapshot other_Forget

text \<open>After a synchronisation exactly the targets are tracked, under their own names.\<close>

lemma Snapshot_after_Sync:
  assumes "inv p" and "s \<in> set (fst (ps_Snapshot ps nn (ps_Sync ps nn cfg ts p)))"
  shows "\<exists>t \<in> set ts. t_UID t = PodUID s \<and> t_Name t = PodName s \<and> t_IP t = PodIP s"
proof -
  have "view nn (ps_Sync ps nn cfg ts p) (PodUID s) = Some (identity_of s)"
    using assms by (intro Snapshot_identity inv_Sync)
  then show ?thesis
    using assms(1) desired_map_Some [of ts "PodUID s"]
    by (auto simp: view_Sync synced_identity_def identity_of_def split: option.splits)
qed

lemma length_Snapshot:
  assumes "inv p"
  shows "length (fst (ps_Snapshot ps nn p)) = card (dom (view nn p))"
  using distinct_card [OF Snapshot_distinct [OF assms, of nn]] Snapshot_uids [OF assms, of nn]
  by simp

end

end
