(* ===== verification/Effects.thy ===== *)
theory Effects
  imports ApiTypes Metrics ProbeSource
begin

text \<open>
  The world the reconciler acts on. The API server is a parameter: a \<open>Client\<close> answers each
  call from, and into, a world of any type, so that whatever other actors do between two
  calls is part of its answers. Every write the reconciler attempts, every metric and every
  event is also kept in a trace, in the order in which it happens. The pure helpers of the
  Kubernetes libraries (finalizers, status conditions, label selectors) are parameters too.
\<close>

section \<open>Errors\<close>

text \<open>
  Of an API error the code asks only whether it is a NotFound. A handler ends with an error,
  with a panic, or with a value.
\<close>

datatype api_error = NotFound | APIError string
datatype abort = Err api_error | Panic

definition IsNotFound :: "api_error \<Rightarrow> bool" where
  "IsNotFound e \<longleftrightarrow> e = NotFound"

text \<open>\<open>ctrl.Result\<close>.\<close>

record Result =
  Requeue :: bool
  RequeueAfter :: Duration

definition emptyResult :: Result where
  "emptyResult = \<lparr>Requeue = False, RequeueAfter = 0\<rparr>"

section \<open>The client and the libraries\<close>

record 'w Client =
  cl_GetPolicy :: "NamespacedName \<Rightarrow> 'w \<Rightarrow> (api_error + HotSwapPolicy) \<times> 'w"
  cl_GetDeployment :: "NamespacedName \<Rightarrow> 'w \<Rightarrow> (api_error + Deployment) \<times> 'w"
  cl_GetReplicaSet :: "NamespacedName \<Rightarrow> 'w \<Rightarrow> (api_error + ReplicaSet) \<times> 'w"
  cl_ListPolicies :: "string \<Rightarrow> 'w \<Rightarrow> (api_error + HotSwapPolicy list) \<times> 'w"
  cl_ListPods :: "string \<Rightarrow> Selector \<Rightarrow> 'w \<Rightarrow> (api_error + Pod list) \<times> 'w"
  cl_Update :: "HotSwapPolicy \<Rightarrow> 'w \<Rightarrow> api_error option \<times> 'w"
  cl_StatusUpdate :: "HotSwapPolicy \<Rightarrow> 'w \<Rightarrow> api_error option \<times> 'w"
  cl_PatchDeployment :: "Deployment \<Rightarrow> string \<Rightarrow> 'w \<Rightarrow> api_error option \<times> 'w"
  cl_DeletePod :: "string \<Rightarrow> string \<Rightarrow> 'w \<Rightarrow> api_error option \<times> 'w"

record K8sLib =
  k_ContainsFinalizer :: "string list \<Rightarrow> string \<Rightarrow> bool"
  k_AddFinalizer :: "string list \<Rightarrow> string \<Rightarrow> string list"
  k_RemoveFinalizer :: "string list \<Rightarrow> string \<Rightarrow> string list"
  k_SetStatusCondition :: "Condition \<Rightarrow> Condition list \<Rightarrow> Condition list"
  k_RemoveStatusCondition :: "string \<Rightarrow> Condition list \<Rightarrow> Condition list"
  k_LabelSelectorAsSelector :: "LabelSelector option \<Rightarrow> string + Selector"

section \<open>Effects and state\<close>

datatype effect =
    GaugeSet collector "string list" int
  | CounterInc collector "string list"
  | RecorderEvent string string string
  | PolicyUpdate HotSwapPolicy "api_error option"
  | StatusUpdate HotSwapPolicy "api_error option"
  | DeploymentPatch string string string "api_error option"
  | PodDelete string string "api_error option"

record ('w, 'p) rstate =
  world :: 'w
  prober :: 'p
  trace :: "effect list"

record ('w, 'p) HotSwapPolicyReconciler =
  r_Client :: "'w Client"
  r_Prober :: "'p ProbeSource"
  r_Now :: "'w \<Rightarrow> gotime \<times> 'w"
  r_lib :: K8sLib

type_synonym ('w, 'p, 'a) action = "(('w, 'p) rstate, 'a) state"

definition ask :: "('w \<Rightarrow> 'a \<times> 'w) \<Rightarrow> ('w, 'p, 'a) action" where
  "ask f = State (\<lambda>s. case f (world s) of (x, w) \<Rightarrow> (x, s\<lparr>world := w\<rparr>))"

definition emit :: "effect \<Rightarrow> ('w, 'p, unit) action" where
  "emit e = State (\<lambda>s. ((), s\<lparr>trace := trace s @ [e]\<rparr>))"

definition on_prober :: "('p \<Rightarrow> 'p) \<Rightarrow> ('w, 'p, unit) action" where
  "on_prober f = State (\<lambda>s. ((), s\<lparr>prober := f (prober s)\<rparr>))"

definition read_prober :: "('p \<Rightarrow> 'a \<times> 'p) \<Rightarrow> ('w, 'p, 'a) action" where
  "read_prober f = State (\<lambda>s. case f (prober s) of (x, p) \<Rightarrow> (x, s\<lparr>prober := p\<rparr>))"

text \<open>The client's writes, with the trace of what was attempted and how it ended.\<close>

definition Update :: "('w, 'p) HotSwapPolicyReconciler \<Rightarrow> HotSwapPolicy \<Rightarrow> ('w, 'p, api_error option) action" where
  "Update r policy = do {
     e \<leftarrow> ask (cl_Update (r_Client r) policy);
     _ \<leftarrow> emit (PolicyUpdate policy e);
     State_Monad.return e }"

definition StatusUpdateCall :: "('w, 'p) HotSwapPolicyReconciler \<Rightarrow> HotSwapPolicy \<Rightarrow> ('w, 'p, api_error option) action" where
  "StatusUpdateCall r policy = do {
     e \<leftarrow> ask (cl_StatusUpdate (r_Client r) policy);
     _ \<leftarrow> emit (StatusUpdate policy e);
     State_Monad.return e }"

definition Patch :: "('w, 'p) HotSwapPolicyReconciler \<Rightarrow> Deployment \<Rightarrow> string \<Rightarrow> ('w, 'p, api_error option) action" where
  "Patch r dep patch = do {
     e \<leftarrow> ask (cl_PatchDeployment (r_Client r) dep patch);
     _ \<leftarrow> emit (DeploymentPatch (dep_Namespace dep) (dep_Name dep) patch e);
     State_Monad.return e }"

definition Delete :: "('w, 'p) HotSwapPolicyReconciler \<Rightarrow> string \<Rightarrow> string \<Rightarrow> ('w, 'p, api_error option) action" where
  "Delete r ns name = do {
     e \<leftarrow> ask (cl_DeletePod (r_Client r) ns name);
     _ \<leftarrow> emit (PodDelete ns name e);
     State_Monad.return e }"

end
