(* ===== verification/Conflict.thy ===== *)
theory Conflict
  imports ApiTypes
begin

text \<open>
  Overlapping policies (\<open>lessPolicy\<close> and the loop of \<open>conflictingPolicy\<close> in
  \<open>internal/controller/hotswappolicy_controller.go\<close>). The loop keeps the least of the
  candidates; the order it needs is stated as a locale, interpreted on \<open>lessPolicy\<close>.
\<close>

definition lessPolicy :: "HotSwapPolicy \<Rightarrow> HotSwapPolicy \<Rightarrow> bool" where
  "lessPolicy a b =
     (if pol_CreationTimestamp a \<noteq> pol_CreationTimestamp b
      then pol_CreationTimestamp a < pol_CreationTimestamp b
      else pol_Name a < pol_Name b)"

definition target_of :: "HotSwapPolicy \<Rightarrow> string" where
  "target_of p = tr_Name (TargetRef (pol_Spec p))"

fun winner_loop :: "HotSwapPolicy \<Rightarrow> HotSwapPolicy \<Rightarrow> HotSwapPolicy list \<Rightarrow> HotSwapPolicy" where
  "winner_loop policy winner [] = winner"
| "winner_loop policy winner (other # items) =
     (if pol_Name other = pol_Name policy then winner_loop policy winner items
      else if target_of other \<noteq> target_of policy then winner_loop policy winner items
      else if lessPolicy other winner then winner_loop policy other items
      else winner_loop policy winner items)"

text \<open>The name of the policy that wins over this one, or the empty string.\<close>

definition conflicting_winner :: "HotSwapPolicy \<Rightarrow> HotSwapPolicy list \<Rightarrow> string" where
  "conflicting_winner policy items =
     (let winner = winner_loop policy policy items
      in if pol_Name winner = pol_Name policy then '''' else pol_Name winner)"

section \<open>Choosing a least element\<close>

locale priority =
  fixes less :: "'a \<Rightarrow> 'a \<Rightarrow> bool"
    and name :: "'a \<Rightarrow> 'n"
  assumes less_irrefl: "\<not> less a a"
    and less_trans: "less a b \<Longrightarrow> less b c \<Longrightarrow> less a c"
    and less_total: "name a \<noteq> name b \<Longrightarrow> less a b \<or> less b a"
begin

text \<open>The least element of a list, the first in case of equivalent ones.\<close>

definition keep :: "'a \<Rightarrow> 'a \<Rightarrow> 'a" where
  "keep x w = (if less x w then x else w)"

lemma fold_keep_in: "fold keep xs w \<in> insert w (set xs)"
  by (induction xs arbitrary: w) (auto simp: keep_def split: if_splits)

lemma fold_keep_le:
  "fold keep xs w = w \<or> less (fold keep xs w) w"
proof (induction xs arbitrary: w)
  case (Cons x xs)
  have "keep x w = w \<or> less (keep x w) w" by (simp add: keep_def)
  with Cons.IH [of "keep x w"] show ?case
    using less_trans [of "fold keep xs (keep x w)" "keep x w" w] by auto
qed simp

lemma fold_keep_min: "x \<in> insert w (set xs) \<Longrightarrow> \<not> less x (fold keep xs w)"
proof (induction xs arbitrary: w)
  case Nil
  then show ?case by (simp add: less_irrefl)
next
  case (Cons y xs)
  have le: "fold keep xs (keep y w) = keep y w \<or> less (fold keep xs (keep y w)) (keep y w)"
    by (rule fold_keep_le)
  show ?case
  proof (cases "x \<in> set xs")
    case True
    then show ?thesis using Cons.IH [of "keep y w"] by simp
  next
    case False
    with Cons.prems have "x = w \<or> x = y" by simp
    then have "\<not> less x (keep y w)"
      using less_irrefl less_trans by (auto simp: keep_def)
    with le show ?thesis using less_trans [of x "fold keep xs (keep y w)" "keep y w"] by auto
  qed
qed

end

interpretation policies: priority lessPolicy pol_Name
proof
  fix a b c :: HotSwapPolicy
  show "\<not> lessPolicy a a" by (simp add: lessPolicy_def)
  show "lessPolicy a b \<Longrightarrow> lessPolicy b c \<Longrightarrow> lessPolicy a c"
    by (auto simp: lessPolicy_def split: if_splits)
  show "pol_Name a \<noteq> pol_Name b \<Longrightarrow> lessPolicy a b \<or> lessPolicy b a"
    by (auto simp: lessPolicy_def)
qed

section \<open>One guardian per Deployment\<close>

text \<open>The rivals of a policy: other names, same target.\<close>

definition rivals :: "HotSwapPolicy \<Rightarrow> HotSwapPolicy list \<Rightarrow> HotSwapPolicy list" where
  "rivals policy items =
     filter (\<lambda>o'. pol_Name o' \<noteq> pol_Name policy \<and> target_of o' = target_of policy) items"

lemma winner_loop_fold:
  "winner_loop policy w items = fold policies.keep (rivals policy items) w"
  by (induction items arbitrary: w) (auto simp: rivals_def policies.keep_def)

lemma conflicting_winner_Nil_iff:
  assumes names: "\<forall>p \<in> set items. pol_Name p \<noteq> ''''"
  shows "conflicting_winner policy items = '''' \<longleftrightarrow> (\<forall>q \<in> set (rivals policy items). lessPolicy policy q)"
proof -
  let ?w = "fold policies.keep (rivals policy items) policy"
  have w_in: "?w \<in> insert policy (set (rivals policy items))" by (rule policies.fold_keep_in)
  have rn: "pol_Name q \<noteq> pol_Name policy \<and> pol_Name q \<noteq> ''''" if "q \<in> set (rivals policy items)" for q
    using that names by (auto simp: rivals_def)
  have "conflicting_winner policy items = '''' \<longleftrightarrow> ?w = policy"
    using w_in rn by (auto simp: conflicting_winner_def winner_loop_fold Let_def)
  also have "\<dots> \<longleftrightarrow> (\<forall>q \<in> set (rivals policy items). lessPolicy policy q)"
  proof
    assume w: "?w = policy"
    show "\<forall>q \<in> set (rivals policy items). lessPolicy policy q"
    proof
      fix q assume q: "q \<in> set (rivals policy items)"
      then have "\<not> lessPolicy q policy"
        using policies.fold_keep_min [of q policy "rivals policy items"] w by simp
      then show "lessPolicy policy q" using rn [OF q] policies.less_total by blast
    qed
  next
    assume all: "\<forall>q \<in> set (rivals policy items). lessPolicy policy q"
    show "?w = policy"
    proof (rule ccontr)
      assume "?w \<noteq> policy"
      then have "lessPolicy ?w policy" "?w \<in> set (rivals policy items)"
        using policies.fold_keep_le [of "rivals policy items" policy] w_in by auto
      with all show False using policies.less_trans policies.less_irrefl by blast
    qed
  qed
  finally show ?thesis .
qed

end
