(* ===== verification/Reconciler.thy ===== *)
theory Reconciler
  imports Logic Effects Conflict
begin

text \<open>
  \<open>Reconcile\<close> and its helpers (\<open>internal/controller/hotswappolicy_controller.go\<close>), in the
  state monad over the world of \<open>Effects\<close>. The handler is cut where its code has its comments:
  deletion, finalizer, probe validation and target resolution, conflict, pod discovery, the
  decision, the remediation. Each part runs its calls in the order of the source and returns
  early where the source does. Log lines are left out.
\<close>

definition finalizerName :: string where "finalizerName = ''hotswap.io/finalizer''"
definition restartAnnotation :: string where "restartAnnotation = ''hotswap.io/restarted-at''"

definition EventTypeWarning :: string where "EventTypeWarning = ''Warning''"
definition EventTypeNormal :: string where "EventTypeNormal = ''Normal''"

section \<open>Status conditions\<close>

definition newCondition :: "string \<Rightarrow> ConditionStatus \<Rightarrow> string \<Rightarrow> string \<Rightarrow> int64 \<Rightarrow> Condition" where
  "newCondition ty st reason msg gen =
     \<lparr>c_Type = ty, c_Status = st, c_ObservedGeneration = gen,
      c_Reason = reason, c_Message = msg\<rparr>"

definition setHealthy :: "('w, 'p) HotSwapPolicyReconciler \<Rightarrow> HotSwapPolicy \<Rightarrow> HotSwapPolicy" where
  "setHealthy r p =
     (let cs = Conditions (pol_Status p);
          cs = k_SetStatusCondition (r_lib r)
                 (newCondition ConditionHealthy ConditionTrue ReasonAllHealthy ''all targets healthy''
                    (pol_Generation p)) cs;
          cs = k_RemoveStatusCondition (r_lib r) ConditionRemediating cs;
          cs = k_RemoveStatusCondition (r_lib r) ConditionDegraded cs
      in p\<lparr>pol_Status := (pol_Status p)\<lparr>Conditions := cs\<rparr>\<rparr>)"

definition setRemediating :: "('w, 'p) HotSwapPolicyReconciler \<Rightarrow> HotSwapPolicy \<Rightarrow> string \<Rightarrow> HotSwapPolicy" where
  "setRemediating r p msg =
     (let cs = Conditions (pol_Status p);
          cs = k_SetStatusCondition (r_lib r)
                 (newCondition ConditionRemediating ConditionTrue ReasonRemediating msg (pol_Generation p)) cs;
          cs = k_SetStatusCondition (r_lib r)
                 (newCondition ConditionHealthy ConditionFalse ReasonRemediating msg (pol_Generation p)) cs;
          cs = k_RemoveStatusCondition (r_lib r) ConditionDegraded cs
      in p\<lparr>pol_Status := (pol_Status p)\<lparr>Conditions := cs\<rparr>\<rparr>)"

definition setDegraded ::
  "('w, 'p) HotSwapPolicyReconciler \<Rightarrow> HotSwapPolicy \<Rightarrow> string \<Rightarrow> string \<Rightarrow> HotSwapPolicy" where
  "setDegraded r p reason msg =
     (let cs = Conditions (pol_Status p);
          cs = k_SetStatusCondition (r_lib r)
                 (newCondition ConditionDegraded ConditionTrue reason msg (pol_Generation p)) cs;
          cs = k_SetStatusCondition (r_lib r)
                 (newCondition ConditionHealthy ConditionFalse reason msg (pol_Generation p)) cs;
          cs = k_RemoveStatusCondition (r_lib r) ConditionRemediating cs
      in p\<lparr>pol_Status := (pol_Status p)\<lparr>Conditions := cs\<rparr>\<rparr>)"

section \<open>finish\<close>

definition finish ::
  "('w, 'p) HotSwapPolicyReconciler \<Rightarrow> HotSwapPolicy \<Rightarrow> Result \<Rightarrow> ('w, 'p, abort + Result) action" where
  "finish r policy res = do {
     let policy = policy\<lparr>pol_Status := (pol_Status policy)\<lparr>ObservedGeneration := pol_Generation policy\<rparr>\<rparr>;
     e \<leftarrow> StatusUpdateCall r policy;
     State_Monad.return (case e of Some err \<Rightarrow> Inl (Err err) | None \<Rightarrow> Inr res) }"

definition after :: "Duration \<Rightarrow> Result" where
  "after d = emptyResult\<lparr>RequeueAfter := d\<rparr>"

section \<open>Acting on the target\<close>

definition restart_patch :: "gotime \<Rightarrow> string" where
  "restart_patch now =
     [CHR ''{''] @ quote ''spec'' @ '':{'' @ quote ''template'' @ '':{'' @ quote ''metadata'' @ '':{'' @
     quote ''annotations'' @ '':{'' @ quote restartAnnotation @ '':'' @ quote (FormatRFC3339 now) @ ''}}}}}''"

definition rolloutRestart ::
  "('w, 'p) HotSwapPolicyReconciler \<Rightarrow> Deployment \<Rightarrow> gotime \<Rightarrow> ('w, 'p, api_error option) action" where
  "rolloutRestart r dep now = Patch r dep (restart_patch now)"

definition deletePod ::
  "('w, 'p) HotSwapPolicyReconciler \<Rightarrow> string \<Rightarrow> string \<Rightarrow> ('w, 'p, api_error option) action" where
  "deletePod r ns name = Delete r ns name"

text \<open>The \<open>DeletePod\<close> loop, with its counter and the last pod acted on.\<close>

fun delete_loop ::
  "('w, 'p) HotSwapPolicyReconciler \<Rightarrow> string \<Rightarrow> bool \<Rightarrow> int32 \<Rightarrow> PodState list \<Rightarrow> int32 \<Rightarrow> string \<Rightarrow>
   ('w, 'p, abort + string) action" where
  "delete_loop r ns dryRun limit [] acted actedPod = State_Monad.return (Inr actedPod)"
| "delete_loop r ns dryRun limit (s # ss) acted actedPod =
     (if limit \<le>s acted then State_Monad.return (Inr actedPod)
      else if dryRun then delete_loop r ns dryRun limit ss (acted + 1) (PodName s)
      else do {
        e \<leftarrow> deletePod r ns (PodName s);
        (case e of
           None \<Rightarrow> delete_loop r ns dryRun limit ss (acted + 1) (PodName s)
         | Some err \<Rightarrow>
             if IsNotFound err then delete_loop r ns dryRun limit ss acted actedPod
             else State_Monad.return (Inl (Err err))) })"

text \<open>The switch of \<open>remediate\<close>: the pod acted on, an error, or the panic of \<open>unhealthy[0]\<close>.\<close>

definition act ::
  "('w, 'p) HotSwapPolicyReconciler \<Rightarrow> HotSwapPolicy \<Rightarrow> Deployment \<Rightarrow> RemediationStrategy \<Rightarrow>
   PodState list \<Rightarrow> RemediationSpec \<Rightarrow> gotime \<Rightarrow> ('w, 'p, abort + string) action" where
  "act r policy dep strategy unhealthy spec now =
     (if strategy = StrategyRolloutRestart then do {
        e \<leftarrow> (if DryRun spec then State_Monad.return None else rolloutRestart r dep now);
        State_Monad.return
          (case e of
             Some err \<Rightarrow> Inl (Err err)
           | None \<Rightarrow> (case unhealthy of [] \<Rightarrow> Inl Panic | s # _ \<Rightarrow> Inr (PodName s))) }
      else if strategy = StrategyDeletePod then
        (let limit = (if MaxConcurrent spec \<le>s 0 then 1 else MaxConcurrent spec)
         in delete_loop r (pol_Namespace policy) (DryRun spec) limit unhealthy 0 '''')
      else State_Monad.return (Inr ''''))"

definition remediation_reason :: "bool \<Rightarrow> string" where
  "remediation_reason dryRun =
     ''hotswapProbe health regression'' @ (if dryRun then '' (dry-run)'' else '''')"

text \<open>The status \<open>remediate\<close> writes once the switch is done.\<close>

definition record_remediation ::
  "HotSwapPolicy \<Rightarrow> string \<Rightarrow> RemediationStrategy \<Rightarrow> bool \<Rightarrow> gotime \<Rightarrow> HotSwapPolicy" where
  "record_remediation policy actedPod strategy dryRun now =
     policy\<lparr>pol_Status := (pol_Status policy)\<lparr>
        ConsecutiveAttempts := ConsecutiveAttempts (pol_Status policy) + 1,
        LastRemediation := Some \<lparr>rr_PodName = actedPod, rr_Strategy = strategy, rr_Time = now,
                                 rr_Reason = remediation_reason dryRun\<rparr>\<rparr>\<rparr>"

definition remediation_msg :: "string \<Rightarrow> string \<Rightarrow> RemediationStrategy \<Rightarrow> int32 \<Rightarrow> string" where
  "remediation_msg verb actedPod strategy attempts =
     verb @ '' '' @ quote actedPod @ '' via '' @ strategy @ '' (attempt '' @ itoa (sint attempts) @ '')''"

text \<open>What follows the switch: status, counter, conditions, event.\<close>

definition report_remediation ::
  "('w, 'p) HotSwapPolicyReconciler \<Rightarrow> HotSwapPolicy \<Rightarrow> string \<Rightarrow> RemediationStrategy \<Rightarrow> bool \<Rightarrow>
   gotime \<Rightarrow> ('w, 'p, HotSwapPolicy) action" where
  "report_remediation r policy actedPod strategy dryRun now =
     (let policy = record_remediation policy actedPod strategy dryRun now;
          attempts = ConsecutiveAttempts (pol_Status policy)
      in
      if dryRun then do {
        _ \<leftarrow> emit (CounterInc DryRunTotal [pol_Namespace policy, pol_Name policy, strategy]);
        let msg = remediation_msg ''dry-run: would remediate'' actedPod strategy attempts;
        let policy = setRemediating r policy msg;
        _ \<leftarrow> emit (RecorderEvent EventTypeNormal ReasonDryRun msg);
        State_Monad.return policy }
      else do {
        _ \<leftarrow> emit (CounterInc RemediationsTotal [pol_Namespace policy, pol_Name policy, strategy]);
        let msg = remediation_msg ''remediated'' actedPod strategy attempts;
        let policy = setRemediating r policy msg;
        _ \<leftarrow> emit (RecorderEvent EventTypeNormal ReasonRemediating msg);
        State_Monad.return policy })"

definition remediate ::
  "('w, 'p) HotSwapPolicyReconciler \<Rightarrow> HotSwapPolicy \<Rightarrow> Deployment \<Rightarrow> RemediationStrategy \<Rightarrow>
   PodState list \<Rightarrow> RemediationSpec \<Rightarrow> gotime \<Rightarrow> ('w, 'p, abort + HotSwapPolicy) action" where
  "remediate r policy dep strategy unhealthy spec now = do {
     done \<leftarrow> act r policy dep strategy unhealthy spec now;
     (case done of
        Inl a \<Rightarrow> State_Monad.return (Inl a)
      | Inr actedPod \<Rightarrow> do {
          policy \<leftarrow> report_remediation r policy actedPod strategy (DryRun spec) now;
          State_Monad.return (Inr policy) }) }"

section \<open>Reading the target\<close>

fun ready_condition :: "PodCondition list \<Rightarrow> bool" where
  "ready_condition [] = False"
| "ready_condition (c # cs) =
     (if pc_Type c = PodReady then pc_Status c = ConditionTrue else ready_condition cs)"

definition isPodReady :: "Pod \<Rightarrow> bool" where
  "isPodReady p = ready_condition (pod_Conditions p)"

definition target_health :: "PodState \<Rightarrow> TargetHealth" where
  "target_health s =
     \<lparr>th_PodName = PodName s, th_PodIP = PodIP s, th_Healthy = Healthy s,
      th_ConsecutiveFailures = ConsecutiveFailures s,
      th_LastProbeTime = (if IsZero (LastProbe s) then None else Some (LastProbe s)),
      th_LastTransitionTime = (if IsZero (LastTransition s) then None else Some (LastTransition s))\<rparr>"

definition toTargetHealth :: "PodState list \<Rightarrow> TargetHealth list" where
  "toTargetHealth snapshot = map target_health snapshot"

definition pod_target :: "Pod \<Rightarrow> PodTarget" where
  "pod_target p = \<lparr>t_Name = pod_Name p, t_UID = pod_UID p, t_IP = pod_PodIP p\<rparr>"

text \<open>Terminating pods are not probed and not remediated.\<close>

definition probe_targets :: "Pod list \<Rightarrow> PodTarget list" where
  "probe_targets pods = map pod_target (filter (\<lambda>p. IsZeroPtr (pod_DeletionTimestamp p)) pods)"

fun mark_ready ::
  "('w, 'p) HotSwapPolicyReconciler \<Rightarrow> NamespacedName \<Rightarrow> Pod list \<Rightarrow> ('w, 'p, unit) action" where
  "mark_ready r nn [] = State_Monad.return ()"
| "mark_ready r nn (p # ps) =
     (if isPodReady p
      then do { _ \<leftarrow> on_prober (ps_SetSeenReady (r_Prober r) nn (pod_UID p)); mark_ready r nn ps }
      else mark_ready r nn ps)"

text \<open>The pods to remediate: failing, and seen Ready at least once.\<close>

definition unhealthy_of :: "PodState list \<Rightarrow> PodState list" where
  "unhealthy_of snapshot = filter (\<lambda>s. \<not> Healthy s \<and> SeenReady s) snapshot"

definition healthy_count :: "PodState list \<Rightarrow> nat" where
  "healthy_count snapshot = length (filter Healthy snapshot)"

definition systemic_msg :: "PodState list \<Rightarrow> PodState list \<Rightarrow> string" where
  "systemic_msg unhealthy snapshot =
     itoa (int (length unhealthy)) @ ''/'' @ itoa (int (length snapshot)) @
     '' targets unhealthy at once; skipping remediation''"

definition breaker_msg :: "int32 \<Rightarrow> string" where
  "breaker_msg attempts =
     ''circuit breaker open after '' @ itoa (sint attempts) @ '' consecutive remediations''"

section \<open>The decision\<close>

text \<open>From the stall test to the end of \<open>Reconcile\<close>, for a snapshot and a time.\<close>

definition decide ::
  "('w, 'p) HotSwapPolicyReconciler \<Rightarrow> NamespacedName \<Rightarrow> HotSwapPolicy \<Rightarrow> ProbeConfig \<Rightarrow>
   Deployment \<Rightarrow> PodState list \<Rightarrow> gotime \<Rightarrow> ('w, 'p, abort + Result) action" where
  "decide r nn policy cfg dep snapshot now =
     (let unhealthy = unhealthy_of snapshot in
      if progressDeadlineExceeded dep then
        finish r (setDegraded r policy ReasonRolloutStalled ''target rollout exceeded its progress deadline'')
          (after (Period cfg))
      else if unhealthy = [] then do {
        let policy = policy\<lparr>pol_Status := (pol_Status policy)\<lparr>ConsecutiveAttempts := 0\<rparr>\<rparr>;
        _ \<leftarrow> emit (GaugeSet CircuitOpen [nn_Namespace nn, nn_Name nn] 0);
        finish r (setHealthy r policy) (after (Period cfg)) }
      else
        let spec = Remediation (pol_Spec policy) in
        if isSystemic (len unhealthy) (len snapshot) (SystemicFailureSkipPercent spec) then do {
          let msg = systemic_msg unhealthy snapshot;
          _ \<leftarrow> emit (RecorderEvent EventTypeWarning ReasonSystemicFailure msg);
          finish r (setDegraded r policy ReasonSystemicFailure msg) (after (Period cfg)) }
        else
        let requireStable = (RequireStable spec = None \<or> RequireStable spec = Some True) in
        if requireStable \<and> \<not> deploymentStable dep then
          finish r (setRemediating r policy ''waiting for target Deployment to stabilize'')
            (after (Period cfg))
        else
        let cooldown = int64_of (CooldownSeconds spec) * Second;
            maxAttempts = (if MaxConsecutiveAttempts spec \<le>s 0 then 3 else MaxConsecutiveAttempts spec);
            attempts = ConsecutiveAttempts (pol_Status policy);
            lastRem = LastRemediation (pol_Status policy)
        in
        if breakerOpen attempts maxAttempts lastRem cooldown now then do {
          let msg = breaker_msg attempts;
          _ \<leftarrow> emit (GaugeSet CircuitOpen [nn_Namespace nn, nn_Name nn] 1);
          _ \<leftarrow> emit (RecorderEvent EventTypeWarning ReasonCircuitOpen msg);
          finish r (setDegraded r policy ReasonCircuitOpen msg) (after cooldown) }
        else if cooldownActive lastRem cooldown now then
          finish r (setRemediating r policy ''cooling down before next remediation'') (after cooldown)
        else do {
          let strategy = chooseStrategy (Strategy spec) (effectiveReplicas dep);
          done \<leftarrow> remediate r policy dep strategy unhealthy spec now;
          (case done of
             Inl a \<Rightarrow> State_Monad.return (Inl a)
           | Inr policy \<Rightarrow> finish r policy (after (Period cfg))) })"

section \<open>Reconcile\<close>

text \<open>Pod discovery: synchronise the prober with the listed pods and take the snapshot.\<close>

definition observe ::
  "('w, 'p) HotSwapPolicyReconciler \<Rightarrow> NamespacedName \<Rightarrow> ProbeConfig \<Rightarrow> Pod list \<Rightarrow>
   ('w, 'p, PodState list) action" where
  "observe r nn cfg pods = do {
     _ \<leftarrow> on_prober (ps_Sync (r_Prober r) nn cfg (probe_targets pods));
     _ \<leftarrow> mark_ready r nn pods;
     read_prober (ps_Snapshot (r_Prober r) nn) }"

definition reconcilePods ::
  "('w, 'p) HotSwapPolicyReconciler \<Rightarrow> NamespacedName \<Rightarrow> HotSwapPolicy \<Rightarrow> ProbeConfig \<Rightarrow>
   Deployment \<Rightarrow> ('w, 'p, abort + Result) action" where
  "reconcilePods r nn policy cfg dep =
     (case k_LabelSelectorAsSelector (r_lib r) (dep_Selector dep) of
        Inl err \<Rightarrow>
          finish r (setDegraded r policy ReasonTargetNotFound (''invalid selector: '' @ err)) emptyResult
      | Inr sel \<Rightarrow> do {
          listed \<leftarrow> ask (cl_ListPods (r_Client r) (nn_Namespace nn) sel);
          (case listed of
             Inl err \<Rightarrow> State_Monad.return (Inl (Err err))
           | Inr pods \<Rightarrow> do {
               snapshot \<leftarrow> observe r nn cfg pods;
               let policy = policy\<lparr>pol_Status := (pol_Status policy)\<lparr>Targets := toTargetHealth snapshot\<rparr>\<rparr>;
               _ \<leftarrow> emit (GaugeSet TargetsTotal [nn_Namespace nn, nn_Name nn] (int (length snapshot)));
               _ \<leftarrow> emit (GaugeSet TargetsHealthy [nn_Namespace nn, nn_Name nn]
                        (int (healthy_count snapshot)));
               now \<leftarrow> ask (r_Now r);
               decide r nn policy cfg dep snapshot now }) })"

definition conflictingPolicy ::
  "('w, 'p) HotSwapPolicyReconciler \<Rightarrow> HotSwapPolicy \<Rightarrow> ('w, 'p, api_error + string) action" where
  "conflictingPolicy r policy = do {
     listed \<leftarrow> ask (cl_ListPolicies (r_Client r) (pol_Namespace policy));
     State_Monad.return
       (case listed of Inl err \<Rightarrow> Inl err | Inr items \<Rightarrow> Inr (conflicting_winner policy items)) }"

definition reconcileTarget ::
  "('w, 'p) HotSwapPolicyReconciler \<Rightarrow> NamespacedName \<Rightarrow> HotSwapPolicy \<Rightarrow> ProbeConfig \<Rightarrow>
   ('w, 'p, abort + Result) action" where
  "reconcileTarget r nn policy cfg = do {
     let depName = tr_Name (TargetRef (pol_Spec policy));
     got \<leftarrow> ask (cl_GetDeployment (r_Client r) \<lparr>nn_Namespace = nn_Namespace nn, nn_Name = depName\<rparr>);
     (case got of
        Inl err \<Rightarrow>
          if IsNotFound err then do {
            _ \<leftarrow> on_prober (ps_Forget (r_Prober r) nn);
            finish r (setDegraded r policy ReasonTargetNotFound
                        (''deployment '' @ quote depName @ '' not found''))
              (after (30 * Second)) }
          else State_Monad.return (Inl (Err err))
      | Inr dep \<Rightarrow> do {
          conflict \<leftarrow> conflictingPolicy r policy;
          (case conflict of
             Inl err \<Rightarrow> State_Monad.return (Inl (Err err))
           | Inr winner \<Rightarrow>
               if winner \<noteq> '''' then do {
                 _ \<leftarrow> on_prober (ps_Forget (r_Prober r) nn);
                 finish r (setDegraded r policy ReasonConflictingPolic
                             (''deployment '' @ quote depName @ '' already guarded by HotSwapPolicy '' @
                              quote winner))
                   (after Minute) }
               else reconcilePods r nn policy cfg dep) }) }"

definition reconcileDeletion ::
  "('w, 'p) HotSwapPolicyReconciler \<Rightarrow> NamespacedName \<Rightarrow> HotSwapPolicy \<Rightarrow> ('w, 'p, abort + Result) action" where
  "reconcileDeletion r nn policy =
     (if k_ContainsFinalizer (r_lib r) (pol_Finalizers policy) finalizerName then do {
        _ \<leftarrow> on_prober (ps_Forget (r_Prober r) nn);
        let policy = policy\<lparr>pol_Finalizers := k_RemoveFinalizer (r_lib r) (pol_Finalizers policy) finalizerName\<rparr>;
        e \<leftarrow> Update r policy;
        State_Monad.return (case e of Some err \<Rightarrow> Inl (Err err) | None \<Rightarrow> Inr emptyResult) }
      else State_Monad.return (Inr emptyResult))"

definition reconcileFinalizer ::
  "('w, 'p) HotSwapPolicyReconciler \<Rightarrow> HotSwapPolicy \<Rightarrow> ('w, 'p, abort + Result) action" where
  "reconcileFinalizer r policy = do {
     let policy = policy\<lparr>pol_Finalizers := k_AddFinalizer (r_lib r) (pol_Finalizers policy) finalizerName\<rparr>;
     e \<leftarrow> Update r policy;
     State_Monad.return
       (case e of Some err \<Rightarrow> Inl (Err err) | None \<Rightarrow> Inr (emptyResult\<lparr>Requeue := True\<rparr>)) }"

definition Reconcile ::
  "('w, 'p) HotSwapPolicyReconciler \<Rightarrow> NamespacedName \<Rightarrow> ('w, 'p, abort + Result) action" where
  "Reconcile r nn = do {
     got \<leftarrow> ask (cl_GetPolicy (r_Client r) nn);
     (case got of
        Inl err \<Rightarrow>
          State_Monad.return (if IsNotFound err then Inr emptyResult else Inl (Err err))
      | Inr policy \<Rightarrow>
          if \<not> IsZeroPtr (pol_DeletionTimestamp policy) then reconcileDeletion r nn policy
          else if \<not> k_ContainsFinalizer (r_lib r) (pol_Finalizers policy) finalizerName then
            reconcileFinalizer r policy
          else
            (case normalizeProbe (HotswapProbe (pol_Spec policy)) of
               Inl err \<Rightarrow> finish r (setDegraded r policy ReasonInvalidProbe err) emptyResult
             | Inr cfg \<Rightarrow> reconcileTarget r nn policy cfg)) }"

end
