(* ===== verification/Yields.thy ===== *)
theory Yields
  imports Effects
begin

text \<open>
  A calculus for effectful code. \<open>yields I m Q\<close>: from any state whose prober satisfies the
  invariant \<open>I\<close>, running \<open>m\<close> keeps \<open>I\<close>, only appends to the trace, and its result together
  with the effects it appended satisfies \<open>Q\<close>. The rules go through the code backwards; a
  called function with a proved \<open>yields\<close> is used through \<open>yields_mono\<close>.
\<close>

definition yields ::
  "('p \<Rightarrow> bool) \<Rightarrow> ('w, 'p, 'a) action \<Rightarrow> ('a \<Rightarrow> effect list \<Rightarrow> bool) \<Rightarrow> bool" where
  "yields I m Q \<longleftrightarrow>
     (\<forall>s. I (prober s) \<longrightarrow>
        (case run_state m s of (x, s') \<Rightarrow>
           I (prober s') \<and> (\<exists>es. trace s' = trace s @ es \<and> Q x es)))"

lemma yieldsI:
  assumes "\<And>s x s'. I (prober s) \<Longrightarrow> run_state m s = (x, s') \<Longrightarrow>
    I (prober s') \<and> (\<exists>es. trace s' = trace s @ es \<and> Q x es)"
  shows "yields I m Q"
  using assms unfolding yields_def by (auto split: prod.split)

lemma yieldsD:
  assumes "yields I m Q" and "I (prober s)" and "run_state m s = (x, s')"
  obtains es where "I (prober s')" and "trace s' = trace s @ es" and "Q x es"
  using assms unfolding yields_def by fastforce

lemma yields_run:
  assumes "yields I m Q" and "I (prober s)" and "run_state m s = (x, s')" and "trace s' = trace s @ es"
  shows "Q x es"
  using yieldsD [OF assms(1-3)] assms(4) by (metis same_append_eq)

lemma yields_return [emits_intros]: "Q x [] \<Longrightarrow> yields I (State_Monad.return x) Q"
  by (rule yieldsI) auto

lemma yields_bind [emits_intros]:
  assumes "yields I m (\<lambda>x es. yields I (f x) (\<lambda>y es'. Q y (es @ es')))"
  shows "yields I (State_Monad.bind m f) Q"
proof (rule yieldsI)
  fix s y s'
  assume I: "I (prober s)" and run: "run_state (State_Monad.bind m f) s = (y, s')"
  obtain x s1 where m: "run_state m s = (x, s1)" by fastforce
  with run have f: "run_state (f x) s1 = (y, s')" by simp
  obtain es where 1: "I (prober s1)" "trace s1 = trace s @ es"
    and rest: "yields I (f x) (\<lambda>y es'. Q y (es @ es'))"
    by (rule yieldsD [OF assms I m])
  obtain es' where "I (prober s')" "trace s' = trace s1 @ es'" "Q y (es @ es')"
    by (rule yieldsD [OF rest 1(1) f])
  then show "I (prober s') \<and> (\<exists>es. trace s' = trace s @ es \<and> Q y es)"
    using 1 by auto
qed

lemma yields_mono:
  assumes "yields I m Q" and "\<And>x es. Q x es \<Longrightarrow> R x es"
  shows "yields I m R"
  using assms unfolding yields_def by (fastforce split: prod.splits)

lemma yields_seq:
  assumes "yields I m Q1" and "\<And>x es. Q1 x es \<Longrightarrow> yields I (f x) (Q2 x)"
  shows "yields I (State_Monad.bind m f)
    (\<lambda>y es. \<exists>x es1 es2. es = es1 @ es2 \<and> Q1 x es1 \<and> Q2 x y es2)"
proof (rule yields_bind, rule yields_mono [OF assms(1)])
  fix x es assume q: "Q1 x es"
  show "yields I (f x) (\<lambda>y es'. \<exists>x es1 es2. es @ es' = es1 @ es2 \<and> Q1 x es1 \<and> Q2 x y es2)"
    by (rule yields_mono [OF assms(2) [OF q]]) (use q in blast)
qed

lemma yields_ask [emits_intros]: "(\<And>w. Q (fst (f w)) []) \<Longrightarrow> yields I (ask f) Q"
  by (rule yieldsI) (auto simp: ask_def split: prod.splits, metis fst_conv)

lemma yields_emit [emits_intros]: "Q () [e] \<Longrightarrow> yields I (emit e) Q"
  by (rule yieldsI) (auto simp: emit_def)

lemma yields_on_prober [emits_intros]:
  "(\<And>p. I p \<Longrightarrow> I (f p)) \<Longrightarrow> Q () [] \<Longrightarrow> yields I (on_prober f) Q"
  by (rule yieldsI) (auto simp: on_prober_def)

lemma yields_read_prober [emits_intros]:
  "(\<And>p. I p \<Longrightarrow> I (snd (f p)) \<and> Q (fst (f p)) []) \<Longrightarrow> yields I (read_prober f) Q"
proof (rule yieldsI)
  fix s x s'
  assume a: "\<And>p. I p \<Longrightarrow> I (snd (f p)) \<and> Q (fst (f p)) []" "I (prober s)"
    "run_state (read_prober f) s = (x, s')"
  then show "I (prober s') \<and> (\<exists>es. trace s' = trace s @ es \<and> Q x es)"
    by (cases "f (prober s)") (use a(1) [OF a(2)] in \<open>auto simp: read_prober_def\<close>)
qed

lemma yields_if [emits_intros]:
  "(b \<Longrightarrow> yields I m Q) \<Longrightarrow> (\<not> b \<Longrightarrow> yields I n Q) \<Longrightarrow> yields I (if b then m else n) Q"
  by simp

lemma yields_case_sum [emits_intros]:
  "(\<And>a. x = Inl a \<Longrightarrow> yields I (f a) Q) \<Longrightarrow> (\<And>b. x = Inr b \<Longrightarrow> yields I (g b) Q) \<Longrightarrow>
     yields I (case x of Inl a \<Rightarrow> f a | Inr b \<Rightarrow> g b) Q"
  by (simp split: sum.split)

lemma yields_case_option [emits_intros]:
  "(x = None \<Longrightarrow> yields I m Q) \<Longrightarrow> (\<And>a. x = Some a \<Longrightarrow> yields I (g a) Q) \<Longrightarrow>
     yields I (case x of None \<Rightarrow> m | Some a \<Rightarrow> g a) Q"
  by (simp split: option.split)

text \<open>The client's writes leave one effect each.\<close>

lemma yields_Update [emits_intros]:
  "(\<And>e. Q e [PolicyUpdate policy e]) \<Longrightarrow> yields I (Update r policy) Q"
  unfolding Update_def by (intro emits_intros) simp

lemma yields_StatusUpdateCall [emits_intros]:
  "(\<And>e. Q e [StatusUpdate policy e]) \<Longrightarrow> yields I (StatusUpdateCall r policy) Q"
  unfolding StatusUpdateCall_def by (intro emits_intros) simp

lemma yields_Patch [emits_intros]:
  "(\<And>e. Q e [DeploymentPatch (dep_Namespace dep) (dep_Name dep) patch e]) \<Longrightarrow> yields I (Patch r dep patch) Q"
  unfolding Patch_def by (intro emits_intros) simp

lemma yields_Delete [emits_intros]:
  "(\<And>e. Q e [PodDelete ns name e]) \<Longrightarrow> yields I (Delete r ns name) Q"
  unfolding Delete_def by (intro emits_intros) simp

section \<open>From a known state of the prober\<close>

text \<open>
  \<open>yields_from p0 I m Q\<close>: the same from a state whose prober is exactly \<open>p0\<close>. Questions to the
  world leave the prober as it is, so that what is read of it later is read of \<open>p0\<close>.
\<close>

definition yields_from ::
  "'p \<Rightarrow> ('p \<Rightarrow> bool) \<Rightarrow> ('w, 'p, 'a) action \<Rightarrow> ('a \<Rightarrow> effect list \<Rightarrow> bool) \<Rightarrow> bool" where
  "yields_from p0 I m Q \<longleftrightarrow>
     (\<forall>s. prober s = p0 \<longrightarrow>
        (case run_state m s of (x, s') \<Rightarrow>
           I (prober s') \<and> (\<exists>es. trace s' = trace s @ es \<and> Q x es)))"

named_theorems from_intros \<open>introduction rules of yields_from\<close>

lemma yields_fromI:
  assumes "\<And>s x s'. prober s = p0 \<Longrightarrow> run_state m s = (x, s') \<Longrightarrow>
    I (prober s') \<and> (\<exists>es. trace s' = trace s @ es \<and> Q x es)"
  shows "yields_from p0 I m Q"
  using assms unfolding yields_from_def by (auto split: prod.split)

lemma yields_from_run:
  assumes "yields_from p0 I m Q" and "prober s = p0" and "run_state m s = (x, s')"
    and "trace s' = trace s @ es"
  shows "I (prober s')" and "Q x es"
  using assms unfolding yields_from_def by (fastforce split: prod.splits)+

lemma yields_fromD:
  assumes "yields_from p0 I m Q" and "prober s = p0" and "run_state m s = (x, s')"
  obtains es where "I (prober s')" and "trace s' = trace s @ es" and "Q x es"
  using assms unfolding yields_from_def by fastforce

lemma from_yields: "yields I m Q \<Longrightarrow> I p0 \<Longrightarrow> yields_from p0 I m Q"
  by (rule yields_fromI) (erule yieldsD, auto)

lemma yields_from_ask [from_intros]:
  assumes "\<And>w. yields_from p0 I (g (fst (f w))) Q"
  shows "yields_from p0 I (State_Monad.bind (ask f) g) Q"
proof (rule yields_fromI)
  fix s x s'
  assume p: "prober s = p0" and run: "run_state (State_Monad.bind (ask f) g) s = (x, s')"
  obtain a w where f: "f (world s) = (a, w)" by fastforce
  with run have "run_state (g (fst (f (world s)))) (s\<lparr>world := w\<rparr>) = (x, s')" by (simp add: ask_def)
  from yields_fromD [OF assms [of "world s"] _ this] p
  show "I (prober s') \<and> (\<exists>es. trace s' = trace s @ es \<and> Q x es)" by auto
qed

lemma yields_from_if [from_intros]:
  "(b \<Longrightarrow> yields_from p0 I m Q) \<Longrightarrow> (\<not> b \<Longrightarrow> yields_from p0 I n Q) \<Longrightarrow> yields_from p0 I (if b then m else n) Q"
  by simp

lemma yields_from_case_sum [from_intros]:
  "(\<And>a. x = Inl a \<Longrightarrow> yields_from p0 I (f a) Q) \<Longrightarrow> (\<And>b. x = Inr b \<Longrightarrow> yields_from p0 I (g b) Q) \<Longrightarrow>
     yields_from p0 I (case x of Inl a \<Rightarrow> f a | Inr b \<Rightarrow> g b) Q"
  by (simp split: sum.split)

end
