(* ===== verification/Remediation.thy ===== *)
theory Remediation
  imports Reconciler Yields
begin

text \<open>
  What a remediation does to the cluster: which pods it deletes and how many, when it patches
  the Deployment, what it leaves in the status, and that it cannot panic when it is called
  with a pod to remediate.
\<close>

section \<open>Effects on the cluster\<close>

fun is_mutation :: "effect \<Rightarrow> bool" where
  "is_mutation (DeploymentPatch _ _ _ _) = True"
| "is_mutation (PodDelete _ _ _) = True"
| "is_mutation _ = False"

fun is_deleted :: "effect \<Rightarrow> bool" where
  "is_deleted (PodDelete _ _ None) = True"
| "is_deleted _ = False"

definition deleted_count :: "effect list \<Rightarrow> nat" where
  "deleted_count es = length (filter is_deleted es)"

lemma deleted_count_simps [simp]:
  "deleted_count [] = 0"
  "deleted_count (e # es) = (if is_deleted e then Suc (deleted_count es) else deleted_count es)"
  "deleted_count (es @ es') = deleted_count es + deleted_count es'"
  by (simp_all add: deleted_count_def)

lemma deleted_count_quiet: "\<forall>e \<in> set es. \<not> is_mutation e \<Longrightarrow> deleted_count es = 0"
proof (induction es)
  case (Cons e es)
  then show ?case by (cases e) auto
qed simp

lemma yields_finish [emits_intros]:
  "(\<And>e. Q (case e of Some err \<Rightarrow> Inl (Err err) | None \<Rightarrow> Inr res)
      [StatusUpdate (policy\<lparr>pol_Status := (pol_Status policy)\<lparr>ObservedGeneration := pol_Generation policy\<rparr>\<rparr>) e])
    \<Longrightarrow> yields I (finish r policy res) Q"
  unfolding finish_def Let_def by (intro emits_intros) simp

section \<open>The deletion loop\<close>

text \<open>
  The effects of the loop: deletions of pods of the list, none in a dry run, at most as many
  successful ones as the limit leaves; never a panic.
\<close>

definition loop_effects ::
  "string \<Rightarrow> bool \<Rightarrow> int \<Rightarrow> PodState list \<Rightarrow> (abort + string) \<Rightarrow> effect list \<Rightarrow> bool" where
  "loop_effects ns dryRun room ss x es \<longleftrightarrow>
     (\<forall>e \<in> set es. \<exists>s \<in> set ss. \<exists>q. e = PodDelete ns (PodName s) q) \<and>
     (dryRun \<longrightarrow> es = [] \<and> (\<exists>name. x = Inr name)) \<and>
     int (deleted_count es) \<le> room \<and>
     x \<noteq> Inl Panic"

lemma sint_Suc_less:
  "\<not> limit \<le>s acted \<Longrightarrow> sint (acted + 1) = sint (acted :: int32) + 1 \<and> sint (acted + 1) \<le> sint limit"
  using sint32_range(2) [of limit] by (simp add: go_cmp sint_Suc32)

lemma delete_loop_yields:
  "sint acted \<le> sint limit \<Longrightarrow>
   yields I (delete_loop r ns dryRun limit ss acted actedPod)
     (loop_effects ns dryRun (sint limit - sint acted) ss)"
proof (induction ss arbitrary: acted actedPod)
  case Nil
  then show ?case by (auto simp: loop_effects_def intro!: emits_intros)
next
  case (Cons s ss)
  show ?case
  proof (cases "limit \<le>s acted")
    case True
    then show ?thesis using Cons.prems by (auto simp: loop_effects_def intro!: emits_intros)
  next
    case False
    note next1 = sint_Suc_less [OF False]
    have step: "yields I (delete_loop r ns dryRun limit ss (acted + 1) ap)
        (loop_effects ns dryRun (sint limit - (sint acted + 1)) ss)" for ap
      using Cons.IH [of "acted + 1" ap] next1 by simp
    have skip: "yields I (delete_loop r ns dryRun limit ss acted actedPod)
        (loop_effects ns dryRun (sint limit - sint acted) ss)"
      by (rule Cons.IH) (rule Cons.prems)
    show ?thesis
    proof (cases dryRun)
      case True
      have "yields I (delete_loop r ns dryRun limit ss (acted + 1) (PodName s))
          (loop_effects ns dryRun (sint limit - sint acted) (s # ss))"
        by (rule yields_mono [OF step]) (auto simp: loop_effects_def)
      then show ?thesis using False True by simp
    next
      case live: False
      have "yields I (delete_loop r ns dryRun limit ss (acted + 1) ap)
          (\<lambda>x es. loop_effects ns dryRun (sint limit - sint acted) (s # ss) x
             (PodDelete ns (PodName s) None # es))" for ap
        by (rule yields_mono [OF step]) (use live in \<open>auto simp: loop_effects_def\<close>)
      moreover have "yields I (delete_loop r ns dryRun limit ss acted actedPod)
          (\<lambda>x es. loop_effects ns dryRun (sint limit - sint acted) (s # ss) x
             (PodDelete ns (PodName s) (Some err) # es))" for err
        by (rule yields_mono [OF skip]) (use live in \<open>auto simp: loop_effects_def\<close>)
      moreover have "loop_effects ns dryRun (sint limit - sint acted) (s # ss) (Inl (Err err))
             [PodDelete ns (PodName s) (Some err)]" for err
        using live Cons.prems by (simp add: loop_effects_def)
      ultimately show ?thesis
        using False live by (auto simp: deletePod_def intro!: emits_intros)
    qed
  qed
qed

section \<open>remediate\<close>

definition effective_limit :: "RemediationSpec \<Rightarrow> int" where
  "effective_limit spec = (if sint (MaxConcurrent spec) \<le> 0 then 1 else sint (MaxConcurrent spec))"

text \<open>
  The effects of a remediation that reach the cluster: one patch of the Deployment, or
  deletions of pods of the list, at most \<open>maxConcurrent\<close> of them successful; none in a dry run.
\<close>

definition act_effects ::
  "HotSwapPolicy \<Rightarrow> Deployment \<Rightarrow> RemediationStrategy \<Rightarrow> PodState list \<Rightarrow> RemediationSpec \<Rightarrow> gotime \<Rightarrow>
   effect list \<Rightarrow> bool" where
  "act_effects policy dep strategy unhealthy spec now es \<longleftrightarrow>
     (if DryRun spec then es = []
      else if strategy = StrategyRolloutRestart then
        (\<exists>q. es = [DeploymentPatch (dep_Namespace dep) (dep_Name dep) (restart_patch now) q])
      else
        (\<forall>e \<in> set es. \<exists>s \<in> set unhealthy. \<exists>q. e = PodDelete (pol_Namespace policy) (PodName s) q) \<and>
        int (deleted_count es) \<le> effective_limit spec)"

lemma act_yields:
  assumes "unhealthy \<noteq> []"
  shows "yields I (act r policy dep strategy unhealthy spec now)
    (\<lambda>x es. act_effects policy dep strategy unhealthy spec now es \<and> x \<noteq> Inl Panic \<and>
            (DryRun spec \<longrightarrow> (\<exists>name. x = Inr name)))"
proof -
  obtain s ss where u: "unhealthy = s # ss" using assms by (cases unhealthy) auto
  define limit where "limit = (if MaxConcurrent spec \<le>s 0 then 1 else MaxConcurrent spec)"
  have limit: "sint limit = effective_limit spec" "0 \<le> sint limit"
    by (simp_all add: limit_def effective_limit_def go_cmp)
  have loop: "yields I (delete_loop r (pol_Namespace policy) (DryRun spec) limit unhealthy 0 '''')
      (loop_effects (pol_Namespace policy) (DryRun spec) (effective_limit spec) unhealthy)"
    using delete_loop_yields [of 0 limit] limit by simp
  show ?thesis
  proof (cases "strategy = StrategyRolloutRestart")
    case True
    then show ?thesis
      by (auto simp: act_def u rolloutRestart_def act_effects_def intro!: emits_intros
            split: option.split option.split_asm)
  next
    case restart: False
    show ?thesis
    proof (cases "strategy = StrategyDeletePod")
      case True
      have "act r policy dep strategy unhealthy spec now =
          delete_loop r (pol_Namespace policy) (DryRun spec) limit unhealthy 0 ''''"
        using True by (simp add: act_def limit_def Let_def)
      then show ?thesis
        using restart by (auto simp: loop_effects_def act_effects_def intro: yields_mono [OF loop])
    next
      case False
      then show ?thesis using restart limit
        by (auto simp: act_def act_effects_def intro!: emits_intros)
    qed
  qed
qed

end
