(* ===== verification/Decision.thy ===== *)
theory Decision
  imports Remediation
begin

text \<open>
  The abstract decision: what \<open>Reconcile\<close> should do about a snapshot, over exact integers,
  percentages and nanoseconds. \<open>decide\<close>, on machine words and through its chain of early
  returns, is proved to carry out exactly this verdict.
\<close>

datatype verdict =
    Stalled
  | AllHealthy
  | Systemic
  | Unstable
  | BreakerOpen
  | CoolingDown
  | Remediate RemediationStrategy

definition cooldown_ns :: "RemediationSpec \<Rightarrow> int" where
  "cooldown_ns spec = sint (CooldownSeconds spec) * 1000000000"

definition max_attempts :: "RemediationSpec \<Rightarrow> int" where
  "max_attempts spec =
     (if sint (MaxConsecutiveAttempts spec) \<le> 0 then 3 else sint (MaxConsecutiveAttempts spec))"

text \<open>Less than the cooldown has passed since the last remediation.\<close>

definition within_cooldown :: "RemediationSpec \<Rightarrow> HotSwapPolicyStatus \<Rightarrow> gotime \<Rightarrow> bool" where
  "within_cooldown spec st now \<longleftrightarrow>
     (\<exists>l. LastRemediation st = Some l \<and> now - rr_Time l < cooldown_ns spec)"

definition systemic :: "RemediationSpec \<Rightarrow> PodState list \<Rightarrow> bool" where
  "systemic spec snapshot \<longleftrightarrow>
     2 \<le> length snapshot \<and> unhealthy_of snapshot \<noteq> [] \<and> 0 < sint (SystemicFailureSkipPercent spec) \<and>
     sint (SystemicFailureSkipPercent spec) * int (length snapshot)
       \<le> int (length (unhealthy_of snapshot)) * 100"

definition verdict_of :: "HotSwapPolicy \<Rightarrow> Deployment \<Rightarrow> PodState list \<Rightarrow> gotime \<Rightarrow> verdict" where
  "verdict_of policy dep snapshot now =
     (let spec = Remediation (pol_Spec policy); st = pol_Status policy in
      if progressDeadlineExceeded dep then Stalled
      else if unhealthy_of snapshot = [] then AllHealthy
      else if systemic spec snapshot then Systemic
      else if RequireStable spec \<noteq> Some False \<and> \<not> deploymentStable dep then Unstable
      else if within_cooldown spec st now \<and> max_attempts spec \<le> sint (ConsecutiveAttempts st) then BreakerOpen
      else if within_cooldown spec st now \<and> 0 < cooldown_ns spec then CoolingDown
      else Remediate (chooseStrategy (Strategy spec) (effectiveReplicas dep)))"

text \<open>Carrying a verdict out: the status, the events and the gauges of each branch.\<close>

definition perform ::
  "('w, 'p) HotSwapPolicyReconciler \<Rightarrow> NamespacedName \<Rightarrow> HotSwapPolicy \<Rightarrow> ProbeConfig \<Rightarrow>
   Deployment \<Rightarrow> PodState list \<Rightarrow> gotime \<Rightarrow> verdict \<Rightarrow> ('w, 'p, abort + Result) action" where
  "perform r nn policy cfg dep snapshot now v =
     (let spec = Remediation (pol_Spec policy);
          labels = [nn_Namespace nn, nn_Name nn];
          cooldown = int64_of (CooldownSeconds spec) * Second
      in
      case v of
        Stalled \<Rightarrow>
          finish r (setDegraded r policy ReasonRolloutStalled
                      ''target rollout exceeded its progress deadline'') (after (Period cfg))
      | AllHealthy \<Rightarrow> do {
          _ \<leftarrow> emit (GaugeSet CircuitOpen labels 0);
          finish r (setHealthy r (policy\<lparr>pol_Status := (pol_Status policy)\<lparr>ConsecutiveAttempts := 0\<rparr>\<rparr>))
            (after (Period cfg)) }
      | Systemic \<Rightarrow> do {
          let msg = systemic_msg (unhealthy_of snapshot) snapshot;
          _ \<leftarrow> emit (RecorderEvent EventTypeWarning ReasonSystemicFailure msg);
          finish r (setDegraded r policy ReasonSystemicFailure msg) (after (Period cfg)) }
      | Unstable \<Rightarrow>
          finish r (setRemediating r policy ''waiting for target Deployment to stabilize'')
            (after (Period cfg))
      | BreakerOpen \<Rightarrow> do {
          let msg = breaker_msg (ConsecutiveAttempts (pol_Status policy));
          _ \<leftarrow> emit (GaugeSet CircuitOpen labels 1);
          _ \<leftarrow> emit (RecorderEvent EventTypeWarning ReasonCircuitOpen msg);
          finish r (setDegraded r policy ReasonCircuitOpen msg) (after cooldown) }
      | CoolingDown \<Rightarrow>
          finish r (setRemediating r policy ''cooling down before next remediation'') (after cooldown)
      | Remediate strategy \<Rightarrow> do {
          done \<leftarrow> remediate r policy dep strategy (unhealthy_of snapshot) spec now;
          (case done of
             Inl a \<Rightarrow> State_Monad.return (Inl a)
           | Inr policy \<Rightarrow> finish r policy (after (Period cfg))) })"

section \<open>Words against exact arithmetic\<close>

lemma length_unhealthy_of: "length (unhealthy_of snapshot) \<le> length snapshot"
  by (simp add: unhealthy_of_def)

lemma isSystemic_systemic:
  assumes "length snapshot < 2 ^ 31"
  shows "isSystemic (len (unhealthy_of snapshot)) (len snapshot) (SystemicFailureSkipPercent spec)
    \<longleftrightarrow> systemic spec snapshot"
proof -
  have u: "length (unhealthy_of snapshot) < 2 ^ 31"
    using length_unhealthy_of assms by (rule le_less_trans)
  have "sint (len snapshot) = int (length snapshot)"
    using assms by (intro sint_len) simp
  moreover have "sint (len (unhealthy_of snapshot)) = int (length (unhealthy_of snapshot))"
    using u by (intro sint_len) simp
  ultimately show ?thesis
    using assms u by (subst isSystemic_iff) (auto simp: systemic_def)
qed

lemma sint_cooldown: "sint (int64_of (CooldownSeconds spec) * Second) = cooldown_ns spec"
  using sint32_range [of "CooldownSeconds spec"] by (subst sint_mult64) (simp_all add: cooldown_ns_def)

lemma cooldown_ns_range: "minDuration < cooldown_ns spec"
  using sint32_range [of "CooldownSeconds spec"] by (simp add: cooldown_ns_def minDuration_def)

lemma sint_max_attempts:
  "sint (if MaxConsecutiveAttempts spec \<le>s 0 then 3 else MaxConsecutiveAttempts spec) = max_attempts spec"
  by (simp add: max_attempts_def go_cmp)

lemma breakerOpen_verdict:
  "breakerOpen (ConsecutiveAttempts st)
     (if MaxConsecutiveAttempts spec \<le>s 0 then 3 else MaxConsecutiveAttempts spec)
     (LastRemediation st) (int64_of (CooldownSeconds spec) * Second) now \<longleftrightarrow>
   within_cooldown spec st now \<and> max_attempts spec \<le> sint (ConsecutiveAttempts st)"
  by (subst breakerOpen_iff)
    (auto simp: sint_cooldown sint_max_attempts cooldown_ns_range within_cooldown_def)

lemma cooldownActive_verdict:
  "cooldownActive (LastRemediation st) (int64_of (CooldownSeconds spec) * Second) now \<longleftrightarrow>
   within_cooldown spec st now \<and> 0 < cooldown_ns spec"
  by (auto simp: cooldownActive_iff sint_cooldown within_cooldown_def)

lemma decide_verdict:
  assumes "length snapshot < 2 ^ 31"
  shows "decide r nn policy cfg dep snapshot now =
    perform r nn policy cfg dep snapshot now (verdict_of policy dep snapshot now)"
proof -
  have stable: "(RequireStable spec = None \<or> RequireStable spec = Some True) \<longleftrightarrow>
      RequireStable spec \<noteq> Some False" for spec
    by (cases "RequireStable spec") auto
  show ?thesis
    unfolding decide_def verdict_of_def perform_def Let_def
      isSystemic_systemic [OF assms] stable breakerOpen_verdict cooldownActive_verdict
    by simp
qed

section \<open>Facts about verdicts\<close>

lemma verdict_Remediate_iff:
  "verdict_of policy dep snapshot now = Remediate strategy \<longleftrightarrow>
     \<not> progressDeadlineExceeded dep \<and> unhealthy_of snapshot \<noteq> [] \<and>
     \<not> systemic (Remediation (pol_Spec policy)) snapshot \<and>
     (RequireStable (Remediation (pol_Spec policy)) = Some False \<or> deploymentStable dep) \<and>
     \<not> (within_cooldown (Remediation (pol_Spec policy)) (pol_Status policy) now \<and>
        (0 < cooldown_ns (Remediation (pol_Spec policy)) \<or>
         max_attempts (Remediation (pol_Spec policy)) \<le> sint (ConsecutiveAttempts (pol_Status policy)))) \<and>
     strategy = chooseStrategy (Strategy (Remediation (pol_Spec policy))) (effectiveReplicas dep)"
  unfolding verdict_of_def Let_def by auto

end
