(* ===== verification/Manager.thy ===== *)
theory Manager
  imports ProbeSource
begin

text \<open>
  The prober \<open>Manager\<close> of \<open>internal/prober/prober.go\<close>: its store of policies and pods and
  the operations that run under its mutex (\<open>Sync\<close>, \<open>SetSeenReady\<close>, \<open>Snapshot\<close>,
  \<open>Forget\<close>, and the two critical sections of \<open>probeOnce\<close>). Contexts made by
  \<open>context.WithCancel\<close> are numbered in the order of their creation; the state remembers
  which are cancelled and which goroutine was started with which. \<open>K\<close> is the string form
  of a \<open>NamespacedName\<close> (\<open>String()\<close> of the Kubernetes package), the key of the policy
  map.
\<close>

section \<open>State\<close>

record policyEntry =
  pe_cfg :: ProbeConfig
  pe_pods :: "UID \<rightharpoonup> podEntry"

text \<open>A started \<open>go m.run(ctx, nn, uid)\<close>.\<close>

record goroutine =
  g_ctx :: nat
  g_nn :: NamespacedName
  g_uid :: UID

record Manager =
  policies :: "string \<rightharpoonup> policyEntry"
  rootCancelled :: bool
  nextCtx :: nat
  cancelled :: "nat set"
  spawned :: "goroutine list"
  events :: "NamespacedName list"

definition NewManager :: Manager where
  "NewManager = \<lparr>policies = Map.empty, rootCancelled = False, nextCtx = 0, cancelled = {},
                 spawned = [], events = []\<rparr>"

text \<open>The capacity of the buffered event channel.\<close>

definition eventsCap :: nat where "eventsCap = 1024"

text \<open>\<open>ctx.Done()\<close> of a probe context: cancelled itself, or its parent is.\<close>

definition ctxDone :: "Manager \<Rightarrow> nat \<Rightarrow> bool" where
  "ctxDone m c \<longleftrightarrow> rootCancelled m \<or> c \<in> cancelled m"

text \<open>
  \<open>Events\<close>: the receiving end of the channel, here what waits in it. \<open>Start\<close> waits for the context
  of the process and then cancels the parent of all probe contexts; this is its second half,
  the step that happens when that context is done.
\<close>

definition Events :: "Manager \<Rightarrow> NamespacedName list" where
  "Events m = events m"

definition Start :: "Manager \<Rightarrow> Manager" where
  "Start m = m\<lparr>rootCancelled := True\<rparr>"

section \<open>Sync\<close>

definition cancel_ctx :: "nat option \<Rightarrow> Manager \<Rightarrow> Manager" where
  "cancel_ctx c m = (case c of None \<Rightarrow> m | Some n \<Rightarrow> m\<lparr>cancelled := insert n (cancelled m)\<rparr>)"

text \<open>
  One turn of the loop over \<open>pe.pods\<close>, and one turn of the loop over \<open>desired\<close>. The first
  component of the loop state is \<open>pe.pods\<close>.
\<close>

type_synonym sync_state = "(UID \<rightharpoonup> podEntry) \<times> Manager"

definition stop_pod :: "(UID \<rightharpoonup> PodTarget) \<Rightarrow> UID \<Rightarrow> sync_state \<Rightarrow> sync_state" where
  "stop_pod desired uid st =
     (case st of (pods, m) \<Rightarrow>
        case pods uid of
          None \<Rightarrow> (pods, m)
        | Some pod \<Rightarrow>
            if desired uid = None then (pods(uid := None), cancel_ctx (cancel pod) m)
            else (pods, m))"

definition add_pod :: "NamespacedName \<Rightarrow> (UID \<rightharpoonup> PodTarget) \<Rightarrow> UID \<Rightarrow> sync_state \<Rightarrow> sync_state" where
  "add_pod nn desired uid st =
     (case st of (pods, m) \<Rightarrow>
        case desired uid of
          None \<Rightarrow> (pods, m)
        | Some t \<Rightarrow>
            (case pods uid of
               Some pod \<Rightarrow> (pods(uid \<mapsto> pod\<lparr>PodIP := t_IP t, PodName := t_Name t\<rparr>), m)
             | None \<Rightarrow>
                 let ctx = nextCtx m in
                 (pods(uid \<mapsto> (new_podEntry t)\<lparr>cancel := Some ctx\<rparr>),
                  m\<lparr>nextCtx := Suc ctx,
                    spawned := spawned m @ [\<lparr>g_ctx = ctx, g_nn = nn, g_uid = uid\<rparr>]\<rparr>)))"

definition Sync ::
  "(NamespacedName \<Rightarrow> string) \<Rightarrow> UID range_order \<Rightarrow>
   NamespacedName \<Rightarrow> ProbeConfig \<Rightarrow> PodTarget list \<Rightarrow> Manager \<Rightarrow> Manager" where
  "Sync K ord nn cfg targets m =
     (let k = K nn;
          pods = (case policies m k of None \<Rightarrow> Map.empty | Some pe \<Rightarrow> pe_pods pe);
          desired = desired_map targets;
          (pods, m) = fold (stop_pod desired) (keys_of ord (dom pods)) (pods, m);
          (pods, m) = fold (add_pod nn desired) (keys_of ord (dom desired)) (pods, m)
      in m\<lparr>policies := (policies m)(k \<mapsto> \<lparr>pe_cfg = cfg, pe_pods = pods\<rparr>)\<rparr>)"

section \<open>SetSeenReady, Snapshot, Forget\<close>

definition SetSeenReady ::
  "(NamespacedName \<Rightarrow> string) \<Rightarrow> NamespacedName \<Rightarrow> UID \<Rightarrow> Manager \<Rightarrow> Manager" where
  "SetSeenReady K nn uid m =
     (case policies m (K nn) of
        None \<Rightarrow> m
      | Some pe \<Rightarrow>
          (case pe_pods pe uid of
             None \<Rightarrow> m
           | Some pod \<Rightarrow>
               m\<lparr>policies := (policies m)(K nn \<mapsto>
                   pe\<lparr>pe_pods := (pe_pods pe)(uid \<mapsto> pod\<lparr>SeenReady := True\<rparr>)\<rparr>)\<rparr>))"

text \<open>The nil slice of an unknown policy is the empty list; its readers only range over it.\<close>

definition Snapshot ::
  "(NamespacedName \<Rightarrow> string) \<Rightarrow> UID range_order \<Rightarrow> NamespacedName \<Rightarrow> Manager \<Rightarrow> PodState list" where
  "Snapshot K ord nn m =
     (case policies m (K nn) of
        None \<Rightarrow> []
      | Some pe \<Rightarrow>
          List.map_filter (\<lambda>uid. map_option PodState.truncate (pe_pods pe uid))
            (keys_of ord (dom (pe_pods pe))))"

definition forget_pod :: "(UID \<rightharpoonup> podEntry) \<Rightarrow> UID \<Rightarrow> Manager \<Rightarrow> Manager" where
  "forget_pod pods uid m = (case pods uid of None \<Rightarrow> m | Some pod \<Rightarrow> cancel_ctx (cancel pod) m)"

definition Forget ::
  "(NamespacedName \<Rightarrow> string) \<Rightarrow> UID range_order \<Rightarrow> NamespacedName \<Rightarrow> Manager \<Rightarrow> Manager" where
  "Forget K ord nn m =
     (case policies m (K nn) of
        None \<Rightarrow> m
      | Some pe \<Rightarrow>
          let m = fold (forget_pod (pe_pods pe)) (keys_of ord (dom (pe_pods pe))) m
          in m\<lparr>policies := (policies m)(K nn := None)\<rparr>)"

section \<open>The critical sections of probeOnce\<close>

text \<open>First section: the configuration and the address, or nothing to probe.\<close>

definition probe_read ::
  "(NamespacedName \<Rightarrow> string) \<Rightarrow> NamespacedName \<Rightarrow> UID \<Rightarrow> Manager \<Rightarrow> (ProbeConfig \<times> string) option" where
  "probe_read K nn uid m =
     (case policies m (K nn) of
        None \<Rightarrow> None
      | Some pe \<Rightarrow> (case pe_pods pe uid of None \<Rightarrow> None | Some pod \<Rightarrow> Some (pe_cfg pe, PodIP pod)))"

text \<open>Second section: record the result under the configuration read in the first.\<close>

definition probe_record ::
  "(NamespacedName \<Rightarrow> string) \<Rightarrow> NamespacedName \<Rightarrow> UID \<Rightarrow> ProbeConfig \<Rightarrow> bool \<Rightarrow> gotime \<Rightarrow>
   Manager \<Rightarrow> bool \<times> Manager" where
  "probe_record K nn uid cfg ok now m =
     (case policies m (K nn) of
        None \<Rightarrow> (False, m)
      | Some pe \<Rightarrow>
          (case pe_pods pe uid of
             None \<Rightarrow> (False, m)
           | Some pod \<Rightarrow>
               (case record_probe pod cfg ok now of (transitioned, pod') \<Rightarrow>
                  (transitioned,
                   m\<lparr>policies := (policies m)(K nn \<mapsto>
                       pe\<lparr>pe_pods := (pe_pods pe)(uid \<mapsto> pod')\<rparr>)\<rparr>))))"

text \<open>The label values of the \<open>hotswap_probe_total\<close> sample of one probe.\<close>

definition probe_labels :: "NamespacedName \<Rightarrow> bool \<Rightarrow> string list" where
  "probe_labels nn ok =
     [nn_Namespace nn, nn_Name nn, if ok then ''success'' else ''failure'']"

end
