(* ===== verification/ManagerInv.thy ===== *)
theory ManagerInv
  imports Manager
begin

text \<open>
  The invariant of the prober's store: the tracked pods and the goroutines that have not been
  cancelled correspond one to one. Every operation keeps it. The second half gives the effect
  of each operation on the store, and closes with the interpretation of the reconciler's
  contract \<open>probe_source\<close> on the manager.
\<close>

section \<open>The invariant\<close>

definition entry_at :: "Manager \<Rightarrow> string \<Rightarrow> UID \<Rightarrow> podEntry option" where
  "entry_at m k u = (case policies m k of None \<Rightarrow> None | Some pe \<Rightarrow> pe_pods pe u)"

text \<open>The goroutine started for an entry: under its context, for its policy and pod.\<close>

definition runs_for ::
  "(NamespacedName \<Rightarrow> string) \<Rightarrow> Manager \<Rightarrow> string \<Rightarrow> UID \<Rightarrow> nat \<Rightarrow> bool" where
  "runs_for K m k u c \<longleftrightarrow> (\<exists>g \<in> set (spawned m). g_ctx g = c \<and> K (g_nn g) = k \<and> g_uid g = u)"

definition wf_manager :: "(NamespacedName \<Rightarrow> string) \<Rightarrow> Manager \<Rightarrow> bool" where
  "wf_manager K m \<longleftrightarrow>
     (\<forall>k. finite {u. entry_at m k u \<noteq> None}) \<and>
     map g_ctx (spawned m) = [0..<nextCtx m] \<and>
     cancelled m \<subseteq> {..<nextCtx m} \<and>
     (\<forall>k u pod. entry_at m k u = Some pod \<longrightarrow>
        PodUID pod = u \<and> (\<exists>c. cancel pod = Some c \<and> c \<notin> cancelled m \<and> runs_for K m k u c)) \<and>
     (\<forall>g \<in> set (spawned m). g_ctx g \<notin> cancelled m \<longrightarrow>
        (\<exists>pod. entry_at m (K (g_nn g)) (g_uid g) = Some pod \<and> cancel pod = Some (g_ctx g)))"

lemma wf_managerI [intro?]:
  assumes "\<And>k. finite {u. entry_at m k u \<noteq> None}"
    and "map g_ctx (spawned m) = [0..<nextCtx m]"
    and "cancelled m \<subseteq> {..<nextCtx m}"
    and "\<And>k u pod. entry_at m k u = Some pod \<Longrightarrow>
        PodUID pod = u \<and> (\<exists>c. cancel pod = Some c \<and> c \<notin> cancelled m \<and> runs_for K m k u c)"
    and "\<And>g. g \<in> set (spawned m) \<Longrightarrow> g_ctx g \<notin> cancelled m \<Longrightarrow>
        \<exists>pod. entry_at m (K (g_nn g)) (g_uid g) = Some pod \<and> cancel pod = Some (g_ctx g)"
  shows "wf_manager K m"
  unfolding wf_manager_def using assms by blast

lemma wf_finite: "wf_manager K m \<Longrightarrow> finite {u. entry_at m k u \<noteq> None}"
  by (simp add: wf_manager_def)

lemma wf_spawned: "wf_manager K m \<Longrightarrow> map g_ctx (spawned m) = [0..<nextCtx m]"
  by (simp add: wf_manager_def)

lemma wf_cancelled: "wf_manager K m \<Longrightarrow> c \<in> cancelled m \<Longrightarrow> c < nextCtx m"
  by (auto simp: wf_manager_def)

lemma wf_entry:
  assumes "wf_manager K m" and "entry_at m k u = Some pod"
  obtains c where "PodUID pod = u" and "cancel pod = Some c" and "c \<notin> cancelled m"
    and "runs_for K m k u c"
  using assms unfolding wf_manager_def by blast

lemma wf_goroutine:
  assumes "wf_manager K m" and "g \<in> set (spawned m)" and "g_ctx g \<notin> cancelled m"
  obtains pod where "entry_at m (K (g_nn g)) (g_uid g) = Some pod" and "cancel pod = Some (g_ctx g)"
  using assms unfolding wf_manager_def by blast

lemma wf_ctx_less: "wf_manager K m \<Longrightarrow> g \<in> set (spawned m) \<Longrightarrow> g_ctx g < nextCtx m"
  by (metis (no_types, lifting) atLeastLessThan_iff image_eqI list.set_map set_upt wf_spawned)

lemma wf_ctx_inj:
  "wf_manager K m \<Longrightarrow> g \<in> set (spawned m) \<Longrightarrow> g' \<in> set (spawned m) \<Longrightarrow> g_ctx g = g_ctx g' \<Longrightarrow> g = g'"
  by (metis distinct_map distinct_upt inj_onD wf_spawned)

lemma runs_for_unique:
  "wf_manager K m \<Longrightarrow> runs_for K m k u c \<Longrightarrow> runs_for K m k' u' c \<Longrightarrow> k = k' \<and> u = u'"
  unfolding runs_for_def using wf_ctx_inj by blast

lemma entry_at_NewManager [simp]: "entry_at NewManager k u = None"
  by (simp add: entry_at_def NewManager_def)

lemma wf_NewManager: "wf_manager K NewManager"
  by (rule wf_managerI) (simp_all, simp_all add: NewManager_def)

section \<open>Sync keeps it\<close>

text \<open>The manager a \<open>Sync\<close> in progress amounts to: its policy entry already written.\<close>

definition commit :: "string \<Rightarrow> ProbeConfig \<Rightarrow> sync_state \<Rightarrow> Manager" where
  "commit k cfg st =
     (case st of (pods, m) \<Rightarrow> m\<lparr>policies := (policies m)(k \<mapsto> \<lparr>pe_cfg = cfg, pe_pods = pods\<rparr>)\<rparr>)"

lemma entry_at_commit [simp]:
  "entry_at (commit k cfg (pods, m)) k' u = (if k' = k then pods u else entry_at m k' u)"
  by (simp add: commit_def entry_at_def)

lemma commit_fields [simp]:
  "spawned (commit k cfg (pods, m)) = spawned m"
  "cancelled (commit k cfg (pods, m)) = cancelled m"
  "nextCtx (commit k cfg (pods, m)) = nextCtx m"
  "runs_for K (commit k cfg (pods, m)) = runs_for K m"
  by (auto simp: commit_def runs_for_def fun_eq_iff)

lemma cancel_ctx_fields [simp]:
  "policies (cancel_ctx c m) = policies m" "spawned (cancel_ctx c m) = spawned m"
  "nextCtx (cancel_ctx c m) = nextCtx m" "rootCancelled (cancel_ctx c m) = rootCancelled m"
  "events (cancel_ctx c m) = events m" "entry_at (cancel_ctx c m) = entry_at m"
  "runs_for K (cancel_ctx c m) = runs_for K m"
  "cancelled (cancel_ctx (Some n) m) = insert n (cancelled m)"
  by (auto simp: cancel_ctx_def entry_at_def runs_for_def fun_eq_iff split: option.split)

text \<open>Dropping one entry and cancelling its context.\<close>

lemma wf_drop:
  assumes wf: "wf_manager K m" and e: "entry_at m k u = Some pod"
    and ent: "\<And>k' u'. entry_at m' k' u' = (if k' = k \<and> u' = u then None else entry_at m k' u')"
    and sp: "spawned m' = spawned m" "nextCtx m' = nextCtx m"
    and ca: "cancelled m' = insert (the (cancel pod)) (cancelled m)"
  shows "wf_manager K m'"
proof -
  obtain c where c: "cancel pod = Some c" "c \<notin> cancelled m" "runs_for K m k u c"
    using wf_entry [OF wf e] by blast
  have runs: "runs_for K m' = runs_for K m" by (simp add: runs_for_def sp fun_eq_iff)
  show ?thesis
  proof
    fix k'
    have "{u'. entry_at m' k' u' \<noteq> None} \<subseteq> {u'. entry_at m k' u' \<noteq> None}" by (auto simp: ent)
    then show "finite {u'. entry_at m' k' u' \<noteq> None}"
      by (rule finite_subset) (rule wf_finite [OF wf])
  next
    show "map g_ctx (spawned m') = [0..<nextCtx m']" using wf_spawned [OF wf] by (simp add: sp)
  next
    show "cancelled m' \<subseteq> {..<nextCtx m'}"
      using wf_cancelled [OF wf] wf_ctx_less [OF wf] c(1,3) by (auto simp: ca sp runs_for_def)
  next
    fix k' u' pod' assume e': "entry_at m' k' u' = Some pod'"
    then have old: "entry_at m k' u' = Some pod'" and ne: "\<not> (k' = k \<and> u' = u)"
      by (auto simp: ent split: if_splits)
    from wf_entry [OF wf old] obtain c' where c': "PodUID pod' = u'" "cancel pod' = Some c'"
      "c' \<notin> cancelled m" "runs_for K m k' u' c'" by blast
    have "c' \<noteq> c" using runs_for_unique [OF wf c'(4)] c(3) ne by blast
    with c' c(1) show "PodUID pod' = u' \<and>
        (\<exists>c. cancel pod' = Some c \<and> c \<notin> cancelled m' \<and> runs_for K m' k' u' c)"
      by (simp add: ca runs)
  next
    fix g assume g: "g \<in> set (spawned m')" "g_ctx g \<notin> cancelled m'"
    then have gm: "g \<in> set (spawned m)" and nc: "g_ctx g \<notin> cancelled m" "g_ctx g \<noteq> c"
      using c(1) by (auto simp: sp ca)
    obtain q where q: "entry_at m (K (g_nn g)) (g_uid g) = Some q" "cancel q = Some (g_ctx g)"
      by (rule wf_goroutine [OF wf gm nc(1)])
    then have "\<not> (K (g_nn g) = k \<and> g_uid g = u)" using e c(1) nc(2) by auto
    with q show "\<exists>pod. entry_at m' (K (g_nn g)) (g_uid g) = Some pod \<and> cancel pod = Some (g_ctx g)"
      by (auto simp: ent)
  qed
qed

text \<open>Changing an entry without its UID and its context.\<close>

lemma wf_change:
  assumes wf: "wf_manager K m" and e: "entry_at m k u = Some pod"
    and ent: "\<And>k' u'. entry_at m' k' u' = (if k' = k \<and> u' = u then Some pod' else entry_at m k' u')"
    and same: "PodUID pod' = PodUID pod" "cancel pod' = cancel pod"
    and sp: "spawned m' = spawned m" "nextCtx m' = nextCtx m" "cancelled m' = cancelled m"
  shows "wf_manager K m'"
proof -
  have runs: "runs_for K m' = runs_for K m" by (simp add: runs_for_def sp fun_eq_iff)
  have old: "\<exists>p. entry_at m k' u' = Some p \<and> PodUID p = PodUID q \<and> cancel p = cancel q"
    if "entry_at m' k' u' = Some q" for k' u' q
    using that e same by (auto simp: ent split: if_splits)
  show ?thesis
  proof
    fix k'
    have "{u'. entry_at m' k' u' \<noteq> None} = {u'. entry_at m k' u' \<noteq> None}" using e by (auto simp: ent)
    then show "finite {u'. entry_at m' k' u' \<noteq> None}" using wf_finite [OF wf] by simp
  next
    show "map g_ctx (spawned m') = [0..<nextCtx m']" using wf_spawned [OF wf] by (simp add: sp)
  next
    show "cancelled m' \<subseteq> {..<nextCtx m'}" using wf_cancelled [OF wf] by (auto simp: sp)
  next
    fix k' u' q assume "entry_at m' k' u' = Some q"
    from old [OF this] show "PodUID q = u' \<and>
        (\<exists>c. cancel q = Some c \<and> c \<notin> cancelled m' \<and> runs_for K m' k' u' c)"
      using wf_entry [OF wf] by (metis runs sp(3))
  next
    fix g assume "g \<in> set (spawned m')" "g_ctx g \<notin> cancelled m'"
    then obtain q where "entry_at m (K (g_nn g)) (g_uid g) = Some q" "cancel q = Some (g_ctx g)"
      using wf_goroutine [OF wf] by (metis sp(1,3))
    then show "\<exists>p. entry_at m' (K (g_nn g)) (g_uid g) = Some p \<and> cancel p = Some (g_ctx g)"
      using e same by (auto simp: ent)
  qed
qed

text \<open>Adding an entry for an untracked pod, with a fresh context and its goroutine.\<close>

lemma wf_add:
  assumes wf: "wf_manager K m" and e: "entry_at m k u = None"
    and ent: "\<And>k' u'. entry_at m' k' u' = (if k' = k \<and> u' = u then Some pod else entry_at m k' u')"
    and pod: "PodUID pod = u" "cancel pod = Some (nextCtx m)"
    and sp: "spawned m' = spawned m @ [g]" "g_ctx g = nextCtx m" "K (g_nn g) = k" "g_uid g = u"
    and ca: "nextCtx m' = Suc (nextCtx m)" "cancelled m' = cancelled m"
  shows "wf_manager K m'"
proof -
  have runs: "runs_for K m' k' u' c" if "runs_for K m k' u' c" for k' u' c
    using that by (auto simp: runs_for_def sp(1))
  have new: "nextCtx m \<notin> cancelled m" using wf_cancelled [OF wf] by blast
  show ?thesis
  proof
    fix k'
    have "{u'. entry_at m' k' u' \<noteq> None} \<subseteq> insert u {u'. entry_at m k' u' \<noteq> None}"
      by (auto simp: ent)
    then show "finite {u'. entry_at m' k' u' \<noteq> None}"
      by (rule finite_subset) (use wf_finite [OF wf, of k'] in simp)
  next
    show "map g_ctx (spawned m') = [0..<nextCtx m']"
      using wf_spawned [OF wf] by (simp add: sp ca)
  next
    show "cancelled m' \<subseteq> {..<nextCtx m'}"
      using wf_cancelled [OF wf] by (auto simp: ca intro: less_SucI)
  next
    fix k' u' q assume q: "entry_at m' k' u' = Some q"
    show "PodUID q = u' \<and> (\<exists>c. cancel q = Some c \<and> c \<notin> cancelled m' \<and> runs_for K m' k' u' c)"
    proof (cases "k' = k \<and> u' = u")
      case True
      then have "q = pod" using q by (simp add: ent)
      moreover have "runs_for K m' k u (nextCtx m)" by (auto simp: runs_for_def sp)
      ultimately show ?thesis using True pod new by (simp add: ca)
    next
      case False
      then have "entry_at m k' u' = Some q" using q by (auto simp: ent split: if_splits)
      then show ?thesis using wf_entry [OF wf] runs by (metis ca(2))
    qed
  next
    fix g' assume g': "g' \<in> set (spawned m')" "g_ctx g' \<notin> cancelled m'"
    show "\<exists>p. entry_at m' (K (g_nn g')) (g_uid g') = Some p \<and> cancel p = Some (g_ctx g')"
    proof (cases "g' = g")
      case True
      then show ?thesis using pod by (simp add: ent sp)
    next
      case False
      then obtain q where "entry_at m (K (g_nn g')) (g_uid g') = Some q" "cancel q = Some (g_ctx g')"
        using wf_goroutine [OF wf, of g'] g' by (auto simp: sp ca)
      then show ?thesis using e by (auto simp: ent)
    qed
  qed
qed

lemma wf_stop_pod:
  assumes wf: "wf_manager K (commit k cfg st)"
  shows "wf_manager K (commit k cfg (stop_pod desired u st))"
proof -
  obtain pods m where st: "st = (pods, m)" by fastforce
  show ?thesis
  proof (cases "\<exists>pod. pods u = Some pod \<and> desired u = None")
    case True
    then obtain pod where pod: "pods u = Some pod" and d: "desired u = None" by blast
    then have e: "entry_at (commit k cfg st) k u = Some pod" by (simp add: st)
    obtain c where "cancel pod = Some c" using wf_entry [OF wf e] by blast
    then show ?thesis
      by (intro wf_drop [OF wf e]) (auto simp: st stop_pod_def pod d)
  next
    case False
    then show ?thesis using wf by (auto simp: st stop_pod_def split: option.splits)
  qed
qed

lemma wf_add_pod:
  assumes wf: "wf_manager K (commit (K nn) cfg st)"
    and ds: "\<And>t. desired u = Some t \<Longrightarrow> t_UID t = u"
  shows "wf_manager K (commit (K nn) cfg (add_pod nn desired u st))"
proof -
  obtain pods m where st: "st = (pods, m)" by fastforce
  show ?thesis
  proof (cases "desired u")
    case None
    then show ?thesis using wf by (simp add: st add_pod_def)
  next
    case (Some t)
    show ?thesis
    proof (cases "pods u")
      case None
      then have "entry_at (commit (K nn) cfg st) (K nn) u = None" by (simp add: st)
      then show ?thesis
        by (rule wf_add [OF wf, where pod = "(new_podEntry t)\<lparr>cancel := Some (nextCtx m)\<rparr>"
              and g = "\<lparr>g_ctx = nextCtx m, g_nn = nn, g_uid = u\<rparr>"])
          (simp_all add: st add_pod_def Some None Let_def ds new_podEntry_def,
           simp_all add: commit_def entry_at_def)
    next
      fix pod assume pod: "pods u = Some pod"
      then have "entry_at (commit (K nn) cfg st) (K nn) u = Some pod" by (simp add: st)
      then show ?thesis
        by (rule wf_change [OF wf, where pod' = "pod\<lparr>PodIP := t_IP t, PodName := t_Name t\<rparr>"])
          (simp_all add: st add_pod_def Some pod)
    qed
  qed
qed

lemma fold_invariant:
  "P st \<Longrightarrow> (\<And>x st. P st \<Longrightarrow> P (f x st)) \<Longrightarrow> P (fold f xs st)"
  by (induction xs arbitrary: st) auto

text \<open>The policies, the events and the root context are untouched by the two loops.\<close>

definition same_frame :: "Manager \<Rightarrow> Manager \<Rightarrow> bool" where
  "same_frame m m' \<longleftrightarrow>
     policies m' = policies m \<and> events m' = events m \<and> rootCancelled m' = rootCancelled m"

lemma same_frame_stop: "same_frame m (snd st) \<Longrightarrow> same_frame m (snd (stop_pod desired u st))"
  by (auto simp: same_frame_def stop_pod_def split: prod.splits option.splits)

lemma same_frame_add: "same_frame m (snd st) \<Longrightarrow> same_frame m (snd (add_pod nn desired u st))"
  by (auto simp: same_frame_def add_pod_def Let_def split: prod.splits option.splits)

text \<open>\<open>Sync\<close> as the two loops between reading and writing the policy entry.\<close>

definition old_pods :: "Manager \<Rightarrow> string \<Rightarrow> (UID \<rightharpoonup> podEntry)" where
  "old_pods m k = (case policies m k of None \<Rightarrow> Map.empty | Some pe \<Rightarrow> pe_pods pe)"

definition sync_loops ::
  "UID range_order \<Rightarrow> NamespacedName \<Rightarrow> PodTarget list \<Rightarrow> sync_state \<Rightarrow> sync_state" where
  "sync_loops ord nn ts st =
     fold (add_pod nn (desired_map ts)) (keys_of ord (dom (desired_map ts)))
       (fold (stop_pod (desired_map ts)) (keys_of ord (dom (fst st))) st)"

lemma Sync_commit:
  "Sync K ord nn cfg ts m = commit (K nn) cfg (sync_loops ord nn ts (old_pods m (K nn), m))"
  by (simp add: Sync_def sync_loops_def old_pods_def commit_def Let_def split: prod.split)

lemma entry_at_old_pods: "entry_at m k = old_pods m k"
  by (auto simp: entry_at_def old_pods_def fun_eq_iff split: option.split)

lemma wf_commit_old: "wf_manager K m \<Longrightarrow> wf_manager K (commit k cfg (old_pods m k, m))"
proof -
  assume wf: "wf_manager K m"
  have "entry_at (commit k cfg (old_pods m k, m)) = entry_at m"
    by (auto simp: fun_eq_iff entry_at_old_pods [symmetric])
  then show ?thesis using wf by (simp add: wf_manager_def)
qed

theorem wf_Sync:
  assumes "wf_manager K m"
  shows "wf_manager K (Sync K ord nn cfg ts m)"
  unfolding Sync_commit sync_loops_def
  by (intro fold_invariant [where P = "\<lambda>st. wf_manager K (commit (K nn) cfg st)"]
        wf_commit_old wf_stop_pod wf_add_pod assms)
    (auto dest: desired_map_Some)

section \<open>What Sync does\<close>

lemma fold_stop_pod:
  "fst (fold (stop_pod d) us (pods, m)) u = (if u \<in> set us \<and> d u = None then None else pods u)"
proof (induction us arbitrary: pods m)
  case (Cons a us)
  obtain pods' m' where st: "stop_pod d a (pods, m) = (pods', m')" by fastforce
  then have "pods' u = (if u = a \<and> d u = None then None else pods u)"
    by (auto simp: stop_pod_def split: option.splits if_splits)
  then show ?case by (auto simp: st Cons.IH)
qed simp

lemma fold_stop_pod_cancelled:
  "cancelled (snd (fold (stop_pod d) us (pods, m))) =
     cancelled m \<union> {c. \<exists>u \<in> set us. d u = None \<and> (\<exists>pod. pods u = Some pod \<and> cancel pod = Some c)}"
proof (induction us arbitrary: pods m)
  case (Cons a us)
  show ?case
  proof (cases "\<exists>pod. pods a = Some pod \<and> d a = None")
    case True
    then obtain pod where pod: "pods a = Some pod" "d a = None" by blast
    then have "stop_pod d a (pods, m) = (pods(a := None), cancel_ctx (cancel pod) m)"
      by (simp add: stop_pod_def)
    moreover have "cancelled (cancel_ctx (cancel pod) m) = cancelled m \<union> {c. cancel pod = Some c}"
      by (auto simp: cancel_ctx_def split: option.split)
    moreover have "{c. \<exists>u \<in> set us. d u = None \<and> (\<exists>q. (pods(a := None)) u = Some q \<and> cancel q = Some c)} \<union>
        {c. cancel pod = Some c} =
      {c. \<exists>u \<in> set (a # us). d u = None \<and> (\<exists>q. pods u = Some q \<and> cancel q = Some c)}" (is "?L = ?R")
    proof
      show "?L \<subseteq> ?R" using pod by (auto split: if_splits)
      show "?R \<subseteq> ?L"
      proof
        fix c assume "c \<in> ?R"
        then obtain u q where "u \<in> set (a # us)" "d u = None" "pods u = Some q" "cancel q = Some c"
          by blast
        then show "c \<in> ?L" using pod by (cases "u = a") auto
      qed
    qed
    ultimately show ?thesis by (simp only: fold_simps Cons.IH) blast
  next
    case False
    then have "stop_pod d a (pods, m) = (pods, m)" by (auto simp: stop_pod_def split: option.split)
    then show ?thesis using False by (auto simp: Cons.IH)
  qed
qed simp

lemma add_pod_cancelled: "cancelled (snd (add_pod nn d u st)) = cancelled (snd st)"
  by (cases st) (simp add: add_pod_def Let_def split: option.split)

lemma fold_add_pod_cancelled: "cancelled (snd (fold (add_pod nn d) us st)) = cancelled (snd st)"
  by (induction us arbitrary: st) (simp_all add: add_pod_cancelled)

text \<open>The entry a target has after a \<open>Sync\<close>: refreshed if it was tracked, new otherwise.\<close>

definition synced :: "podEntry option \<Rightarrow> PodTarget \<Rightarrow> podEntry option \<Rightarrow> bool" where
  "synced old t new =
     (case old of
        Some pod \<Rightarrow> new = Some (pod\<lparr>PodIP := t_IP t, PodName := t_Name t\<rparr>)
      | None \<Rightarrow> (\<exists>c. new = Some ((new_podEntry t)\<lparr>cancel := Some c\<rparr>)))"

lemma fold_add_pod_out:
  "u \<notin> set us \<or> d u = None \<Longrightarrow> fst (fold (add_pod nn d) us (pods, m)) u = pods u"
proof (induction us arbitrary: pods m)
  case (Cons a us)
  obtain pods' m' where st: "add_pod nn d a (pods, m) = (pods', m')" by fastforce
  then have "pods' u = pods u"
    using Cons.prems by (auto simp: add_pod_def Let_def split: option.splits)
  with Cons.IH [of pods' m'] Cons.prems show ?case by (auto simp: st)
qed simp

lemma fold_add_pod_in:
  "distinct us \<Longrightarrow> u \<in> set us \<Longrightarrow> d u = Some t \<Longrightarrow>
     synced (pods u) t (fst (fold (add_pod nn d) us (pods, m)) u)"
proof (induction us arbitrary: pods m)
  case (Cons a us)
  obtain pods' m' where st: "add_pod nn d a (pods, m) = (pods', m')" by fastforce
  show ?case
  proof (cases "u = a")
    case True
    then have "synced (pods u) t (pods' u)"
      using st Cons.prems(3)
      by (auto simp: add_pod_def synced_def Let_def split: option.splits)
    moreover have "fst (fold (add_pod nn d) us (pods', m')) u = pods' u"
      using Cons.prems True by (intro fold_add_pod_out) simp
    ultimately show ?thesis by (simp add: st)
  next
    case False
    then have "pods' u = pods u"
      using st by (auto simp: add_pod_def Let_def split: option.splits)
    with Cons.IH [of pods' m'] Cons.prems False show ?thesis by (simp add: st)
  qed
qed simp

lemma finite_dom_old_pods: "wf_manager K m \<Longrightarrow> finite (dom (old_pods m k))"
  using wf_finite [of K m k] by (simp add: dom_def entry_at_old_pods)

lemma finite_dom_desired: "finite (dom (desired_map ts))"
  by (simp add: dom_desired_map)

lemma sync_loops_entry:
  assumes wf: "wf_manager K m"
  shows "case desired_map ts u of
      None \<Rightarrow> fst (sync_loops ord nn ts (old_pods m k, m)) u = None
    | Some t \<Rightarrow> synced (entry_at m k u) t (fst (sync_loops ord nn ts (old_pods m k, m)) u)"
proof -
  let ?d = "desired_map ts"
  obtain pods1 m1 where st: "fold (stop_pod ?d) (keys_of ord (dom (old_pods m k))) (old_pods m k, m)
      = (pods1, m1)" by fastforce
  have pods1: "pods1 u = (if ?d u = None then None else old_pods m k u)"
    using fold_stop_pod [of ?d "keys_of ord (dom (old_pods m k))" "old_pods m k" m u]
    by (simp add: st finite_dom_old_pods [OF wf]) (auto simp: domIff)
  show ?thesis
  proof (cases "?d u")
    case None
    then show ?thesis
      by (simp add: sync_loops_def st fold_add_pod_out pods1)
  next
    case (Some t)
    then have "u \<in> dom ?d" by blast
    with fold_add_pod_in [of "keys_of ord (dom ?d)" u ?d t pods1 nn m1] Some show ?thesis
      by (simp add: sync_loops_def st pods1 finite_dom_desired entry_at_old_pods)
  qed
qed

lemma sync_loops_frame: "same_frame m (snd (sync_loops ord nn ts (pods, m)))"
  unfolding sync_loops_def
  by (intro fold_invariant [where P = "\<lambda>st. same_frame m (snd st)"] same_frame_stop same_frame_add)
    (simp add: same_frame_def)

lemma entry_at_Sync_other:
  "k \<noteq> K nn \<Longrightarrow> entry_at (Sync K ord nn cfg ts m) k = entry_at m k"
  using sync_loops_frame [of m ord nn ts "old_pods m (K nn)"]
  by (cases "sync_loops ord nn ts (old_pods m (K nn), m)")
    (auto simp: Sync_commit commit_def entry_at_def same_frame_def fun_eq_iff)

lemma entry_at_Sync:
  assumes "wf_manager K m"
  shows "case desired_map ts u of
      None \<Rightarrow> entry_at (Sync K ord nn cfg ts m) (K nn) u = None
    | Some t \<Rightarrow> synced (entry_at m (K nn) u) t (entry_at (Sync K ord nn cfg ts m) (K nn) u)"
proof -
  have eq: "entry_at (Sync K ord nn cfg ts m) (K nn) = fst (sync_loops ord nn ts (old_pods m (K nn), m))"
    by (cases "sync_loops ord nn ts (old_pods m (K nn), m)") (simp add: Sync_commit fun_eq_iff)
  show ?thesis unfolding eq by (rule sync_loops_entry [OF assms])
qed

text \<open>The contexts a \<open>Sync\<close> cancels are those of the pods that disappeared.\<close>

lemma cancelled_Sync:
  assumes wf: "wf_manager K m"
  shows "cancelled (Sync K ord nn cfg ts m) = cancelled m \<union>
    {c. \<exists>u pod. desired_map ts u = None \<and> entry_at m (K nn) u = Some pod \<and> cancel pod = Some c}"
proof -
  have "cancelled (Sync K ord nn cfg ts m) =
      cancelled (snd (sync_loops ord nn ts (old_pods m (K nn), m)))"
    by (cases "sync_loops ord nn ts (old_pods m (K nn), m)") (simp add: Sync_commit)
  then show ?thesis
    by (auto simp: sync_loops_def fold_add_pod_cancelled fold_stop_pod_cancelled
          finite_dom_old_pods [OF wf] entry_at_old_pods)
qed

end
