(* ===== verification/ManagerOps.thy ===== *)
theory ManagerOps
  imports ManagerInv
begin

text \<open>
  The remaining operations of the manager against its invariant, their effect on the store,
  and the interpretation of the reconciler's contract \<open>probe_source\<close>: the manager with probe
  results recorded by the loops between any two of the reconciler's calls.
\<close>

section \<open>Invariant and effect\<close>

lemma wf_cong:
  assumes "wf_manager K m" and "\<And>k. entry_at m' k = entry_at m k"
    and "spawned m' = spawned m" "nextCtx m' = nextCtx m" "cancelled m' = cancelled m"
  shows "wf_manager K m'"
proof -
  have "entry_at m' = entry_at m" using assms(2) by blast
  moreover have "runs_for K m' = runs_for K m" by (simp add: runs_for_def assms(3) fun_eq_iff)
  ultimately show ?thesis using assms by (simp add: wf_manager_def)
qed

lemma entry_at_SetSeenReady:
  "entry_at (SetSeenReady K nn uid m) k u =
     (if k = K nn \<and> u = uid then map_option (SeenReady_update (\<lambda>_. True)) (entry_at m k u)
      else entry_at m k u)"
  by (auto simp: SetSeenReady_def entry_at_def split: option.splits)

lemma SetSeenReady_fields [simp]:
  "spawned (SetSeenReady K nn uid m) = spawned m" "nextCtx (SetSeenReady K nn uid m) = nextCtx m"
  "cancelled (SetSeenReady K nn uid m) = cancelled m" "events (SetSeenReady K nn uid m) = events m"
  "rootCancelled (SetSeenReady K nn uid m) = rootCancelled m"
  by (auto simp: SetSeenReady_def split: option.split)

lemma wf_SetSeenReady:
  assumes wf: "wf_manager K m"
  shows "wf_manager K (SetSeenReady K nn uid m)"
proof (cases "entry_at m (K nn) uid")
  case None
  then have "entry_at (SetSeenReady K nn uid m) k = entry_at m k" for k
    by (auto simp: entry_at_SetSeenReady fun_eq_iff)
  then show ?thesis by (rule wf_cong [OF wf]) simp_all
next
  case (Some pod)
  then show ?thesis
    by (rule wf_change [OF wf, where pod' = "pod\<lparr>SeenReady := True\<rparr>"])
      (auto simp: entry_at_SetSeenReady Some)
qed

lemma entry_at_probe_record:
  "entry_at (snd (probe_record K nn uid cfg ok now m)) k u =
     (if k = K nn \<and> u = uid then map_option (\<lambda>pod. snd (record_probe pod cfg ok now)) (entry_at m k u)
      else entry_at m k u)"
  by (auto simp: probe_record_def entry_at_def split: option.splits prod.splits)

lemma probe_record_fields [simp]:
  "spawned (snd (probe_record K nn uid cfg ok now m)) = spawned m"
  "nextCtx (snd (probe_record K nn uid cfg ok now m)) = nextCtx m"
  "cancelled (snd (probe_record K nn uid cfg ok now m)) = cancelled m"
  "events (snd (probe_record K nn uid cfg ok now m)) = events m"
  "rootCancelled (snd (probe_record K nn uid cfg ok now m)) = rootCancelled m"
  by (auto simp: probe_record_def split: option.split prod.split)

lemma wf_probe_record:
  assumes wf: "wf_manager K m"
  shows "wf_manager K (snd (probe_record K nn uid cfg ok now m))"
proof (cases "entry_at m (K nn) uid")
  case None
  then have "entry_at (snd (probe_record K nn uid cfg ok now m)) k = entry_at m k" for k
    by (auto simp: entry_at_probe_record fun_eq_iff)
  then show ?thesis by (rule wf_cong [OF wf]) simp_all
next
  case (Some pod)
  have "record_probe pod cfg ok now = (fst (record_probe pod cfg ok now), snd (record_probe pod cfg ok now))"
    by simp
  note frame = record_probe_frame [OF this]
  show ?thesis
    by (rule wf_change [OF wf Some, where pod' = "snd (record_probe pod cfg ok now)"])
      (use frame Some in \<open>auto simp: entry_at_probe_record\<close>)
qed

text \<open>\<open>Forget\<close> cancels what a \<open>Sync\<close> without targets cancels, and drops the policy.\<close>

lemma forget_pod_fields [simp]:
  "policies (forget_pod pods u m) = policies m" "spawned (forget_pod pods u m) = spawned m"
  "nextCtx (forget_pod pods u m) = nextCtx m" "events (forget_pod pods u m) = events m"
  "rootCancelled (forget_pod pods u m) = rootCancelled m"
  by (auto simp: forget_pod_def split: option.split)

lemma fold_forget_pod_fields [simp]:
  "policies (fold (forget_pod pods) us m) = policies m"
  "spawned (fold (forget_pod pods) us m) = spawned m"
  "nextCtx (fold (forget_pod pods) us m) = nextCtx m"
  "events (fold (forget_pod pods) us m) = events m"
  "rootCancelled (fold (forget_pod pods) us m) = rootCancelled m"
  by (induction us arbitrary: m) simp_all

lemma fold_forget_pod_cancelled:
  "cancelled (fold (forget_pod pods) us m) =
     cancelled m \<union> {c. \<exists>u \<in> set us. \<exists>pod. pods u = Some pod \<and> cancel pod = Some c}"
proof (induction us arbitrary: m)
  case (Cons a us)
  have "cancelled (forget_pod pods a m) =
      cancelled m \<union> {c. \<exists>pod. pods a = Some pod \<and> cancel pod = Some c}"
    by (auto simp: forget_pod_def cancel_ctx_def split: option.splits)
  then show ?case by (simp add: Cons.IH) blast
qed simp

lemma entry_at_Forget:
  "entry_at (Forget K ord nn m) k u = (if k = K nn then None else entry_at m k u)"
  by (auto simp: Forget_def entry_at_def Let_def split: option.splits)

lemma cancelled_Forget:
  assumes wf: "wf_manager K m"
  shows "cancelled (Forget K ord nn m) =
    cancelled m \<union> {c. \<exists>u pod. entry_at m (K nn) u = Some pod \<and> cancel pod = Some c}"
proof (cases "policies m (K nn)")
  case None
  then show ?thesis by (simp add: Forget_def entry_at_def)
next
  case (Some pe)
  have "finite (dom (pe_pods pe))"
    using wf_finite [OF wf, of "K nn"] Some by (simp add: entry_at_def dom_def)
  then show ?thesis
    by (auto simp: Forget_def Some Let_def fold_forget_pod_cancelled entry_at_def)
qed

lemma Forget_fields [simp]:
  "spawned (Forget K ord nn m) = spawned m" "nextCtx (Forget K ord nn m) = nextCtx m"
  "events (Forget K ord nn m) = events m" "rootCancelled (Forget K ord nn m) = rootCancelled m"
  by (auto simp: Forget_def Let_def split: option.split)

lemma Sync_Nil_fields:
  assumes "wf_manager K m"
  shows "spawned (Sync K ord nn cfg [] m) = spawned m" "nextCtx (Sync K ord nn cfg [] m) = nextCtx m"
proof -
  have "spawned (snd (fold (stop_pod d) us st)) = spawned (snd st) \<and>
        nextCtx (snd (fold (stop_pod d) us st)) = nextCtx (snd st)" for d us and st :: sync_state
  proof (induction us arbitrary: st)
    case (Cons a us)
    then show ?case by (cases st) (simp add: stop_pod_def split: option.split)
  qed simp
  note loop = this
  obtain pods m' where st: "sync_loops ord nn [] (old_pods m (K nn), m) = (pods, m')" by fastforce
  then have "spawned m' = spawned m \<and> nextCtx m' = nextCtx m"
    using loop [of "desired_map []" "keys_of ord (dom (old_pods m (K nn)))" "(old_pods m (K nn), m)"]
    by (simp add: sync_loops_def dom_desired_map)
  then show "spawned (Sync K ord nn cfg [] m) = spawned m"
    and "nextCtx (Sync K ord nn cfg [] m) = nextCtx m"
    by (simp_all add: Sync_commit st)
qed

lemma wf_Forget:
  assumes wf: "wf_manager K m"
  shows "wf_manager K (Forget K ord nn m)"
proof -
  obtain cfg :: ProbeConfig where True by blast
  let ?m = "Sync K ord nn cfg [] m"
  have "entry_at (Forget K ord nn m) k = entry_at ?m k" for k
  proof (cases "k = K nn")
    case True
    have "entry_at ?m (K nn) u = None" for u
      using entry_at_Sync [OF wf, where ts = "[]" and u = u and ord = ord and nn = nn and cfg = cfg] by (simp add: desired_map_def)
    with True show ?thesis by (simp add: entry_at_Forget fun_eq_iff)
  next
    case False
    then show ?thesis by (simp add: entry_at_Forget entry_at_Sync_other fun_eq_iff)
  qed
  moreover have "cancelled (Forget K ord nn m) = cancelled ?m"
    by (simp add: cancelled_Forget [OF wf] cancelled_Sync [OF wf] desired_map_def)
  ultimately show ?thesis
    using Sync_Nil_fields [OF wf] by (intro wf_cong [OF wf_Sync [OF wf]]) simp_all
qed

section \<open>Snapshot\<close>

lemma set_map_filter: "set (List.map_filter f xs) = {y. \<exists>x \<in> set xs. f x = Some y}"
  by (induction xs) (auto simp: List.map_filter_simps split: option.splits)

lemma set_Snapshot:
  assumes wf: "wf_manager K m"
  shows "set (Snapshot K ord nn m) = {PodState.truncate pod | u pod. entry_at m (K nn) u = Some pod}"
proof (cases "policies m (K nn)")
  case None
  then show ?thesis by (simp add: Snapshot_def entry_at_def)
next
  case (Some pe)
  have "finite (dom (pe_pods pe))"
    using wf_finite [OF wf, of "K nn"] Some by (simp add: entry_at_def dom_def)
  then show ?thesis
    by (auto simp: Snapshot_def Some set_map_filter entry_at_def)
qed

lemma truncate_fields [simp]:
  "PodName (PodState.truncate r) = PodName r" "PodUID (PodState.truncate r) = PodUID r"
  "PodIP (PodState.truncate r) = PodIP r" "Healthy (PodState.truncate r) = Healthy r"
  "SeenReady (PodState.truncate r) = SeenReady r"
  "ConsecutiveFailures (PodState.truncate r) = ConsecutiveFailures r"
  "LastProbe (PodState.truncate r) = LastProbe r"
  "LastTransition (PodState.truncate r) = LastTransition r"
  by (simp_all add: PodState.defs)

lemma distinct_Snapshot:
  assumes wf: "wf_manager K m"
  shows "distinct (map PodUID (Snapshot K ord nn m))"
proof (cases "policies m (K nn)")
  case None
  then show ?thesis by (simp add: Snapshot_def)
next
  case (Some pe)
  have fin: "finite (dom (pe_pods pe))"
    using wf_finite [OF wf, of "K nn"] Some by (simp add: entry_at_def dom_def)
  have uid: "PodUID pod = u" if "pe_pods pe u = Some pod" for u pod
    using wf_entry [OF wf, of "K nn" u pod] that Some by (auto simp: entry_at_def)
  have "set us \<subseteq> dom (pe_pods pe) \<Longrightarrow>
      map PodUID (List.map_filter (\<lambda>u. map_option PodState.truncate (pe_pods pe u)) us) = us" for us
    by (induction us) (auto simp: List.map_filter_simps uid)
  then show ?thesis by (simp add: Snapshot_def Some fin)
qed

section \<open>The manager as the reconciler's probe source\<close>

text \<open>
  The probe loops take the mutex between the reconciler's calls. A \<open>scheduled\<close> manager carries
  the probe results that the loops record before each coming call; an empty schedule is a
  reconciler that runs undisturbed.
\<close>

record probe_result =
  r_nn :: NamespacedName
  r_uid :: UID
  r_cfg :: ProbeConfig
  r_ok :: bool
  r_now :: gotime

record scheduled =
  mgr :: Manager
  sched :: "probe_result list list"

definition apply_result :: "(NamespacedName \<Rightarrow> string) \<Rightarrow> probe_result \<Rightarrow> Manager \<Rightarrow> Manager" where
  "apply_result K r m = snd (probe_record K (r_nn r) (r_uid r) (r_cfg r) (r_ok r) (r_now r) m)"

definition interfere :: "(NamespacedName \<Rightarrow> string) \<Rightarrow> scheduled \<Rightarrow> scheduled" where
  "interfere K s =
     (case sched s of
        [] \<Rightarrow> s
      | rs # rest \<Rightarrow> \<lparr>mgr = fold (apply_result K) rs (mgr s), sched = rest\<rparr>)"

definition managerSource ::
  "(NamespacedName \<Rightarrow> string) \<Rightarrow> UID range_order \<Rightarrow> scheduled ProbeSource" where
  "managerSource K ord =
     \<lparr>ps_Sync = (\<lambda>nn cfg ts s. let s = interfere K s in s\<lparr>mgr := Sync K ord nn cfg ts (mgr s)\<rparr>),
      ps_SetSeenReady = (\<lambda>nn u s. let s = interfere K s in s\<lparr>mgr := SetSeenReady K nn u (mgr s)\<rparr>),
      ps_Snapshot = (\<lambda>nn s. let s = interfere K s in (Snapshot K ord nn (mgr s), s)),
      ps_Forget = (\<lambda>nn s. let s = interfere K s in s\<lparr>mgr := Forget K ord nn (mgr s)\<rparr>),
      ps_Events = (\<lambda>s. Events (mgr s))\<rparr>"

definition managerInv :: "(NamespacedName \<Rightarrow> string) \<Rightarrow> scheduled \<Rightarrow> bool" where
  "managerInv K s \<longleftrightarrow> wf_manager K (mgr s)"

definition managerView ::
  "(NamespacedName \<Rightarrow> string) \<Rightarrow> NamespacedName \<Rightarrow> scheduled \<Rightarrow> (UID \<rightharpoonup> identity)" where
  "managerView K nn s u = map_option (\<lambda>pod. identity_of (PodState.truncate pod)) (entry_at (mgr s) (K nn) u)"

lemma managerSource_ops [simp]:
  "ps_Sync (managerSource K ord) nn cfg ts s =
     (let s = interfere K s in s\<lparr>mgr := Sync K ord nn cfg ts (mgr s)\<rparr>)"
  "ps_SetSeenReady (managerSource K ord) nn u s =
     (let s = interfere K s in s\<lparr>mgr := SetSeenReady K nn u (mgr s)\<rparr>)"
  "ps_Snapshot (managerSource K ord) nn s = (let s = interfere K s in (Snapshot K ord nn (mgr s), s))"
  "ps_Forget (managerSource K ord) nn s =
     (let s = interfere K s in s\<lparr>mgr := Forget K ord nn (mgr s)\<rparr>)"
  by (simp_all add: managerSource_def)

lemma wf_uid: "wf_manager K m \<Longrightarrow> entry_at m k u = Some pod \<Longrightarrow> PodUID pod = u"
  by (erule wf_entry) auto

text \<open>Recording results keeps the invariant and every pod's identity.\<close>

lemma identity_record:
  "identity_of (PodState.truncate (snd (record_probe pod cfg ok now))) =
     identity_of (PodState.truncate pod)"
  using record_probe_frame [of pod cfg ok now "fst (record_probe pod cfg ok now)"]
  by (simp add: identity_of_def prod_eq_iff)

lemma view_apply_result:
  "managerView K nn \<lparr>mgr = apply_result K r m, sched = q\<rparr> = managerView K nn \<lparr>mgr = m, sched = q'\<rparr>"
  by (auto simp: managerView_def apply_result_def entry_at_probe_record fun_eq_iff
        option.map_comp comp_def identity_record)

lemma interfere_inv_view:
  assumes "managerInv K s"
  shows "managerInv K (interfere K s)" and "managerView K nn (interfere K s) = managerView K nn s"
proof -
  have "wf_manager K m \<Longrightarrow> wf_manager K (fold (apply_result K) rs m)" for rs m
    by (induction rs arbitrary: m) (simp_all add: apply_result_def wf_probe_record)
  then show "managerInv K (interfere K s)"
    using assms by (simp add: managerInv_def interfere_def split: list.split)
  have "managerView K nn \<lparr>mgr = fold (apply_result K) rs m, sched = q\<rparr> =
        managerView K nn \<lparr>mgr = m, sched = q'\<rparr>" for rs m q q'
  proof (induction rs arbitrary: m)
    case Nil
    then show ?case by (simp add: managerView_def fun_eq_iff)
  next
    case (Cons r rs)
    then show ?case using view_apply_result [of K nn r m q' q'] by simp
  qed
  from this [of _ "mgr s" _ "sched s"] show "managerView K nn (interfere K s) = managerView K nn s"
    by (cases s) (simp add: interfere_def split: list.split)
qed

lemma managerView_mgr_cong:
  "entry_at (mgr s) (K nn) = entry_at (mgr s') (K nn) \<Longrightarrow> managerView K nn s = managerView K nn s'"
  by (simp add: managerView_def fun_eq_iff)

lemma view_Sync_manager:
  assumes "managerInv K s"
  shows "managerView K nn (s\<lparr>mgr := Sync K ord nn cfg ts (mgr s)\<rparr>) =
    synced_identity (managerView K nn s) ts"
proof
  fix u
  show "managerView K nn (s\<lparr>mgr := Sync K ord nn cfg ts (mgr s)\<rparr>) u =
      synced_identity (managerView K nn s) ts u"
    using entry_at_Sync [of K "mgr s", where ts = ts and u = u and ord = ord and nn = nn and cfg = cfg] assms
    by (auto simp: managerView_def synced_identity_def managerInv_def synced_def identity_of_def
          new_podEntry_def split: option.splits)
qed

lemma view_SetSeenReady_manager:
  "managerView K nn (s\<lparr>mgr := SetSeenReady K nn u (mgr s)\<rparr>) =
     (managerView K nn s)(u := map_option seen_identity (managerView K nn s u))"
  by (auto simp: managerView_def entry_at_SetSeenReady seen_identity_def identity_of_def fun_eq_iff
        option.map_comp comp_def)

interpretation mgr: probe_source "managerSource K ord" "managerInv K" "managerView K"
    "\<lambda>nn nn'. K nn \<noteq> K nn'" for K ord
proof (unfold_locales, goal_cases)
  case (1 p nn cfg ts)
  then show ?case using interfere_inv_view(1) [of K p] by (simp add: Let_def managerInv_def wf_Sync)
next
  case (2 p nn u)
  then show ?case
    using interfere_inv_view(1) [of K p] by (simp add: Let_def managerInv_def wf_SetSeenReady)
next
  case (3 p nn)
  then show ?case using interfere_inv_view(1) [of K p] by (simp add: Let_def)
next
  case (4 p nn)
  then show ?case using interfere_inv_view(1) [of K p] by (simp add: Let_def managerInv_def wf_Forget)
next
  case (5 p nn cfg ts)
  then show ?case by (simp add: Let_def view_Sync_manager interfere_inv_view)
next
  case (6 p nn u)
  then show ?case by (simp add: Let_def view_SetSeenReady_manager interfere_inv_view)
next
  case (7 p nn)
  then show ?case by (simp add: Let_def interfere_inv_view)
next
  case (8 p nn)
  then show ?case by (simp add: Let_def managerView_def entry_at_Forget fun_eq_iff)
next
  case (9 p nn)
  then show ?case
    using interfere_inv_view(1) [of K p] by (simp add: Let_def managerInv_def distinct_Snapshot)
next
  case (10 p nn)
  then have "wf_manager K (mgr (interfere K p))"
    using interfere_inv_view(1) [of K p] by (simp add: managerInv_def)
  note wf = this
  have "PodUID ` set (Snapshot K ord nn (mgr (interfere K p))) =
      {u. \<exists>pod. entry_at (mgr (interfere K p)) (K nn) u = Some pod}"
    using wf_uid [OF wf] by (force simp: set_Snapshot [OF wf] image_iff)
  also have "\<dots> = dom (managerView K nn (interfere K p))"
    by (auto simp: managerView_def dom_def)
  finally have "PodUID ` set (Snapshot K ord nn (mgr (interfere K p))) =
      dom (managerView K nn (interfere K p))" .
  then show ?case using 10 by (simp add: Let_def interfere_inv_view)
next
  case (11 p s nn)
  then have wf: "wf_manager K (mgr (interfere K p))"
    using interfere_inv_view(1) [of K p] by (simp add: managerInv_def)
  have "managerView K nn (interfere K p) (PodUID s) = Some (identity_of s)"
    using 11(2) wf_uid [OF wf] by (auto simp: Let_def set_Snapshot [OF wf] managerView_def)
  then show ?case using 11 by (simp add: interfere_inv_view)
next
  case (12 p nn nn' cfg ts)
  then show ?case
    using interfere_inv_view(2) [of K p nn']
    by (simp add: Let_def) (metis (no_types) entry_at_Sync_other managerView_mgr_cong scheduled.select_convs(1) scheduled.surjective scheduled.update_convs(1))
next
  case (13 p nn nn' u)
  then show ?case
    using interfere_inv_view(2) [of K p nn']
    by (simp add: Let_def managerView_def entry_at_SetSeenReady fun_eq_iff)
next
  case (14 p nn nn')
  then show ?case by (simp add: Let_def interfere_inv_view)
next
  case (15 p nn nn')
  then show ?case
    using interfere_inv_view(2) [of K p nn']
    by (simp add: Let_def managerView_def entry_at_Forget fun_eq_iff)
qed

section \<open>After Forget\<close>

text \<open>Every goroutine started for a forgotten policy has its context cancelled.\<close>

lemma forgotten_cancelled:
  assumes wf: "wf_manager K m" and g: "g \<in> set (spawned m)" "K (g_nn g) = K nn"
  shows "g_ctx g \<in> cancelled (Forget K ord nn m)"
proof (rule ccontr)
  assume "g_ctx g \<notin> cancelled (Forget K ord nn m)"
  then obtain pod where "entry_at (Forget K ord nn m) (K (g_nn g)) (g_uid g) = Some pod"
    using wf_goroutine [OF wf_Forget [OF wf, of ord nn], of g] g by auto
  with g(2) show False by (simp add: entry_at_Forget)
qed

lemma Snapshot_Forget: "Snapshot K ord' nn (Forget K ord nn m) = []"
proof (cases "policies m (K nn)")
  case (Some pe)
  then show ?thesis by (simp add: Forget_def Snapshot_def)
qed (simp add: Forget_def Snapshot_def)

end
