(* ===== verification/ReconcileSafety.thy ===== *)
theory ReconcileSafety
  imports Decision ManagerOps
begin

text \<open>
  What a whole \<open>Reconcile\<close> may do to the cluster, for any API server and any probe source
  that keeps its contract. The client's lemmas are proved once inside the locale
  \<open>probe_source\<close>.
\<close>

section \<open>A pod snapshot agrees with the listed pods\<close>

text \<open>
  The snapshot names exactly the listed pods that are not terminating, each under its own
  name and address, and no UID twice.
\<close>

definition snapshot_of_pods :: "Pod list \<Rightarrow> PodState list \<Rightarrow> bool" where
  "snapshot_of_pods pods snapshot \<longleftrightarrow>
     distinct (map PodUID snapshot) \<and>
     PodUID ` set snapshot = pod_UID ` {p \<in> set pods. IsZeroPtr (pod_DeletionTimestamp p)} \<and>
     (\<forall>s \<in> set snapshot. \<exists>p \<in> set pods.
        IsZeroPtr (pod_DeletionTimestamp p) \<and> pod_UID p = PodUID s \<and>
        pod_Name p = PodName s \<and> pod_PodIP p = PodIP s)"

lemma snapshot_of_pods_length:
  assumes "snapshot_of_pods pods snapshot"
  shows "length snapshot \<le> length pods"
proof -
  have "length snapshot = card (PodUID ` set snapshot)"
    using assms distinct_card [of "map PodUID snapshot"] by (simp add: snapshot_of_pods_def)
  also have "\<dots> \<le> card (pod_UID ` set pods)"
    using assms by (intro card_mono) (auto simp: snapshot_of_pods_def)
  also have "\<dots> \<le> card (set pods)" by (rule card_image_le) simp
  also have "\<dots> \<le> length pods" by (rule card_length)
  finally show ?thesis .
qed

section \<open>What a call sees of its pods\<close>

text \<open>
  The Ready marks for the listed pods, and the snapshot the prober gives of them: from its state
  \<open>p\<close> at the start of the call, synchronised with the pods and marked.
\<close>

definition ready_marks ::
  "'p ProbeSource \<Rightarrow> NamespacedName \<Rightarrow> Pod list \<Rightarrow> 'p \<Rightarrow> 'p" where
  "ready_marks ps nn pods p =
     fold (\<lambda>q p. if isPodReady q then ps_SetSeenReady ps nn (pod_UID q) p else p) pods p"

definition seen_snapshot ::
  "('w, 'p) HotSwapPolicyReconciler \<Rightarrow> NamespacedName \<Rightarrow> ProbeConfig \<Rightarrow> Pod list \<Rightarrow> 'p \<Rightarrow> PodState list" where
  "seen_snapshot r nn cfg pods p =
     fst (ps_Snapshot (r_Prober r) nn
       (ready_marks (r_Prober r) nn pods (ps_Sync (r_Prober r) nn cfg (probe_targets pods) p)))"

section \<open>A remediation and its circumstances\<close>

text \<open>
  The answers of the API server and the state under which a \<open>Reconcile\<close> remediates: a live
  policy that holds its finalizer, with a valid probe and no rival, on an existing Deployment,
  and the snapshot the prober gives of the selected pods, from the state \<open>p\<close> it had when the call
  began, with a verdict at the time the clock showed to remediate.
\<close>

definition remediation_run ::
  "('w, 'p) HotSwapPolicyReconciler \<Rightarrow> NamespacedName \<Rightarrow> 'p \<Rightarrow> HotSwapPolicy \<Rightarrow> Deployment \<Rightarrow>
   Pod list \<Rightarrow> PodState list \<Rightarrow> gotime \<Rightarrow> RemediationStrategy \<Rightarrow> bool" where
  "remediation_run r nn p policy dep pods snapshot now strategy \<longleftrightarrow>
     (\<exists>w. fst (cl_GetPolicy (r_Client r) nn w) = Inr policy) \<and>
     IsZeroPtr (pol_DeletionTimestamp policy) \<and>
     k_ContainsFinalizer (r_lib r) (pol_Finalizers policy) finalizerName \<and>
     (\<exists>cfg. normalizeProbe (HotswapProbe (pol_Spec policy)) = Inr cfg \<and>
        snapshot = seen_snapshot r nn cfg pods p) \<and>
     (\<exists>w. fst (cl_GetDeployment (r_Client r)
              \<lparr>nn_Namespace = nn_Namespace nn, nn_Name = target_of policy\<rparr> w) = Inr dep) \<and>
     (\<exists>w items. fst (cl_ListPolicies (r_Client r) (pol_Namespace policy) w) = Inr items \<and>
        conflicting_winner policy items = '''') \<and>
     (\<exists>w sel. k_LabelSelectorAsSelector (r_lib r) (dep_Selector dep) = Inr sel \<and>
        fst (cl_ListPods (r_Client r) (nn_Namespace nn) sel w) = Inr pods) \<and>
     snapshot_of_pods pods snapshot \<and>
     (\<exists>w. fst (r_Now r w) = now) \<and>
     verdict_of policy dep snapshot now = Remediate strategy"

text \<open>The effects of a \<open>Reconcile\<close> split at those that reach the cluster.\<close>

definition cluster_effects ::
  "('w, 'p) HotSwapPolicyReconciler \<Rightarrow> NamespacedName \<Rightarrow> 'p \<Rightarrow> effect list \<Rightarrow> bool" where
  "cluster_effects r nn p es \<longleftrightarrow>
     (\<forall>e \<in> set es. \<not> is_mutation e) \<or>
     (\<exists>policy dep pods snapshot now strategy pre cl post.
        remediation_run r nn p policy dep pods snapshot now strategy \<and>
        es = pre @ cl @ post \<and> (\<forall>e \<in> set pre \<union> set post. \<not> is_mutation e) \<and>
        act_effects policy dep strategy (unhealthy_of snapshot) (Remediation (pol_Spec policy)) now cl)"

lemma within_cooldown_Targets [simp]:
  "within_cooldown spec (st\<lparr>Targets := ts\<rparr>) now = within_cooldown spec st now"
  by (simp add: within_cooldown_def)

lemma verdict_of_status [simp]:
  "verdict_of (policy\<lparr>pol_Status := (pol_Status policy)\<lparr>Targets := ts\<rparr>\<rparr>) dep snapshot now =
     verdict_of policy dep snapshot now"
  unfolding verdict_of_def Let_def by simp

lemma act_effects_status [simp]:
  "act_effects (policy\<lparr>pol_Status := st\<rparr>) dep strategy unhealthy spec now es =
     act_effects policy dep strategy unhealthy spec now es"
  by (simp add: act_effects_def)

section \<open>The branches\<close>

text \<open>After a remediation that did not fail: one counter, one event, one status update.\<close>

lemma remediate_yields:
  assumes "unhealthy \<noteq> []"
  shows "yields I (remediate r policy dep strategy unhealthy spec now)
    (\<lambda>x es. \<exists>cl post. es = cl @ post \<and> act_effects policy dep strategy unhealthy spec now cl \<and>
       (\<forall>e \<in> set post. \<not> is_mutation e) \<and> x \<noteq> Inl Panic)"
proof -
  have "yields I (case x of Inl a \<Rightarrow> State_Monad.return (Inl a)
      | Inr actedPod \<Rightarrow> do {
          policy \<leftarrow> report_remediation r policy actedPod strategy (DryRun spec) now;
          State_Monad.return (Inr policy) })
      (\<lambda>y es. (\<forall>e \<in> set es. \<not> is_mutation e) \<and> y \<noteq> Inl Panic)"
    if "x \<noteq> Inl Panic" for x
    using that by (auto simp: report_remediation_def Let_def intro!: emits_intros)
  then show ?thesis
    unfolding remediate_def
    by (intro yields_mono [OF yields_seq [OF act_yields [OF assms]]]) blast+
qed

lemma decide_yields:
  assumes "length snapshot < 2 ^ 31"
  shows "yields I (decide r nn policy cfg dep snapshot now)
    (\<lambda>x es. x \<noteq> Inl Panic \<and>
       ((\<forall>e \<in> set es. \<not> is_mutation e) \<or>
        (\<exists>strategy pre cl post. verdict_of policy dep snapshot now = Remediate strategy \<and>
           es = pre @ cl @ post \<and> (\<forall>e \<in> set pre \<union> set post. \<not> is_mutation e) \<and>
           act_effects policy dep strategy (unhealthy_of snapshot) (Remediation (pol_Spec policy)) now cl)))"
    (is "yields I _ ?Q")
proof -
  have finished: "yields I (finish r p res)
      (\<lambda>x es. x \<noteq> Inl Panic \<and> (\<forall>e \<in> set es. \<not> is_mutation e))" for p res
    by (auto intro!: emits_intros split: option.splits)
  show ?thesis
  proof (cases "verdict_of policy dep snapshot now")
    case (Remediate strategy)
    then have ne: "unhealthy_of snapshot \<noteq> []" by (simp add: verdict_Remediate_iff)
    have "yields I (perform r nn policy cfg dep snapshot now (Remediate strategy)) ?Q"
      unfolding perform_def Let_def verdict.case
    proof (rule yields_mono [OF yields_seq [OF remediate_yields [OF ne]]])
      show "yields I (case x of Inl a \<Rightarrow> State_Monad.return (Inl a)
              | Inr policy \<Rightarrow> finish r policy (after (Period cfg)))
            (\<lambda>y es. y \<noteq> Inl Panic \<and> (\<forall>e \<in> set es. \<not> is_mutation e))"
        if "\<exists>cl post. es = cl @ post \<and> act_effects policy dep strategy (unhealthy_of snapshot)
              (Remediation (pol_Spec policy)) now cl \<and>
            (\<forall>e \<in> set post. \<not> is_mutation e) \<and> x \<noteq> Inl Panic" for x es
        using that finished by (auto intro!: emits_intros split: sum.split)
    next
      fix y :: "abort + Result" and es
      assume "\<exists>x es1 es2. es = es1 @ es2 \<and>
        (\<exists>cl post. es1 = cl @ post \<and> act_effects policy dep strategy (unhealthy_of snapshot)
              (Remediation (pol_Spec policy)) now cl \<and>
            (\<forall>e \<in> set post. \<not> is_mutation e) \<and> x \<noteq> Inl Panic) \<and>
        y \<noteq> Inl Panic \<and> (\<forall>e \<in> set es2. \<not> is_mutation e)"
      then obtain es2 cl post where "es = [] @ cl @ (post @ es2)"
        "\<forall>e \<in> set [] \<union> set (post @ es2). \<not> is_mutation e"
        "act_effects policy dep strategy (unhealthy_of snapshot) (Remediation (pol_Spec policy)) now cl"
        "y \<noteq> Inl Panic"
        by force
      with Remediate show "?Q y es" by blast
    qed
    then show ?thesis by (simp add: decide_verdict [OF assms] Remediate)
  qed (simp_all add: decide_verdict [OF assms] perform_def Let_def,
       auto intro!: emits_intros split: option.splits)
qed

section \<open>Observing the pods\<close>

lemma run_mark_ready:
  "run_state (mark_ready r nn pods) s = ((), s\<lparr>prober := ready_marks (r_Prober r) nn pods (prober s)\<rparr>)"
  by (induction pods arbitrary: s) (auto simp: ready_marks_def on_prober_def)

lemma run_observe:
  "run_state (observe r nn cfg pods) s =
     (case ps_Snapshot (r_Prober r) nn
             (ready_marks (r_Prober r) nn pods
               (ps_Sync (r_Prober r) nn cfg (probe_targets pods) (prober s))) of
        (snapshot, p) \<Rightarrow> (snapshot, s\<lparr>prober := p\<rparr>))"
  by (simp add: observe_def on_prober_def run_mark_ready read_prober_def)

lemma seen_identity_idem [simp]: "seen_identity (seen_identity i) = seen_identity i"
  by (cases i) (simp add: seen_identity_def)

context probe_source
begin

lemma ready_marks_inv: "inv p \<Longrightarrow> inv (ready_marks ps nn pods p)"
  by (induction pods arbitrary: p) (simp_all add: ready_marks_def inv_SetSeenReady)

lemma ready_marks_view:
  "inv p \<Longrightarrow> view nn (ready_marks ps nn pods p) u =
     (if \<exists>q \<in> set pods. isPodReady q \<and> pod_UID q = u then map_option seen_identity (view nn p u)
      else view nn p u)"
proof (induction pods arbitrary: p)
  case Nil
  then show ?case by (simp add: ready_marks_def)
next
  case (Cons q pods)
  let ?p = "if isPodReady q then ps_SetSeenReady ps nn (pod_UID q) p else p"
  have "inv ?p" using Cons.prems by (simp add: inv_SetSeenReady)
  moreover have "ready_marks ps nn (q # pods) p = ready_marks ps nn pods ?p"
    by (simp add: ready_marks_def)
  ultimately show ?case
    using Cons.IH [of ?p] Cons.prems
    by (auto simp: view_SetSeenReady option.map_comp comp_def)
qed

text \<open>The snapshot after synchronising: the listed pods, and who has been seen Ready.\<close>

lemma observed_snapshot:
  assumes "inv p"
    and p'_def: "p' = ready_marks ps nn pods (ps_Sync ps nn cfg (probe_targets pods) p)"
  shows "snapshot_of_pods pods (fst (ps_Snapshot ps nn p'))"
    and "s \<in> set (fst (ps_Snapshot ps nn p')) \<Longrightarrow> SeenReady s \<Longrightarrow>
      (\<exists>q \<in> set pods. isPodReady q \<and> pod_UID q = PodUID s) \<or>
      (\<exists>n ip. view nn p (PodUID s) = Some (n, ip, True))"
proof -
  let ?ts = "probe_targets pods"
  let ?snap = "fst (ps_Snapshot ps nn p')"
  have inv1: "inv (ps_Sync ps nn cfg ?ts p)" using assms(1) by (rule inv_Sync)
  have inv': "inv p'" unfolding p'_def by (rule ready_marks_inv [OF inv1])
  have view': "view nn p' u =
      (if \<exists>q \<in> set pods. isPodReady q \<and> pod_UID q = u
       then map_option seen_identity (synced_identity (view nn p) ?ts u)
       else synced_identity (view nn p) ?ts u)" for u
    unfolding p'_def ready_marks_view [OF inv1] view_Sync [OF assms(1)] by (rule refl)
  have dom': "dom (view nn p') = t_UID ` set ?ts"
    by (auto simp: dom_def view' synced_identity_def seen_identity_def dom_desired_map [symmetric]
          split: option.splits if_splits)
  have src: "\<exists>t. desired_map ?ts (PodUID s) = Some t \<and> t_Name t = PodName s \<and> t_IP t = PodIP s \<and>
      (SeenReady s \<longrightarrow> (\<exists>q \<in> set pods. isPodReady q \<and> pod_UID q = PodUID s) \<or>
        (\<exists>n ip. view nn p (PodUID s) = Some (n, ip, True)))" if "s \<in> set ?snap" for s
    using Snapshot_identity [OF inv' that]
    by (auto simp: view' synced_identity_def identity_of_def seen_identity_def
          split: option.splits if_splits)
  show "snapshot_of_pods pods ?snap"
    unfolding snapshot_of_pods_def
  proof (intro conjI ballI)
    show "distinct (map PodUID ?snap)" by (rule Snapshot_distinct [OF inv'])
    show "PodUID ` set ?snap = pod_UID ` {p \<in> set pods. IsZeroPtr (pod_DeletionTimestamp p)}"
      by (simp add: Snapshot_uids [OF inv'] dom' probe_targets_def image_image pod_target_def)
    fix s assume "s \<in> set ?snap"
    from src [OF this] obtain t where "t \<in> set ?ts" "t_UID t = PodUID s" "t_Name t = PodName s" "t_IP t = PodIP s"
      using desired_map_Some by blast
    then show "\<exists>p \<in> set pods. IsZeroPtr (pod_DeletionTimestamp p) \<and> pod_UID p = PodUID s \<and>
        pod_Name p = PodName s \<and> pod_PodIP p = PodIP s"
      by (auto simp: probe_targets_def pod_target_def)
  qed
  show "(\<exists>q \<in> set pods. isPodReady q \<and> pod_UID q = PodUID s) \<or>
      (\<exists>n ip. view nn p (PodUID s) = Some (n, ip, True))"
    if "s \<in> set ?snap" and "SeenReady s"
    using src [OF that(1)] that(2) by blast
qed

text \<open>A pod counts as seen Ready exactly if it is Ready in this list or was seen Ready before.\<close>

lemma observed_seen_iff:
  assumes ps: "r_Prober r = ps" and I: "inv (prober s)"
    and run: "run_state (observe r nn cfg pods) s = (snapshot, s')" and t: "t \<in> set snapshot"
  shows "SeenReady t \<longleftrightarrow>
    (\<exists>q \<in> set pods. isPodReady q \<and> pod_UID q = PodUID t) \<or>
    (\<exists>n ip. view nn (prober s) (PodUID t) = Some (n, ip, True))"
proof -
  let ?ts = "probe_targets pods"
  let ?p1 = "ps_Sync ps nn cfg ?ts (prober s)"
  let ?p = "ready_marks ps nn pods ?p1"
  have inv1: "inv ?p1" using I by (rule inv_Sync)
  have inv': "inv ?p" by (rule ready_marks_inv [OF inv1])
  have "t \<in> set (fst (ps_Snapshot ps nn ?p))"
    using run t by (auto simp: run_observe ps split: prod.splits)
  then have "view nn ?p (PodUID t) = Some (identity_of t)" by (rule Snapshot_identity [OF inv'])
  then show ?thesis
    unfolding ready_marks_view [OF inv1] view_Sync [OF I] synced_identity_def
    by (auto simp: identity_of_def seen_identity_def split: option.splits if_splits)
qed

lemma observe_yields:
  assumes "r_Prober r = ps"
  shows "yields inv (observe r nn cfg pods) (\<lambda>snapshot es. es = [] \<and> snapshot_of_pods pods snapshot)"
proof (rule yieldsI)
  fix s x s'
  assume I: "inv (prober s)" and run: "run_state (observe r nn cfg pods) s = (x, s')"
  let ?p = "ready_marks ps nn pods (ps_Sync ps nn cfg (probe_targets pods) (prober s))"
  have "inv ?p" using I by (intro ready_marks_inv inv_Sync)
  moreover have "x = fst (ps_Snapshot ps nn ?p)" "s' = s\<lparr>prober := snd (ps_Snapshot ps nn ?p)\<rparr>"
    using run by (auto simp: run_observe assms split: prod.splits)
  ultimately show "inv (prober s') \<and> (\<exists>es. trace s' = trace s @ es \<and> es = [] \<and> snapshot_of_pods pods x)"
    using observed_snapshot(1) [OF I refl] inv_Snapshot by simp
qed

end

section \<open>The whole handler\<close>

text \<open>The API server lists fewer than two billion pods.\<close>

definition short_lists :: "('w, 'p) HotSwapPolicyReconciler \<Rightarrow> bool" where
  "short_lists r \<longleftrightarrow>
     (\<forall>ns sel w pods. fst (cl_ListPods (r_Client r) ns sel w) = Inr pods \<longrightarrow> length pods < 2 ^ 31)"

definition quiet_end :: "(abort + Result) \<Rightarrow> effect list \<Rightarrow> bool" where
  "quiet_end x es \<longleftrightarrow> x \<noteq> Inl Panic \<and> (\<forall>e \<in> set es. \<not> is_mutation e)"

definition safe_end ::
  "('w, 'p) HotSwapPolicyReconciler \<Rightarrow> NamespacedName \<Rightarrow> 'p \<Rightarrow> (abort + Result) \<Rightarrow> effect list \<Rightarrow> bool" where
  "safe_end r nn p x es \<longleftrightarrow> x \<noteq> Inl Panic \<and> cluster_effects r nn p es"

lemma quiet_safe: "quiet_end x es \<Longrightarrow> safe_end r nn p x es"
  by (simp add: quiet_end_def safe_end_def cluster_effects_def)

lemma quiet_end_Inl_Err [simp]: "quiet_end (Inl (Err err)) [] "
  by (simp add: quiet_end_def)

lemma quiet_end_Inr [simp]: "quiet_end (Inr res) []"
  by (simp add: quiet_end_def)

lemma yields_finish_quiet: "yields I (finish r policy res) quiet_end"
  by (auto simp: quiet_end_def intro!: emits_intros split: option.splits)

lemma yields_finish_safe: "yields I (finish r policy res) (safe_end r' nn p)"
  by (rule yields_mono [OF yields_finish_quiet quiet_safe])

text \<open>Quiet effects before a safe end.\<close>

lemma safe_end_prefix:
  assumes "\<forall>e \<in> set es0. \<not> is_mutation e" and "safe_end r nn p x es"
  shows "safe_end r nn p x (es0 @ es)"
proof -
  from assms(2) have x: "x \<noteq> Inl Panic" and c: "cluster_effects r nn p es"
    by (simp_all add: safe_end_def)
  from c have "cluster_effects r nn p (es0 @ es)"
  proof (unfold cluster_effects_def [of r nn p es], elim disjE exE conjE)
    assume "\<forall>e \<in> set es. \<not> is_mutation e"
    then show ?thesis using assms(1) by (auto simp: cluster_effects_def)
  next
    fix policy dep pods snapshot now strategy pre cl post
    assume r: "remediation_run r nn p policy dep pods snapshot now strategy"
      "act_effects policy dep strategy (unhealthy_of snapshot) (Remediation (pol_Spec policy)) now cl"
      and es: "es = pre @ cl @ post" "\<forall>e \<in> set pre \<union> set post. \<not> is_mutation e"
    have "es0 @ es = (es0 @ pre) @ cl @ post" "\<forall>e \<in> set (es0 @ pre) \<union> set post. \<not> is_mutation e"
      using es assms(1) by auto
    with r show ?thesis unfolding cluster_effects_def by blast
  qed
  with x show ?thesis by (simp add: safe_end_def)
qed

lemma safe_end_prefix1: "\<not> is_mutation e \<Longrightarrow> safe_end r nn p x es \<Longrightarrow> safe_end r nn p x (e # es)"
  using safe_end_prefix [of "[e]"] by simp

lemma verdict_safe_end:
  assumes "remediation_run r nn p policy dep pods snapshot now strategy"
    and "es = pre @ cl @ post" "\<forall>e \<in> set pre \<union> set post. \<not> is_mutation e"
    and "act_effects policy dep strategy (unhealthy_of snapshot) (Remediation (pol_Spec policy)) now cl"
    and "x \<noteq> Inl Panic"
  shows "safe_end r nn p x es"
  unfolding safe_end_def cluster_effects_def using assms by blast

context probe_source
begin

text \<open>Observing the pods from a known state gives the snapshot that \<open>seen_snapshot\<close> defines.\<close>

lemma yields_from_observe:
  assumes ps: "r_Prober r = ps" and I: "inv p"
    and rest: "\<And>snapshot. snapshot = seen_snapshot r nn cfg pods p \<Longrightarrow> snapshot_of_pods pods snapshot \<Longrightarrow>
      yields inv (g snapshot) Q"
  shows "yields_from p inv (State_Monad.bind (observe r nn cfg pods) g) Q"
proof (rule yields_fromI)
  fix s x s'
  assume p: "prober s = p" and run: "run_state (State_Monad.bind (observe r nn cfg pods) g) s = (x, s')"
  let ?p = "ready_marks ps nn pods (ps_Sync ps nn cfg (probe_targets pods) p)"
  let ?snap = "seen_snapshot r nn cfg pods p" and ?s = "s\<lparr>prober := snd (ps_Snapshot ps nn ?p)\<rparr>"
  have snap: "?snap = fst (ps_Snapshot ps nn ?p)" by (simp add: seen_snapshot_def ps)
  have "run_state (observe r nn cfg pods) s = (?snap, ?s)"
    by (simp add: run_observe ps p snap split: prod.split)
  with run have g: "run_state (g ?snap) ?s = (x, s')" by simp
  have "snapshot_of_pods pods ?snap" unfolding snap by (rule observed_snapshot(1) [OF I refl])
  moreover have "inv (prober ?s)" using I by (simp add: inv_Snapshot ready_marks_inv inv_Sync)
  ultimately show "inv (prober s') \<and> (\<exists>es. trace s' = trace s @ es \<and> Q x es)"
    using yieldsD [OF rest [OF refl] _ g] by fastforce
qed

lemma reconcilePods_yields:
  assumes ps: "r_Prober r = ps" and I: "inv p" and short: "short_lists r"
    and circumstances: "\<And>pods snapshot now strategy.
      (\<exists>w sel. k_LabelSelectorAsSelector (r_lib r) (dep_Selector dep) = Inr sel \<and>
         fst (cl_ListPods (r_Client r) (nn_Namespace nn) sel w) = Inr pods) \<Longrightarrow>
      snapshot = seen_snapshot r nn cfg pods p \<Longrightarrow> snapshot_of_pods pods snapshot \<Longrightarrow>
      (\<exists>w. fst (r_Now r w) = now) \<Longrightarrow> verdict_of policy dep snapshot now = Remediate strategy \<Longrightarrow>
      remediation_run r nn p policy dep pods snapshot now strategy"
  shows "yields_from p inv (reconcilePods r nn policy cfg dep) (safe_end r nn p)"
  unfolding reconcilePods_def
proof (rule yields_from_case_sum, rule from_yields [where I = inv and ?p0.0 = p, OF yields_finish_safe I], rule yields_from_ask,
    rule yields_from_case_sum)
  fix sel w err
  show "yields_from p inv (State_Monad.return (Inl (Err err))) (safe_end r nn p)"
    by (rule from_yields [where I = inv and ?p0.0 = p, OF _ I], intro emits_intros) (simp add: quiet_safe)
next
  fix sel w pods
  assume sel: "k_LabelSelectorAsSelector (r_lib r) (dep_Selector dep) = Inr sel"
    and pods: "fst (cl_ListPods (r_Client r) (nn_Namespace nn) sel w) = Inr pods"
  have dec: "yields inv (decide r nn (policy\<lparr>pol_Status := (pol_Status policy)\<lparr>Targets := ts\<rparr>\<rparr>)
      cfg dep snapshot now) (safe_end r nn p)"
    if snap: "snapshot = seen_snapshot r nn cfg pods p" "snapshot_of_pods pods snapshot"
      and now: "\<exists>w. fst (r_Now r w) = now" for snapshot now ts
  proof -
    have "length pods < 2 ^ 31" using short pods by (simp add: short_lists_def)
    with snapshot_of_pods_length [OF snap(2)] have "length snapshot < 2 ^ 31" by (rule le_less_trans)
    from decide_yields [OF this] show ?thesis
    proof (rule yields_mono, elim conjE disjE exE)
      fix x :: "abort + Result" and es
      assume "x \<noteq> Inl Panic" "\<forall>e \<in> set es. \<not> is_mutation e"
      then show "safe_end r nn p x es" by (intro quiet_safe) (simp add: quiet_end_def)
    next
      fix x :: "abort + Result" and es strategy pre cl post
      assume a: "x \<noteq> Inl Panic" "es = pre @ cl @ post" "\<forall>e \<in> set pre \<union> set post. \<not> is_mutation e"
        and v: "verdict_of (policy\<lparr>pol_Status := (pol_Status policy)\<lparr>Targets := ts\<rparr>\<rparr>) dep snapshot now =
            Remediate strategy"
        and act: "act_effects (policy\<lparr>pol_Status := (pol_Status policy)\<lparr>Targets := ts\<rparr>\<rparr>) dep strategy
            (unhealthy_of snapshot)
            (Remediation (pol_Spec (policy\<lparr>pol_Status := (pol_Status policy)\<lparr>Targets := ts\<rparr>\<rparr>))) now cl"
      have "remediation_run r nn p policy dep pods snapshot now strategy"
        using circumstances [OF _ snap now] v sel pods by auto
      then show "safe_end r nn p x es"
        by (rule verdict_safe_end) (use a act in auto)
    qed
  qed
  have gauged: "yields inv (decide r nn (policy\<lparr>pol_Status := (pol_Status policy)\<lparr>Targets := ts\<rparr>\<rparr>)
      cfg dep snapshot now) (\<lambda>y es. safe_end r nn p y (GaugeSet c vs i # GaugeSet c' vs' i' # es))"
    if "snapshot = seen_snapshot r nn cfg pods p" "snapshot_of_pods pods snapshot" "\<exists>w. fst (r_Now r w) = now"
    for snapshot now ts c vs i c' vs' i'
    by (rule yields_mono [OF dec [OF that]]) (simp add: safe_end_prefix1)
  show "yields_from p inv (do {
      snapshot \<leftarrow> observe r nn cfg pods;
      let policy = policy\<lparr>pol_Status := (pol_Status policy)\<lparr>Targets := toTargetHealth snapshot\<rparr>\<rparr>;
      _ \<leftarrow> emit (GaugeSet TargetsTotal [nn_Namespace nn, nn_Name nn] (int (length snapshot)));
      _ \<leftarrow> emit (GaugeSet TargetsHealthy [nn_Namespace nn, nn_Name nn] (int (healthy_count snapshot)));
      now \<leftarrow> ask (r_Now r);
      decide r nn policy cfg dep snapshot now }) (safe_end r nn p)"
    unfolding Let_def
    by (rule yields_from_observe [OF ps I]) (auto intro!: emits_intros gauged)
qed

lemma reconcileTarget_yields:
  assumes ps: "r_Prober r = ps" and I: "inv p" and short: "short_lists r"
    and got: "\<exists>w. fst (cl_GetPolicy (r_Client r) nn w) = Inr policy"
    and live: "IsZeroPtr (pol_DeletionTimestamp policy)"
    and fin: "k_ContainsFinalizer (r_lib r) (pol_Finalizers policy) finalizerName"
    and cfg: "normalizeProbe (HotswapProbe (pol_Spec policy)) = Inr cfg"
  shows "yields_from p inv (reconcileTarget r nn policy cfg) (safe_end r nn p)"
proof -
  have stop: "yields inv (State_Monad.bind (on_prober (ps_Forget (r_Prober r) nn)) (\<lambda>_. finish r q res))
      (safe_end r nn p)" for q res
    by (intro emits_intros yields_mono [OF yields_finish_safe]) (simp_all add: ps inv_Forget)
  have err: "yields_from p inv (State_Monad.return (Inl (Err e))) (safe_end r nn p)" for e
    by (rule from_yields [where I = inv and ?p0.0 = p, OF _ I], rule yields_return) (simp add: quiet_safe)
  have pods: "yields_from p inv (reconcilePods r nn policy cfg dep) (safe_end r nn p)"
    if "\<exists>w. fst (cl_GetDeployment (r_Client r)
          \<lparr>nn_Namespace = nn_Namespace nn, nn_Name = tr_Name (TargetRef (pol_Spec policy))\<rparr> w) = Inr dep"
      and "\<exists>w items. fst (cl_ListPolicies (r_Client r) (pol_Namespace policy) w) = Inr items \<and>
          conflicting_winner policy items = ''''" for dep
    by (rule reconcilePods_yields [OF ps I short])
      (use that got live fin cfg in \<open>auto simp: remediation_run_def target_of_def\<close>)
  have choice: "yields_from p inv (case conflict of Inl e \<Rightarrow> State_Monad.return (Inl (Err e))
        | Inr winner \<Rightarrow> if winner \<noteq> '''' then State_Monad.bind (on_prober (ps_Forget (r_Prober r) nn))
              (\<lambda>_. finish r (q winner) res)
            else reconcilePods r nn policy cfg dep) (safe_end r nn p)"
    if "conflict = Inr '''' \<Longrightarrow> yields_from p inv (reconcilePods r nn policy cfg dep) (safe_end r nn p)"
    for conflict q res dep
    using that by (auto intro!: yields_from_case_sum err from_yields [where I = inv and ?p0.0 = p, OF stop I])
  show ?thesis
    unfolding reconcileTarget_def Let_def conflictingPolicy_def
  proof (rule yields_from_ask, rule yields_from_case_sum)
    fix w e
    show "yields_from p inv (if IsNotFound e then State_Monad.bind (on_prober (ps_Forget (r_Prober r) nn))
          (\<lambda>_. finish r (setDegraded r policy ReasonTargetNotFound
            (''deployment '' @ quote (tr_Name (TargetRef (pol_Spec policy))) @ '' not found'')) (after (30 * Second)))
        else State_Monad.return (Inl (Err e))) (safe_end r nn p)"
      by (intro yields_from_if err from_yields [where I = inv and ?p0.0 = p, OF stop I])
  next
    fix w dep
    assume "fst (cl_GetDeployment (r_Client r)
          \<lparr>nn_Namespace = nn_Namespace nn, nn_Name = tr_Name (TargetRef (pol_Spec policy))\<rparr> w) = Inr dep"
    then show "yields_from p inv (do {
        conflict \<leftarrow> do {
          listed \<leftarrow> ask (cl_ListPolicies (r_Client r) (pol_Namespace policy));
          State_Monad.return
            (case listed of Inl err \<Rightarrow> Inl err | Inr items \<Rightarrow> Inr (conflicting_winner policy items)) };
        (case conflict of
             Inl err \<Rightarrow> State_Monad.return (Inl (Err err))
           | Inr winner \<Rightarrow>
               if winner \<noteq> '''' then do {
                 _ \<leftarrow> on_prober (ps_Forget (r_Prober r) nn);
                 finish r (setDegraded r policy ReasonConflictingPolic
                             (''deployment '' @ quote (tr_Name (TargetRef (pol_Spec policy))) @
                              '' already guarded by HotSwapPolicy '' @ quote winner))
                   (after Minute) }
               else reconcilePods r nn policy cfg dep) }) (safe_end r nn p)"
      unfolding State_Monad.bind_assoc State_Monad.bind_left_identity
      by (intro yields_from_ask choice pods) (auto split: sum.splits)
  qed
qed

lemma Reconcile_yields:
  assumes ps: "r_Prober r = ps" and I: "inv p" and short: "short_lists r"
  shows "yields_from p inv (Reconcile r nn) (safe_end r nn p)"
proof -
  have del: "yields inv (reconcileDeletion r nn policy) (safe_end r nn p)"
    and fin: "yields inv (reconcileFinalizer r policy) (safe_end r nn p)" for policy
    unfolding reconcileDeletion_def reconcileFinalizer_def Let_def
    by (intro emits_intros; auto simp: ps inv_Forget quiet_safe intro!: safe_end_prefix1 split: option.splits)+
  show ?thesis
    unfolding Reconcile_def
    by (intro from_intros from_yields [where I = inv and ?p0.0 = p, OF del I] from_yields [where I = inv and ?p0.0 = p, OF fin I]
        from_yields [where I = inv and ?p0.0 = p, OF yields_finish_safe I] reconcileTarget_yields [OF ps I short] from_yields [where I = inv and ?p0.0 = p, OF _ I])
      (auto simp: quiet_safe intro!: emits_intros)
qed

end

end
