(* ===== verification/Goroutines.thy ===== *)
theory Goroutines
  imports ManagerOps
begin

text \<open>
  The probe loops of \<open>internal/prober/prober.go\<close> (\<open>run\<close> and \<open>probeOnce\<close>) as a step
  relation: any number of goroutines, each at a point of its loop, interleaved with each other
  at the lock operations, with the reconciler's calls, with the controller reading the event
  channel and with the shutdown of the manager. What a check answers and what the clock shows
  is up to the environment.
\<close>

section \<open>Points of the loop\<close>

text \<open>
  \<open>Delaying\<close>: waiting for the initial delay or the context. \<open>Probing\<close>: about to enter
  \<open>probeOnce\<close>. \<open>Checking\<close>: the request is in flight, with the configuration and address
  read before. \<open>Recording\<close>: the result is counted and about to be recorded. \<open>Sending\<close>: a
  transition is about to be sent. \<open>Waiting\<close>: for the ticker or the context. The duration is
  the period the ticker has.
\<close>

datatype pc =
    Entering
  | Delaying Duration
  | Probing Duration
  | Checking Duration ProbeConfig string
  | Recording Duration ProbeConfig bool gotime
  | Sending Duration
  | Waiting Duration
  | Returned

fun period_of :: "pc \<Rightarrow> Duration option" where
  "period_of Entering = None"
| "period_of (Delaying p) = Some p"
| "period_of (Probing p) = Some p"
| "period_of (Checking p _ _) = Some p"
| "period_of (Recording p _ _ _) = Some p"
| "period_of (Sending p) = Some p"
| "period_of (Waiting p) = Some p"
| "period_of Returned = None"

text \<open>The loops by the number of their context, and the samples of \<open>hotswap_probe_total\<close>.\<close>

record system =
  sm :: Manager
  loops :: "nat \<Rightarrow> pc"
  probeSamples :: "string list list"

definition initial_system :: system where
  "initial_system = \<lparr>sm = NewManager, loops = (\<lambda>_. Entering), probeSamples = []\<rparr>"

text \<open>The head of \<open>run\<close>: initial delay and period, read once when the goroutine starts.\<close>

definition run_start ::
  "(NamespacedName \<Rightarrow> string) \<Rightarrow> NamespacedName \<Rightarrow> Manager \<Rightarrow> (Duration \<times> Duration) option" where
  "run_start K nn m =
     (case policies m (K nn) of
        None \<Rightarrow> None
      | Some pe \<Rightarrow>
          Some (InitialDelay (pe_cfg pe),
                if Period (pe_cfg pe) \<le>s 0 then 10 * Second else Period (pe_cfg pe)))"

definition at :: "system \<Rightarrow> goroutine \<Rightarrow> pc \<Rightarrow> bool" where
  "at s g p \<longleftrightarrow> g \<in> set (spawned (sm s)) \<and> loops s (g_ctx g) = p"

definition goto :: "system \<Rightarrow> goroutine \<Rightarrow> pc \<Rightarrow> system" where
  "goto s g p = s\<lparr>loops := (loops s)(g_ctx g := p)\<rparr>"

section \<open>Steps\<close>

inductive step :: "(NamespacedName \<Rightarrow> string) \<Rightarrow> system \<Rightarrow> system \<Rightarrow> bool"
  for K :: "NamespacedName \<Rightarrow> string" where
  enter_gone: "at s g Entering \<Longrightarrow> run_start K (g_nn g) (sm s) = None \<Longrightarrow>
     step K s (goto s g Returned)"
| enter_delay: "at s g Entering \<Longrightarrow> run_start K (g_nn g) (sm s) = Some (d, p) \<Longrightarrow> 0 <s d \<Longrightarrow>
     step K s (goto s g (Delaying p))"
| enter_probe: "at s g Entering \<Longrightarrow> run_start K (g_nn g) (sm s) = Some (d, p) \<Longrightarrow> \<not> 0 <s d \<Longrightarrow>
     step K s (goto s g (Probing p))"
| delay_over: "at s g (Delaying p) \<Longrightarrow> step K s (goto s g (Probing p))"
| delay_cancelled: "at s g (Delaying p) \<Longrightarrow> ctxDone (sm s) (g_ctx g) \<Longrightarrow>
     step K s (goto s g Returned)"
| read_gone: "at s g (Probing p) \<Longrightarrow> probe_read K (g_nn g) (g_uid g) (sm s) = None \<Longrightarrow>
     step K s (goto s g (Waiting p))"
| read: "at s g (Probing p) \<Longrightarrow> probe_read K (g_nn g) (g_uid g) (sm s) = Some (cfg, ip) \<Longrightarrow>
     step K s (goto s g (Checking p cfg ip))"
| checked: "at s g (Checking p cfg ip) \<Longrightarrow>
     step K s ((goto s g (Recording p cfg ok now))
       \<lparr>probeSamples := probeSamples s @ [probe_labels (g_nn g) ok]\<rparr>)"
| recorded: "at s g (Recording p cfg ok now) \<Longrightarrow>
     probe_record K (g_nn g) (g_uid g) cfg ok now (sm s) = (transitioned, m) \<Longrightarrow>
     step K s ((goto s g (if transitioned then Sending p else Waiting p))\<lparr>sm := m\<rparr>)"
| send: "at s g (Sending p) \<Longrightarrow> length (events (sm s)) < eventsCap \<Longrightarrow>
     step K s ((goto s g (Waiting p))\<lparr>sm := (sm s)\<lparr>events := events (sm s) @ [g_nn g]\<rparr>\<rparr>)"
| send_cancelled: "at s g (Sending p) \<Longrightarrow> ctxDone (sm s) (g_ctx g) \<Longrightarrow>
     step K s (goto s g (Waiting p))"
| tick: "at s g (Waiting p) \<Longrightarrow> step K s (goto s g (Probing p))"
| wait_cancelled: "at s g (Waiting p) \<Longrightarrow> ctxDone (sm s) (g_ctx g) \<Longrightarrow>
     step K s (goto s g Returned)"
| sync: "step K s (s\<lparr>sm := Sync K ord nn cfg ts (sm s)\<rparr>)"
| seen_ready: "step K s (s\<lparr>sm := SetSeenReady K nn u (sm s)\<rparr>)"
| forget: "step K s (s\<lparr>sm := Forget K ord nn (sm s)\<rparr>)"
| receive: "events (sm s) = e # es \<Longrightarrow> step K s (s\<lparr>sm := (sm s)\<lparr>events := es\<rparr>\<rparr>)"
| shutdown: "step K s (s\<lparr>sm := Start (sm s)\<rparr>)"

inductive reachable :: "(NamespacedName \<Rightarrow> string) \<Rightarrow> system \<Rightarrow> bool"
  for K :: "NamespacedName \<Rightarrow> string" where
  init: "reachable K initial_system"
| next_step: "reachable K s \<Longrightarrow> step K s t \<Longrightarrow> reachable K t"

section \<open>The invariant of the loops\<close>

lemma run_start_period: "run_start K nn m = Some (d, p) \<Longrightarrow> 0 < sint p"
  by (auto simp: run_start_def go_cmp Second_def split: option.splits if_splits)

text \<open>\<open>Sync\<close> only starts goroutines, and their contexts are new.\<close>

lemma spawned_add_pod: "\<exists>new. spawned (snd (add_pod nn d u st)) = spawned (snd st) @ new"
  by (cases st) (simp add: add_pod_def Let_def split: option.split)

lemma spawned_stop_pod: "spawned (snd (stop_pod d u st)) = spawned (snd st)"
  by (cases st) (simp add: stop_pod_def split: option.split)

lemma spawned_Sync: "\<exists>new. spawned (Sync K ord nn cfg ts m) = spawned m @ new"
proof -
  have add: "\<exists>new. spawned (snd (fold (add_pod nn d) us st)) = spawned (snd st) @ new" for d us st
  proof (induction us arbitrary: st)
    case (Cons u us)
    from spawned_add_pod [of nn d u st] Cons.IH [of "add_pod nn d u st"] show ?case by auto
  qed simp
  have stop: "spawned (snd (fold (stop_pod d) us st)) = spawned (snd st)" for d us st
    by (induction us arbitrary: st) (simp_all add: spawned_stop_pod)
  obtain pods m' where st: "sync_loops ord nn ts (old_pods m (K nn), m) = (pods, m')" by fastforce
  have "spawned (Sync K ord nn cfg ts m) = spawned (snd (sync_loops ord nn ts (old_pods m (K nn), m)))"
    by (simp add: Sync_commit st)
  then show ?thesis
    using add [of "desired_map ts" "keys_of ord (dom (desired_map ts))"
        "fold (stop_pod (desired_map ts)) (keys_of ord (dom (old_pods m (K nn)))) (old_pods m (K nn), m)"]
    by (simp add: sync_loops_def stop)
qed

lemma spawned_Sync_new:
  assumes wf: "wf_manager K m" and g: "g \<in> set (spawned (Sync K ord nn cfg ts m))"
  shows "g \<in> set (spawned m) \<or> nextCtx m \<le> g_ctx g"
proof -
  obtain new where new: "spawned (Sync K ord nn cfg ts m) = spawned m @ new"
    using spawned_Sync by blast
  let ?m = "Sync K ord nn cfg ts m"
  have ctxs: "map g_ctx (spawned ?m) = [0..<nextCtx ?m]" by (rule wf_spawned [OF wf_Sync [OF wf]])
  have len: "length (spawned m) = nextCtx m"
    using arg_cong [OF wf_spawned [OF wf], of length] by simp
  obtain i where i: "i < length (spawned ?m)" "spawned ?m ! i = g"
    using g by (meson in_set_conv_nth)
  have "g_ctx g = i"
    using arg_cong [OF ctxs, of "\<lambda>xs. xs ! i"] arg_cong [OF ctxs, of length] i by simp
  then show ?thesis
    using i len by (cases "i < length (spawned m)") (auto simp: new nth_append in_set_conv_nth)
qed

lemma nextCtx_Sync: "wf_manager K m \<Longrightarrow> nextCtx m \<le> nextCtx (Sync K ord nn cfg ts m)"
proof -
  assume wf: "wf_manager K m"
  obtain new where new: "spawned (Sync K ord nn cfg ts m) = spawned m @ new"
    using spawned_Sync by blast
  show ?thesis
    using arg_cong [OF wf_spawned [OF wf], of length]
      arg_cong [OF wf_spawned [OF wf_Sync [OF wf]], of length] new
    by (metis length_append length_map length_upt le_add1 minus_nat.diff_0)
qed

lemma Sync_frame:
  "events (Sync K ord nn cfg ts m) = events m" "rootCancelled (Sync K ord nn cfg ts m) = rootCancelled m"
  using sync_loops_frame [of m ord nn ts "old_pods m (K nn)"]
  by (cases "sync_loops ord nn ts (old_pods m (K nn), m)";
      simp add: Sync_commit commit_def same_frame_def)+

text \<open>
  The manager's invariant; the channel within its capacity; a positive period wherever there
  is a ticker; a loop has returned only if its context is done.
\<close>

definition system_inv :: "(NamespacedName \<Rightarrow> string) \<Rightarrow> system \<Rightarrow> bool" where
  "system_inv K s \<longleftrightarrow>
     wf_manager K (sm s) \<and>
     length (events (sm s)) \<le> eventsCap \<and>
     (\<forall>c p. period_of (loops s c) = Some p \<longrightarrow> 0 < sint p) \<and>
     (\<forall>c \<ge> nextCtx (sm s). loops s c = Entering) \<and>
     (\<forall>g. at s g Returned \<longrightarrow> ctxDone (sm s) (g_ctx g))"

lemma system_inv_initial: "system_inv K initial_system"
  by (simp add: system_inv_def initial_system_def wf_NewManager, simp add: NewManager_def at_def)

text \<open>A loop moves to \<open>p\<close>, the bookkeeping of contexts stays.\<close>

lemma system_inv_move:
  assumes inv: "system_inv K s" and g: "g \<in> set (spawned (sm s))"
    and wf: "wf_manager K (sm t)"
    and same: "spawned (sm t) = spawned (sm s)" "nextCtx (sm t) = nextCtx (sm s)"
      "cancelled (sm t) = cancelled (sm s)" "rootCancelled (sm t) = rootCancelled (sm s)"
    and ev: "length (events (sm t)) \<le> eventsCap"
    and lp: "loops t = (loops s)(g_ctx g := p)"
    and per: "\<And>q. period_of p = Some q \<Longrightarrow> 0 < sint q"
    and ret: "p = Returned \<Longrightarrow> ctxDone (sm s) (g_ctx g)"
  shows "system_inv K t"
proof -
  have "g_ctx g < nextCtx (sm s)"
    using inv g wf_ctx_less by (auto simp: system_inv_def)
  then have "\<forall>c \<ge> nextCtx (sm t). loops t c = Entering"
    using inv by (auto simp: system_inv_def lp same)
  moreover have "\<forall>c q. period_of (loops t c) = Some q \<longrightarrow> 0 < sint q"
    using inv per by (auto simp: system_inv_def lp)
  moreover have "\<forall>g'. at t g' Returned \<longrightarrow> ctxDone (sm t) (g_ctx g')"
    using inv ret by (auto simp: system_inv_def at_def lp same ctxDone_def split: if_splits)
  ultimately show ?thesis using wf ev by (simp add: system_inv_def)
qed

text \<open>The manager changes, no loop moves; contexts are only added and cancelled.\<close>

lemma system_inv_manager:
  assumes inv: "system_inv K s" and wf: "wf_manager K m"
    and ctx: "nextCtx (sm s) \<le> nextCtx m" "cancelled (sm s) \<subseteq> cancelled m"
      "rootCancelled (sm s) \<Longrightarrow> rootCancelled m"
    and new: "\<And>g. g \<in> set (spawned m) \<Longrightarrow> g \<in> set (spawned (sm s)) \<or> nextCtx (sm s) \<le> g_ctx g"
    and ev: "length (events m) \<le> eventsCap"
  shows "system_inv K (s\<lparr>sm := m\<rparr>)"
proof -
  have "\<forall>g. at (s\<lparr>sm := m\<rparr>) g Returned \<longrightarrow> ctxDone m (g_ctx g)"
  proof (intro allI impI)
    fix g assume "at (s\<lparr>sm := m\<rparr>) g Returned"
    then have g: "g \<in> set (spawned m)" "loops s (g_ctx g) = Returned" by (simp_all add: at_def)
    then have "\<not> nextCtx (sm s) \<le> g_ctx g" using inv by (auto simp: system_inv_def)
    with new [OF g(1)] g(2) have "at s g Returned" by (simp add: at_def)
    then have "ctxDone (sm s) (g_ctx g)" using inv by (simp add: system_inv_def)
    then show "ctxDone m (g_ctx g)" using ctx by (auto simp: ctxDone_def)
  qed
  then show ?thesis using inv wf ev ctx(1) by (simp add: system_inv_def)
qed

lemma goto_fields [simp]:
  "sm (goto s g p) = sm s" "loops (goto s g p) = (loops s)(g_ctx g := p)"
  "probeSamples (goto s g p) = probeSamples s"
  by (simp_all add: goto_def)

lemma step_inv:
  assumes "step K s t" and inv: "system_inv K s"
  shows "system_inv K t"
proof -
  have wf: "wf_manager K (sm s)" and ev: "length (events (sm s)) \<le> eventsCap"
    using inv by (simp_all add: system_inv_def)
  have per: "0 < sint q" if "at s g p" "period_of p = Some q" for g p q
    using inv that by (auto simp: system_inv_def at_def)
  have stay: "system_inv K (goto s g p')"
    if "at s g p" "\<And>q. period_of p' = Some q \<Longrightarrow> 0 < sint q"
      "p' = Returned \<Longrightarrow> ctxDone (sm s) (g_ctx g)" for g p p'
    by (rule system_inv_move [OF inv, of g _ p']) (use that wf ev in \<open>auto simp: at_def\<close>)
  from assms(1) show ?thesis
  proof cases
    case (enter_gone g)
    have "g_ctx g \<in> cancelled (sm s)"
    proof (rule ccontr)
      assume "g_ctx g \<notin> cancelled (sm s)"
      with enter_gone(2) obtain pod where "entry_at (sm s) (K (g_nn g)) (g_uid g) = Some pod"
        using wf_goroutine [OF wf, of g] by (auto simp: at_def)
      with enter_gone(3) show False by (simp add: run_start_def entry_at_def split: option.splits)
    qed
    then show ?thesis unfolding enter_gone(1) by (intro stay [OF enter_gone(2)]) (simp_all add: ctxDone_def)
  next
    case (enter_delay g d p)
    then show ?thesis using stay [OF enter_delay(2), of "Delaying p"] run_start_period by auto
  next
    case (enter_probe g d p)
    then show ?thesis using stay [OF enter_probe(2), of "Probing p"] run_start_period by auto
  next
    case (delay_over g p)
    then show ?thesis using stay [OF delay_over(2), of "Probing p"] per [OF delay_over(2)] by simp
  next
    case (delay_cancelled g p)
    then show ?thesis using stay [OF delay_cancelled(2), of Returned] by simp
  next
    case (read_gone g p)
    then show ?thesis using stay [OF read_gone(2), of "Waiting p"] per [OF read_gone(2)] by simp
  next
    case (read g p cfg ip)
    then show ?thesis using stay [OF read(2), of "Checking p cfg ip"] per [OF read(2)] by simp
  next
    case (checked g p cfg ip ok now)
    have "system_inv K (goto s g (Recording p cfg ok now))"
      using stay [OF checked(2), of "Recording p cfg ok now"] per [OF checked(2)] by simp
    then show ?thesis unfolding checked(1) by (simp add: system_inv_def at_def)
  next
    case (recorded g p cfg ok now tr m)
    have m: "m = snd (probe_record K (g_nn g) (g_uid g) cfg ok now (sm s))" using recorded(3) by simp
    show ?thesis unfolding recorded(1)
      by (rule system_inv_move [OF inv, of g _ "if tr then Sending p else Waiting p"])
        (use recorded(2) per [OF recorded(2)] wf ev in
          \<open>auto simp: m at_def wf_probe_record split: if_splits\<close>)
  next
    case (send g p)
    have "wf_manager K ((sm s)\<lparr>events := events (sm s) @ [g_nn g]\<rparr>)"
      by (rule wf_cong [OF wf]) (simp_all add: entry_at_def fun_eq_iff)
    then show ?thesis unfolding send(1)
      by (intro system_inv_move [OF inv, of g _ "Waiting p"])
        (use send(2,3) per [OF send(2)] in \<open>auto simp: at_def\<close>)
  next
    case (send_cancelled g p)
    then show ?thesis using stay [OF send_cancelled(2), of "Waiting p"] per [OF send_cancelled(2)] by simp
  next
    case (tick g p)
    then show ?thesis using stay [OF tick(2), of "Probing p"] per [OF tick(2)] by simp
  next
    case (wait_cancelled g p)
    then show ?thesis using stay [OF wait_cancelled(2), of Returned] by simp
  next
    case (sync ord nn cfg ts)
    show ?thesis unfolding sync
      by (rule system_inv_manager [OF inv wf_Sync [OF wf]])
        (use nextCtx_Sync [OF wf] spawned_Sync_new [OF wf] ev in
          \<open>auto simp: cancelled_Sync [OF wf] Sync_frame\<close>)
  next
    case (seen_ready nn u)
    show ?thesis unfolding seen_ready
      by (rule system_inv_manager [OF inv wf_SetSeenReady [OF wf]]) (use ev in auto)
  next
    case (forget ord nn)
    show ?thesis unfolding forget
      by (rule system_inv_manager [OF inv wf_Forget [OF wf]])
        (use ev in \<open>auto simp: cancelled_Forget [OF wf]\<close>)
  next
    case (receive e es)
    have "wf_manager K ((sm s)\<lparr>events := es\<rparr>)"
      by (rule wf_cong [OF wf]) (simp_all add: entry_at_def fun_eq_iff)
    then show ?thesis unfolding receive(1)
      by (intro system_inv_manager [OF inv]) (use receive(2) ev in auto)
  next
    case shutdown
    have "wf_manager K ((sm s)\<lparr>rootCancelled := True\<rparr>)"
      by (rule wf_cong [OF wf]) (simp_all add: entry_at_def fun_eq_iff)
    then show ?thesis unfolding shutdown Start_def
      by (intro system_inv_manager [OF inv]) (use ev in auto)
  qed
qed

lemma reachable_inv: "reachable K s \<Longrightarrow> system_inv K s"
  by (induction rule: reachable.induct) (auto intro: system_inv_initial step_inv)

inductive_cases initial_stepE: "step K initial_system t"
inductive_simps reachable_simps: "reachable K s"

end
