(* ===== verification/Watch.thy ===== *)
theory Watch
  imports Reconciler
begin

text \<open>
  The watch handlers of \<open>internal/controller/hotswappolicy_controller.go\<close>: which policies are
  reconciled when a Deployment or a Pod changes. A Pod is walked to its Deployment through its
  owner references; the policies are those of the namespace that target the name found.
\<close>

text \<open>A watched \<open>client.Object\<close>: a Pod, or an object of another type.\<close>

datatype watched = PodObject Pod | OtherObject string string

fun obj_Namespace :: "watched \<Rightarrow> string" where
  "obj_Namespace (PodObject p) = pod_Namespace p"
| "obj_Namespace (OtherObject ns name) = ns"

fun obj_Name :: "watched \<Rightarrow> string" where
  "obj_Name (PodObject p) = pod_Name p"
| "obj_Name (OtherObject ns name) = name"

text \<open>The loop over \<open>list.Items\<close>.\<close>

fun requests_for :: "string \<Rightarrow> string \<Rightarrow> HotSwapPolicy list \<Rightarrow> NamespacedName list" where
  "requests_for ns name [] = []"
| "requests_for ns name (p # ps) =
     (if tr_Name (TargetRef (pol_Spec p)) = name
      then \<lparr>nn_Namespace = ns, nn_Name = pol_Name p\<rparr> # requests_for ns name ps
      else requests_for ns name ps)"

definition policiesForDeploymentName ::
  "('w, 'p) HotSwapPolicyReconciler \<Rightarrow> string \<Rightarrow> string \<Rightarrow> ('w, 'p, NamespacedName list) action" where
  "policiesForDeploymentName r ns name = do {
     listed \<leftarrow> ask (cl_ListPolicies (r_Client r) ns);
     State_Monad.return (case listed of Inl _ \<Rightarrow> [] | Inr items \<Rightarrow> requests_for ns name items) }"

text \<open>The name of the first owner of a kind, or the empty string.\<close>

fun first_owner :: "string \<Rightarrow> OwnerReference list \<Rightarrow> string" where
  "first_owner kind [] = ''''"
| "first_owner kind (ref # refs) = (if or_Kind ref = kind then or_Name ref else first_owner kind refs)"

definition deploymentNameForPod ::
  "('w, 'p) HotSwapPolicyReconciler \<Rightarrow> Pod \<Rightarrow> ('w, 'p, string) action" where
  "deploymentNameForPod r pod =
     (let rsName = first_owner ''ReplicaSet'' (pod_OwnerReferences pod) in
      if rsName = '''' then State_Monad.return ''''
      else do {
        got \<leftarrow> ask (cl_GetReplicaSet (r_Client r)
                   \<lparr>nn_Namespace = pod_Namespace pod, nn_Name = rsName\<rparr>);
        State_Monad.return
          (case got of
             Inl _ \<Rightarrow> ''''
           | Inr rs \<Rightarrow> first_owner ''Deployment'' (rs_OwnerReferences rs)) })"

definition policiesForDeployment ::
  "('w, 'p) HotSwapPolicyReconciler \<Rightarrow> watched \<Rightarrow> ('w, 'p, NamespacedName list) action" where
  "policiesForDeployment r obj = policiesForDeploymentName r (obj_Namespace obj) (obj_Name obj)"

definition policiesForPod ::
  "('w, 'p) HotSwapPolicyReconciler \<Rightarrow> watched \<Rightarrow> ('w, 'p, NamespacedName list) action" where
  "policiesForPod r obj =
     (case obj of
        OtherObject _ _ \<Rightarrow> State_Monad.return []
      | PodObject pod \<Rightarrow> do {
          depName \<leftarrow> deploymentNameForPod r pod;
          (if depName = '''' then State_Monad.return []
           else policiesForDeploymentName r (pod_Namespace pod) depName) })"

section \<open>The loops in closed form\<close>

lemma requests_for_filter:
  "requests_for ns name items =
     map (\<lambda>p. \<lparr>nn_Namespace = ns, nn_Name = pol_Name p\<rparr>) (filter (\<lambda>p. target_of p = name) items)"
  by (induction items) (simp_all add: target_of_def)

lemma first_owner_first:
  "or_Kind ref = kind \<Longrightarrow> kind \<notin> or_Kind ` set pre \<Longrightarrow> first_owner kind (pre @ ref # post) = or_Name ref"
  by (induction pre) auto

end
