(* ===== verification/Scenario.thy ===== *)
theory Scenario
  imports ReconcileSafety Goroutines Watch
begin

text \<open>
  A small cluster for concrete evaluations: one policy on one Deployment with one pod that the
  prober has seen Ready and found failing. The API server answers from fixed objects; its world
  counts the deletions it was asked for, and a parameter says how each of them ends. The
  library functions are instantiated with their documented behaviour.
\<close>

section \<open>Names and objects\<close>

text \<open>\<open>NamespacedName.String()\<close>: namespace, slash, name.\<close>

definition exString :: "NamespacedName \<Rightarrow> string" where
  "exString nn = nn_Namespace nn @ ''/'' @ nn_Name nn"

definition exNN :: NamespacedName where
  "exNN = \<lparr>nn_Namespace = ''shop'', nn_Name = ''guard''\<rparr>"

definition exProbe :: Probe where
  "exProbe = \<lparr>HTTPGet = Some \<lparr>hg_Path = ''healthz'',
       hg_Port = \<lparr>ios_Type = IntType, IntVal = 8080, StrVal = ''''\<rparr>, hg_Host = '''', hg_Scheme = ''HTTP'',
       hg_HTTPHeaders = []\<rparr>,
     InitialDelaySeconds = 0, TimeoutSeconds = 0, PeriodSeconds = 5, p_SuccessThreshold = 0,
     p_FailureThreshold = 1\<rparr>"

definition exCfg :: ProbeConfig where
  "exCfg = \<lparr>Path = ''healthz'', Scheme = ''HTTP'', Port = 8080, Timeout = Second, Period = 5 * Second,
     InitialDelay = 0, SuccessThreshold = 1, FailureThreshold = 1, Headers = Map.empty\<rparr>"

definition exSpec :: RemediationSpec where
  "exSpec = \<lparr>Strategy = StrategyDeletePod, RequireStable = None, MaxConsecutiveAttempts = 3,
     CooldownSeconds = 600, MaxConcurrent = 1, SystemicFailureSkipPercent = 50, DryRun = False\<rparr>"

definition exStatus :: HotSwapPolicyStatus where
  "exStatus = \<lparr>ObservedGeneration = 1, Targets = [], LastRemediation = None, ConsecutiveAttempts = 0,
     Conditions = []\<rparr>"

definition exPolicy :: "RemediationSpec \<Rightarrow> HotSwapPolicy" where
  "exPolicy spec = \<lparr>pol_Namespace = ''shop'', pol_Name = ''guard'', pol_ResourceVersion = ''17'', pol_Generation = 2,
     pol_CreationTimestamp = Unix 1000, pol_DeletionTimestamp = None,
     pol_Finalizers = [finalizerName],
     pol_Spec = \<lparr>TargetRef = \<lparr>tr_APIVersion = ''apps/v1'', tr_Kind = ''Deployment'', tr_Name = ''web''\<rparr>,
                 HotswapProbe = exProbe, Remediation = spec\<rparr>,
     pol_Status = exStatus\<rparr>"

definition exDep :: Deployment where
  "exDep = \<lparr>dep_Namespace = ''shop'', dep_Name = ''web'', dep_Generation = 4, dep_Replicas = Some 1,
     dep_Selector = Some \<lparr>MatchLabels = Map.empty, MatchExpressions = []\<rparr>,
     ds_ObservedGeneration = 4, ds_Replicas = 1, ds_UpdatedReplicas = 1, ds_AvailableReplicas = 1,
     ds_UnavailableReplicas = 0, ds_Conditions = []\<rparr>"

definition exPod :: Pod where
  "exPod = \<lparr>pod_Namespace = ''shop'', pod_Name = ''web-1'', pod_UID = ''u1'',
     pod_DeletionTimestamp = None,
     pod_OwnerReferences = [\<lparr>or_Kind = ''ReplicaSet'', or_Name = ''web-rs''\<rparr>],
     pod_PodIP = ''10.0.0.7'', pod_Conditions = [\<lparr>pc_Type = PodReady, pc_Status = ConditionTrue\<rparr>]\<rparr>"

section \<open>The libraries\<close>

fun set_condition :: "Condition \<Rightarrow> Condition list \<Rightarrow> Condition list" where
  "set_condition c [] = [c]"
| "set_condition c (d # ds) =
     (if c_Type d = c_Type c then c # ds
      else d # set_condition c ds)"

definition exLib :: K8sLib where
  "exLib = \<lparr>k_ContainsFinalizer = (\<lambda>fs f. f \<in> set fs),
     k_AddFinalizer = (\<lambda>fs f. if f \<in> set fs then fs else fs @ [f]),
     k_RemoveFinalizer = (\<lambda>fs f. filter (\<lambda>g. g \<noteq> f) fs),
     k_SetStatusCondition = set_condition,
     k_RemoveStatusCondition = (\<lambda>ty cs. filter (\<lambda>c. c_Type c \<noteq> ty) cs),
     k_LabelSelectorAsSelector = (\<lambda>s. Inr (\<lambda>labels. s \<noteq> None))\<rparr>"

section \<open>The API server\<close>

definition exClient :: "HotSwapPolicy \<Rightarrow> (nat \<Rightarrow> api_error option) \<Rightarrow> nat Client" where
  "exClient policy del =
     \<lparr>cl_GetPolicy = (\<lambda>nn w. (if nn = exNN then Inr policy else Inl NotFound, w)),
      cl_GetDeployment = (\<lambda>nn w. (Inr exDep, w)),
      cl_GetReplicaSet = (\<lambda>nn w. (Inr \<lparr>rs_Name = nn_Name nn,
                             rs_OwnerReferences = [\<lparr>or_Kind = ''Deployment'', or_Name = ''web''\<rparr>]\<rparr>, w)),
      cl_ListPolicies = (\<lambda>ns w. (Inr [policy], w)),
      cl_ListPods = (\<lambda>ns sel w. (Inr [exPod], w)),
      cl_Update = (\<lambda>p w. (None, w)),
      cl_StatusUpdate = (\<lambda>p w. (None, w)),
      cl_PatchDeployment = (\<lambda>d patch w. (None, w)),
      cl_DeletePod = (\<lambda>ns name w. (del w, Suc w))\<rparr>"

definition exNow :: gotime where "exNow = Unix 1000000"

definition exReconciler ::
  "HotSwapPolicy \<Rightarrow> (nat \<Rightarrow> api_error option) \<Rightarrow> (nat, scheduled) HotSwapPolicyReconciler" where
  "exReconciler policy del =
     \<lparr>r_Client = exClient policy del, r_Prober = managerSource exString ascending,
      r_Now = (\<lambda>w. (exNow, w)), r_lib = exLib\<rparr>"

section \<open>The prober\<close>

text \<open>The manager after the pod was synchronised and one probe of it failed.\<close>

definition exManager :: Manager where
  "exManager = snd (probe_record exString exNN ''u1'' exCfg False exNow
     (Sync exString ascending exNN exCfg [pod_target exPod] NewManager))"

definition exState :: "(nat, scheduled) rstate" where
  "exState = \<lparr>world = 0, prober = \<lparr>mgr = exManager, sched = []\<rparr>, trace = []\<rparr>"

lemma exManager_wf: "wf_manager exString exManager"
  unfolding exManager_def by (intro wf_probe_record wf_Sync wf_NewManager)

lemma exState_inv: "managerInv exString (prober exState)"
  by (simp add: exState_def managerInv_def exManager_wf)

lemma exReconciler_prober: "r_Prober (exReconciler policy del) = managerSource exString ascending"
  by (simp add: exReconciler_def)

lemma exReconciler_short: "short_lists (exReconciler policy del)"
  by (simp add: short_lists_def exReconciler_def exClient_def)

section \<open>What the pieces evaluate to\<close>

definition exEntry :: podEntry where
  "exEntry = \<lparr>PodName = ''web-1'', PodUID = ''u1'', PodIP = ''10.0.0.7'', Healthy = False,
      ConsecutiveFailures = 1, ConsecutiveSuccesses = 0, SeenReady = False,
      LastProbe = exNow, LastTransition = exNow, started = True, cancel = Some 0\<rparr>"

definition exSeen :: podEntry where "exSeen = exEntry\<lparr>SeenReady := True\<rparr>"

definition exSnapshot :: "PodState list" where "exSnapshot = [PodState.truncate exSeen]"

definition exManagerSeen :: Manager where
  "exManagerSeen = NewManager\<lparr>policies := [''shop/guard'' \<mapsto>
       \<lparr>pe_cfg = exCfg, pe_pods = [''u1'' \<mapsto> exSeen]\<rparr>],
     nextCtx := 1, spawned := [\<lparr>g_ctx = 0, g_nn = exNN, g_uid = ''u1''\<rparr>]\<rparr>"

lemma normalize_exProbe: "normalizeProbe exProbe = Inr exCfg"
  by (simp add: normalizeProbe_def exProbe_def exCfg_def seconds_def threshold_def
      headers_map_def int64_of_def go_cmp Second_def)

lemma exManager_eval:
  "exManager = NewManager\<lparr>policies := [''shop/guard'' \<mapsto>
       \<lparr>pe_cfg = exCfg, pe_pods = [''u1'' \<mapsto> exEntry]\<rparr>],
     nextCtx := 1, spawned := [\<lparr>g_ctx = 0, g_nn = exNN, g_uid = ''u1''\<rparr>]\<rparr>"
  by (simp add: exManager_def exEntry_def Sync_def NewManager_def desired_map_def pod_target_def
      exPod_def exString_def exNN_def add_pod_def new_podEntry_def probe_record_def record_probe_def
      failure_of_def success_of_def exCfg_def Let_def go_cmp)

lemma ex_observe:
  "run_state (observe (exReconciler policy del) exNN exCfg [exPod]) (exState\<lparr>world := w\<rparr>) =
     (exSnapshot, exState\<lparr>world := w, prober := \<lparr>mgr = exManagerSeen, sched = []\<rparr>\<rparr>)"
  by (simp add: run_observe ready_marks_def exReconciler_def exState_def exManager_eval interfere_def
      probe_targets_def IsZeroPtr_def exPod_def pod_target_def exManagerSeen_def exSeen_def exEntry_def
      Let_def isPodReady_def Sync_def NewManager_def desired_map_def exString_def exNN_def add_pod_def
      stop_pod_def SetSeenReady_def Snapshot_def map_filter_simps PodState.truncate_def exSnapshot_def)

lemma ex_unhealthy: "unhealthy_of exSnapshot = exSnapshot"
  by (simp add: unhealthy_of_def exSnapshot_def exSeen_def exEntry_def)

lemma ex_verdict:
  "verdict_of (exPolicy (exSpec\<lparr>DryRun := d, MaxConsecutiveAttempts := n\<rparr>)) exDep exSnapshot exNow =
     Remediate StrategyDeletePod"
  by (simp add: verdict_of_def Let_def ex_unhealthy)
    (simp add: exPolicy_def exSpec_def exDep_def exSnapshot_def exStatus_def systemic_def deploymentStable_def
      progressDeadlineExceeded_def within_cooldown_def chooseStrategy_def)


end
