(* ===== verification/ReconcileSpec.thy ===== *)
theory ReconcileSpec
  imports Scenario
begin

text \<open>
  The functional specification of \<open>Reconcile\<close>, branch by branch: for given answers of the API
  server and of the clock, what the whole handler does.
\<close>

lemma run_ask: "run_state (ask f) s = (case f (world s) of (x, w) \<Rightarrow> (x, s\<lparr>world := w\<rparr>))"
  by (simp add: ask_def)

lemma run_emit: "run_state (emit e) s = ((), s\<lparr>trace := trace s @ [e]\<rparr>)"
  by (simp add: emit_def)

lemma run_on_prober: "run_state (on_prober f) s = ((), s\<lparr>prober := f (prober s)\<rparr>)"
  by (simp add: on_prober_def)

lemma run_Update:
  "run_state (Update r policy) s =
     (case cl_Update (r_Client r) policy (world s) of
        (e, w) \<Rightarrow> (e, s\<lparr>world := w, trace := trace s @ [PolicyUpdate policy e]\<rparr>))"
  by (simp add: Update_def run_ask run_emit split: prod.split)

lemma run_StatusUpdateCall:
  "run_state (StatusUpdateCall r policy) s =
     (case cl_StatusUpdate (r_Client r) policy (world s) of
        (e, w) \<Rightarrow> (e, s\<lparr>world := w, trace := trace s @ [StatusUpdate policy e]\<rparr>))"
  by (simp add: StatusUpdateCall_def run_ask run_emit split: prod.split)

lemma run_Delete:
  "run_state (Delete r ns name) s =
     (case cl_DeletePod (r_Client r) ns name (world s) of
        (e, w) \<Rightarrow> (e, s\<lparr>world := w, trace := trace s @ [PodDelete ns name e]\<rparr>))"
  by (simp add: Delete_def run_ask run_emit split: prod.split)

lemma run_Patch:
  "run_state (Patch r dep patch) s =
     (case cl_PatchDeployment (r_Client r) dep patch (world s) of
        (e, w) \<Rightarrow> (e, s\<lparr>world := w,
                     trace := trace s @ [DeploymentPatch (dep_Namespace dep) (dep_Name dep) patch e]\<rparr>))"
  by (simp add: Patch_def run_ask run_emit split: prod.split)

lemmas run_simps = run_ask run_emit run_on_prober run_Update run_StatusUpdateCall run_Delete run_Patch

lemma run_finish:
  "run_state (finish r policy res) s =
     (let p = policy\<lparr>pol_Status := (pol_Status policy)\<lparr>ObservedGeneration := pol_Generation policy\<rparr>\<rparr> in
      case cl_StatusUpdate (r_Client r) p (world s) of
        (e, w) \<Rightarrow> (case e of Some err \<Rightarrow> Inl (Err err) | None \<Rightarrow> Inr res,
                   s\<lparr>world := w, trace := trace s @ [StatusUpdate p e]\<rparr>))"
  by (simp add: finish_def run_simps Let_def split: prod.split)

lemma observe_frame:
  "run_state (observe r nn cfg pods) s = (snapshot, s') \<Longrightarrow> world s' = world s \<and> trace s' = trace s"
  by (auto simp: run_observe split: prod.splits)

text \<open>What follows the switch of \<open>remediate\<close>, as an update of status and trace.\<close>

lemma run_report_remediation:
  "run_state (report_remediation r policy actedPod strategy dryRun now) s =
     (let p = record_remediation policy actedPod strategy dryRun now;
          msg = remediation_msg (if dryRun then ''dry-run: would remediate'' else ''remediated'')
                  actedPod strategy (ConsecutiveAttempts (pol_Status p))
      in (setRemediating r p msg,
          s\<lparr>trace := trace s @
             [CounterInc (if dryRun then DryRunTotal else RemediationsTotal)
                [pol_Namespace policy, pol_Name policy, strategy],
              RecorderEvent EventTypeNormal (if dryRun then ReasonDryRun else ReasonRemediating) msg]\<rparr>))"
  by (simp add: report_remediation_def run_simps Let_def record_remediation_def)

lemma run_remediate:
  "run_state (remediate r policy dep strategy unhealthy spec now) s =
     (case run_state (act r policy dep strategy unhealthy spec now) s of
        (Inl a, s1) \<Rightarrow> (Inl a, s1)
      | (Inr actedPod, s1) \<Rightarrow>
          apfst Inr (run_state (report_remediation r policy actedPod strategy (DryRun spec) now) s1))"
  by (simp add: remediate_def apfst_def map_prod_def split: prod.split sum.split)

text \<open>The two gauges set before the decision.\<close>

definition target_gauges :: "NamespacedName \<Rightarrow> PodState list \<Rightarrow> effect list" where
  "target_gauges nn snapshot =
     [GaugeSet TargetsTotal [nn_Namespace nn, nn_Name nn] (int (length snapshot)),
      GaugeSet TargetsHealthy [nn_Namespace nn, nn_Name nn] (int (healthy_count snapshot))]"

definition with_targets :: "HotSwapPolicy \<Rightarrow> PodState list \<Rightarrow> HotSwapPolicy" where
  "with_targets policy snapshot =
     policy\<lparr>pol_Status := (pol_Status policy)\<lparr>Targets := toTargetHealth snapshot\<rparr>\<rparr>"

text \<open>What a status helper and the snapshot leave alone.\<close>

lemma with_targets_fields [simp]:
  "pol_Namespace (with_targets p sn) = pol_Namespace p" "pol_Name (with_targets p sn) = pol_Name p"
  "pol_Spec (with_targets p sn) = pol_Spec p" "pol_Generation (with_targets p sn) = pol_Generation p"
  "pol_Status (with_targets p sn) = (pol_Status p)\<lparr>Targets := toTargetHealth sn\<rparr>"
  by (simp_all add: with_targets_def)

lemma setRemediating_fields [simp]:
  "pol_Namespace (setRemediating r p msg) = pol_Namespace p" "pol_Name (setRemediating r p msg) = pol_Name p"
  "pol_Spec (setRemediating r p msg) = pol_Spec p"
  "pol_Generation (setRemediating r p msg) = pol_Generation p"
  "Targets (pol_Status (setRemediating r p msg)) = Targets (pol_Status p)"
  "LastRemediation (pol_Status (setRemediating r p msg)) = LastRemediation (pol_Status p)"
  "ConsecutiveAttempts (pol_Status (setRemediating r p msg)) = ConsecutiveAttempts (pol_Status p)"
  by (simp_all add: setRemediating_def Let_def)

lemma verdict_with_targets [simp]:
  "verdict_of (with_targets policy snapshot') dep snapshot now = verdict_of policy dep snapshot now"
  by (simp add: with_targets_def)

lemma run_reconcilePods:
  assumes "k_LabelSelectorAsSelector (r_lib r) (dep_Selector dep) = Inr sel"
    and "cl_ListPods (r_Client r) (nn_Namespace nn) sel (world s) = (Inr pods, w)"
    and obs: "run_state (observe r nn cfg pods) (s\<lparr>world := w\<rparr>) = (snapshot, s1)"
    and "r_Now r w = (now, w')"
    and len: "length snapshot < 2 ^ 31"
  shows "run_state (reconcilePods r nn policy cfg dep) s =
    run_state (perform r nn (with_targets policy snapshot) cfg dep snapshot now
                 (verdict_of policy dep snapshot now))
      (s1\<lparr>trace := trace s @ target_gauges nn snapshot, world := w'\<rparr>)"
proof -
  have "world s1 = w" "trace s1 = trace s" using observe_frame [OF obs] by simp_all
  then show ?thesis
    using assms
    by (simp add: reconcilePods_def run_simps decide_verdict [OF len] target_gauges_def
        with_targets_def [symmetric])
qed

section \<open>The main path\<close>

lemma run_Reconcile_main:
  assumes "cl_GetPolicy (r_Client r) nn (world s) = (Inr policy, w1)"
    and "IsZeroPtr (pol_DeletionTimestamp policy)"
    and "k_ContainsFinalizer (r_lib r) (pol_Finalizers policy) finalizerName"
    and "normalizeProbe (HotswapProbe (pol_Spec policy)) = Inr cfg"
    and "cl_GetDeployment (r_Client r) \<lparr>nn_Namespace = nn_Namespace nn, nn_Name = target_of policy\<rparr> w1 =
           (Inr dep, w2)"
    and "cl_ListPolicies (r_Client r) (pol_Namespace policy) w2 = (Inr items, w3)"
    and "conflicting_winner policy items = ''''"
    and "k_LabelSelectorAsSelector (r_lib r) (dep_Selector dep) = Inr sel"
    and "cl_ListPods (r_Client r) (nn_Namespace nn) sel w3 = (Inr pods, w4)"
    and "run_state (observe r nn cfg pods) (s\<lparr>world := w4\<rparr>) = (snapshot, s1)"
    and "r_Now r w4 = (now, w5)"
    and "length snapshot < 2 ^ 31"
  shows "run_state (Reconcile r nn) s =
    run_state (perform r nn (with_targets policy snapshot) cfg dep snapshot now
                 (verdict_of policy dep snapshot now))
      (s1\<lparr>trace := trace s @ target_gauges nn snapshot, world := w5\<rparr>)"
proof -
  have "run_state (Reconcile r nn) s = run_state (reconcileTarget r nn policy cfg) (s\<lparr>world := w1\<rparr>)"
    using assms(1-4) by (simp add: Reconcile_def run_simps)
  also have "\<dots> = run_state (reconcilePods r nn policy cfg dep) (s\<lparr>world := w3\<rparr>)"
    using assms(5-7) by (simp add: reconcileTarget_def conflictingPolicy_def run_simps target_of_def Let_def)
  also have "\<dots> = run_state (perform r nn (with_targets policy snapshot) cfg dep snapshot now
                 (verdict_of policy dep snapshot now))
      (s1\<lparr>trace := trace s @ target_gauges nn snapshot, world := w5\<rparr>)"
    using run_reconcilePods [of r dep sel nn "s\<lparr>world := w3\<rparr>" pods w4 cfg snapshot s1 now w5] assms(8-12)
    by simp
  finally show ?thesis .
qed

lemma exClient_simps [simp]:
  "cl_GetPolicy (exClient policy del) exNN w = (Inr policy, w)"
  "cl_GetDeployment (exClient policy del) nn w = (Inr exDep, w)"
  "cl_ListPolicies (exClient policy del) ns w = (Inr [policy], w)"
  "cl_ListPods (exClient policy del) ns sel w = (Inr [exPod], w)"
  "cl_StatusUpdate (exClient policy del) p w = (None, w)"
  "cl_Update (exClient policy del) p w = (None, w)"
  "cl_DeletePod (exClient policy del) ns name w = (del w, Suc w)"
  by (simp_all add: exClient_def)

lemma exReconciler_simps [simp]:
  "r_Client (exReconciler policy del) = exClient policy del"
  "r_Now (exReconciler policy del) = (\<lambda>w. (exNow, w))"
  "r_lib (exReconciler policy del) = exLib"
  by (simp_all add: exReconciler_def)

lemma exPolicy_simps [simp]:
  "pol_DeletionTimestamp (exPolicy spec) = None" "pol_Finalizers (exPolicy spec) = [finalizerName]"
  "HotswapProbe (pol_Spec (exPolicy spec)) = exProbe" "pol_Namespace (exPolicy spec) = ''shop''"
  "pol_Name (exPolicy spec) = ''guard''" "target_of (exPolicy spec) = ''web''"
  "Remediation (pol_Spec (exPolicy spec)) = spec" "pol_Status (exPolicy spec) = exStatus"
  "pol_Generation (exPolicy spec) = 2"
  by (simp_all add: exPolicy_def target_of_def)

lemma exSpec_fields [simp]:
  "Strategy exSpec = StrategyDeletePod" "MaxConcurrent exSpec = 1" "DryRun exSpec = False"
  by (simp_all add: exSpec_def)

lemma exLib_simps [simp]:
  "k_ContainsFinalizer exLib [finalizerName] finalizerName"
  "k_LabelSelectorAsSelector exLib s = Inr (\<lambda>labels. s \<noteq> None)"
  by (simp_all add: exLib_def)

lemma ex_conflict: "conflicting_winner (exPolicy spec) [exPolicy spec'] = ''''"
  by (simp add: conflicting_winner_def)

abbreviation ex_after_observe :: "(nat, scheduled) rstate" where
  "ex_after_observe \<equiv> exState\<lparr>prober := \<lparr>mgr = exManagerSeen, sched = []\<rparr>\<rparr>"

lemma exState_fields [simp]:
  "exState\<lparr>world := 0\<rparr> = exState" "trace exState = []" "world exState = 0"
  by (simp_all add: exState_def)

lemma ex_observe_state:
  "run_state (observe (exReconciler policy del) exNN exCfg [exPod]) exState = (exSnapshot, ex_after_observe)"
  using ex_observe [of policy del 0] by (simp add: exState_def)

lemma exSpec_verdict: "verdict_of (exPolicy exSpec) exDep exSnapshot exNow = Remediate StrategyDeletePod"
  using ex_verdict [of 3 False] by (simp add: exSpec_def)

lemma length_exSnapshot [simp]: "length exSnapshot = 1"
  by (simp add: exSnapshot_def)

lemmas ex_answers = ex_observe_state normalize_exProbe ex_conflict exSpec_verdict IsZeroPtr_def

lemma ex_run_perform:
  "run_state (Reconcile (exReconciler (exPolicy exSpec) del) exNN) exState =
     run_state (perform (exReconciler (exPolicy exSpec) del) exNN
                  (with_targets (exPolicy exSpec) exSnapshot) exCfg exDep exSnapshot exNow
                  (Remediate StrategyDeletePod))
       (ex_after_observe\<lparr>trace := target_gauges exNN exSnapshot, world := 0\<rparr>)"
  using run_Reconcile_main [of "exReconciler (exPolicy exSpec) del" exNN exState "exPolicy exSpec" 0 exCfg exDep 0 "[exPolicy exSpec]" 0
      "\<lambda>labels. dep_Selector exDep \<noteq> None" "[exPod]" 0 exSnapshot ex_after_observe exNow 0]
  by (simp add: ex_answers)

lemma ex_act:
  "run_state (act (exReconciler policy (\<lambda>_. None)) p exDep StrategyDeletePod (unhealthy_of exSnapshot)
      exSpec exNow) s =
   (Inr ''web-1'', s\<lparr>world := Suc (world s), trace := trace s @ [PodDelete (pol_Namespace p) ''web-1'' None]\<rparr>)"
  unfolding ex_unhealthy
  by (simp add: act_def run_simps deletePod_def go_cmp exSnapshot_def exSeen_def exEntry_def Let_def)

text \<open>
  C2: when the API server answers with a live policy that holds the finalizer and has a valid
  probe, with its Deployment, with policies among which it has no rival to yield to, and with
  the selected pods, then \<open>Reconcile\<close> is: synchronise the prober, set the two target gauges,
  read the clock, and carry out the verdict of the exact specification \<open>verdict_of\<close> on the
  snapshot, with the snapshot recorded in the status.
\<close>

theorem Reconcile_main_path:
  assumes "cl_GetPolicy (r_Client r) nn (world s) = (Inr policy, w1)"
    and "IsZeroPtr (pol_DeletionTimestamp policy)"
    and "k_ContainsFinalizer (r_lib r) (pol_Finalizers policy) finalizerName"
    and "normalizeProbe (HotswapProbe (pol_Spec policy)) = Inr cfg"
    and "cl_GetDeployment (r_Client r) \<lparr>nn_Namespace = nn_Namespace nn, nn_Name = target_of policy\<rparr> w1 =
           (Inr dep, w2)"
    and "cl_ListPolicies (r_Client r) (pol_Namespace policy) w2 = (Inr items, w3)"
    and "conflicting_winner policy items = ''''"
    and "k_LabelSelectorAsSelector (r_lib r) (dep_Selector dep) = Inr sel"
    and "cl_ListPods (r_Client r) (nn_Namespace nn) sel w3 = (Inr pods, w4)"
    and "run_state (observe r nn cfg pods) (s\<lparr>world := w4\<rparr>) = (snapshot, s1)"
    and "r_Now r w4 = (now, w5)"
    and "length snapshot < 2 ^ 31"
  shows "run_state (Reconcile r nn) s =
    run_state (perform r nn (with_targets policy snapshot) cfg dep snapshot now
                 (verdict_of policy dep snapshot now))
      (s1\<lparr>trace := trace s @ target_gauges nn snapshot, world := w5\<rparr>)"
  using assms by (rule run_Reconcile_main)

text \<open>The handler on the example carries out the verdict to delete.\<close>

theorem Reconcile_main_path_witness:
  "run_state (Reconcile (exReconciler (exPolicy exSpec) (\<lambda>_. None)) exNN) exState =
     run_state (perform (exReconciler (exPolicy exSpec) (\<lambda>_. None)) exNN
                  (with_targets (exPolicy exSpec) exSnapshot) exCfg exDep exSnapshot exNow
                  (Remediate StrategyDeletePod))
       (ex_after_observe\<lparr>trace := target_gauges exNN exSnapshot, world := 0\<rparr>)"
  using Reconcile_main_path [of "exReconciler (exPolicy exSpec) (\<lambda>_. None)" exNN exState "exPolicy exSpec" 0 exCfg exDep 0 "[exPolicy exSpec]" 0
      "\<lambda>labels. dep_Selector exDep \<noteq> None" "[exPod]" 0 exSnapshot ex_after_observe exNow 0]
  by (simp add: ex_answers)

end
