(* ===== verification/Reporting.thy ===== *)
theory Reporting
  imports ReconcileSafety
begin

text \<open>
  What every \<open>Reconcile\<close> reports: its metric samples have as many values as the collector has
  labels (otherwise \<open>WithLabelValues\<close> panics), the status is written at most once and last,
  it carries the generation it was computed from, and its failure is the failure of the call.
\<close>

fun well_reported :: "(abort + Result) \<Rightarrow> effect list \<Rightarrow> bool" where
  "well_reported x [] = True"
| "well_reported x (StatusUpdate p e # es) =
     (es = [] \<and> ObservedGeneration (pol_Status p) = pol_Generation p \<and>
      (case e of Some err \<Rightarrow> x = Inl (Err err) | None \<Rightarrow> isl x = False))"
| "well_reported x (GaugeSet c vs v # es) = (m_kind c = GaugeVec \<and> label_values_ok c vs \<and> well_reported x es)"
| "well_reported x (CounterInc c vs # es) = (m_kind c = CounterVec \<and> label_values_ok c vs \<and> well_reported x es)"
| "well_reported x (e # es) = well_reported x es"

lemma gauges_ok [simp]:
  "m_kind CircuitOpen = GaugeVec" "label_values_ok CircuitOpen [ns, name]"
  "m_kind TargetsHealthy = GaugeVec" "label_values_ok TargetsHealthy [ns, name]"
  "m_kind TargetsTotal = GaugeVec" "label_values_ok TargetsTotal [ns, name]"
  by (simp_all add: label_values_ok_def registered_def collector_defs)

text \<open>Effects that may stand before the status write.\<close>

fun before_status :: "effect \<Rightarrow> bool" where
  "before_status (StatusUpdate p e) = False"
| "before_status (GaugeSet c vs v) = (m_kind c = GaugeVec \<and> label_values_ok c vs)"
| "before_status (CounterInc c vs) = (m_kind c = CounterVec \<and> label_values_ok c vs)"
| "before_status _ = True"

lemma well_reported_prefix:
  "\<forall>e \<in> set es0. before_status e \<Longrightarrow> well_reported x (es0 @ es) = well_reported x es"
proof (induction es0)
  case (Cons e es0)
  then show ?case by (cases e) auto
qed simp

lemma act_effects_before_status:
  assumes "act_effects policy dep strategy unhealthy spec now es" and "e \<in> set es"
  shows "before_status e"
  using assms by (auto simp: act_effects_def split: if_splits)

lemma yields_finish_reported: "yields I (finish r policy res) well_reported"
  by (auto intro!: emits_intros split: option.split)

lemma remediate_reported:
  assumes "unhealthy \<noteq> []"
  shows "yields I (remediate r policy dep strategy unhealthy spec now) (\<lambda>x es. \<forall>e \<in> set es. before_status e)"
proof -
  have "yields I (case x of Inl a \<Rightarrow> State_Monad.return (Inl a)
      | Inr actedPod \<Rightarrow> do {
          policy \<leftarrow> report_remediation r policy actedPod strategy (DryRun spec) now;
          State_Monad.return (Inr policy) })
      (\<lambda>y es. \<forall>e \<in> set es. before_status e)" for x :: "abort + string"
    by (auto simp: report_remediation_def Let_def label_values_ok_def registered_def collector_defs
        intro!: emits_intros split: sum.split)
  then show ?thesis
    unfolding remediate_def
    by (intro yields_mono [OF yields_seq [OF act_yields [OF assms]]])
      (auto dest: act_effects_before_status)
qed

lemma decide_reported: "yields I (decide r nn policy cfg dep snapshot now) well_reported"
proof -
  have after: "yields I (case x of Inl a \<Rightarrow> State_Monad.return (Inl a)
      | Inr policy \<Rightarrow> finish r policy (after (Period cfg))) well_reported" for x
    by (auto intro!: emits_intros split: sum.split option.split)
  have rem: "yields I (do {
        done \<leftarrow> remediate r policy dep strategy (unhealthy_of snapshot) spec now;
        (case done of Inl a \<Rightarrow> State_Monad.return (Inl a)
         | Inr policy \<Rightarrow> finish r policy (after (Period cfg))) }) well_reported"
    if "unhealthy_of snapshot \<noteq> []" for strategy spec
    by (rule yields_mono [OF yields_seq [OF remediate_reported [OF that] after]])
      (auto simp: well_reported_prefix)
  show ?thesis
    unfolding decide_def Let_def
    by (intro yields_if rem yields_finish_reported yields_bind yields_emit)
      (auto intro!: yields_mono [OF yields_finish_reported])
qed

context probe_source
begin

lemma Reconcile_reported:
  assumes ps: "r_Prober r = ps"
  shows "yields inv (Reconcile r nn) well_reported"
proof -
  have pods: "yields inv (reconcilePods r nn policy cfg dep) well_reported" for policy cfg dep
    unfolding reconcilePods_def Let_def
    by (intro emits_intros yields_mono [OF yields_finish_reported] yields_mono [OF observe_yields [OF ps]])
      (auto intro!: emits_intros decide_reported split: option.split)
  show ?thesis
    unfolding Reconcile_def reconcileDeletion_def reconcileFinalizer_def reconcileTarget_def
      conflictingPolicy_def Let_def
    by (intro emits_intros yields_mono [OF yields_finish_reported] yields_mono [OF pods])
      (auto simp: ps inv_Forget split: option.split)
qed

end

end
