(* ===== verification/ControllerProps.thy ===== *)
theory ControllerProps
  imports ReconcileSpec Reporting
begin

text \<open>
  Properties of the whole \<open>Reconcile\<close> with the prober's \<open>Manager\<close> as its probe source: they
  follow from the lemmas proved for every probe source, through the interpretation on the
  manager.
\<close>

section \<open>What reaches the cluster\<close>

text \<open>
  C1: a \<open>Reconcile\<close> never panics and keeps the prober's invariant; it patches or deletes
  nothing, or it does so in the circumstances of \<open>remediation_run\<close> (a live policy holding its
  finalizer and with no rival to yield to, the snapshot the prober gave in this call of the
  selected pods that are not terminating, and the verdict to remediate) and then exactly one patch of the guarded
  Deployment, or deletions of unhealthy pods of the snapshot, at most \<open>maxConcurrent\<close> of them
  successful. API answers, probe results arriving meanwhile and the iteration orders of maps
  are arbitrary.
\<close>

theorem Reconcile_safe:
  assumes "r_Prober r = managerSource K ord" and "short_lists r" and "managerInv K (prober s)"
    and "run_state (Reconcile r nn) s = (x, s')"
  shows "x \<noteq> Inl Panic \<and> managerInv K (prober s') \<and>
    (\<exists>es. trace s' = trace s @ es \<and> cluster_effects r nn (prober s) es)"
  using yields_fromD [OF mgr.Reconcile_yields [OF assms(1,3,2), of nn] refl assms(4)]
  unfolding safe_end_def by blast

text \<open>The complete run of the handler on the example.\<close>

definition ex_result :: "(nat, scheduled) rstate" where
  "ex_result = snd (run_state (Reconcile (exReconciler (exPolicy exSpec) (\<lambda>_. None)) exNN) exState)"

lemma ex_run:
  "run_state (Reconcile (exReconciler (exPolicy exSpec) (\<lambda>_. None)) exNN) exState =
     (Inr (after (5 * Second)), ex_result)"
  "\<exists>p. trace ex_result = target_gauges exNN exSnapshot @
     [PodDelete ''shop'' ''web-1'' None,
      CounterInc RemediationsTotal [''shop'', ''guard'', StrategyDeletePod],
      RecorderEvent EventTypeNormal ReasonRemediating
        (remediation_msg ''remediated'' ''web-1'' StrategyDeletePod 1),
      StatusUpdate p None] \<and>
   ConsecutiveAttempts (pol_Status p) = 1 \<and> map th_PodName (Targets (pol_Status p)) = [''web-1'']"
  unfolding ex_result_def ex_run_perform perform_def Let_def verdict.case
  by (simp_all add: run_remediate ex_act run_report_remediation run_finish Let_def record_remediation_def
      exStatus_def exCfg_def toTargetHealth_def target_health_def)
    (simp add: exSnapshot_def exSeen_def exEntry_def target_health_def)

theorem Reconcile_safe_witness:
  "\<exists>es. trace ex_result = trace exState @ es \<and> PodDelete ''shop'' ''web-1'' None \<in> set es \<and>
     cluster_effects (exReconciler (exPolicy exSpec) (\<lambda>_. None)) exNN (prober exState) es"
proof -
  from ex_run(2) have del: "PodDelete ''shop'' ''web-1'' None \<in> set (trace ex_result)" by auto
  show ?thesis
    using Reconcile_safe [OF exReconciler_prober exReconciler_short exState_inv ex_run(1)] del by auto
qed


text \<open>
  C9: whatever a \<open>Reconcile\<close> deletes is a pod that the API server listed for the Deployment
  and that is not terminating, and that failed its probes and was seen Ready in the snapshot
  the prober gave in this very call: the one its state at the start of the call gives once it is
  synchronised with the listed pods. The pod is deleted in the policy's own namespace, never in
  a dry run, and no more pods are deleted than \<open>maxConcurrent\<close> allows (one if it is not positive).
\<close>

theorem Reconcile_deletes_bounded:
  assumes "r_Prober r = managerSource K ord" and "short_lists r" and "managerInv K (prober s)"
    and "run_state (Reconcile r nn) s = (x, s')" and "trace s' = trace s @ es"
    and "PodDelete ns name q \<in> set es"
  shows "\<exists>policy dep pods cfg now.
    normalizeProbe (HotswapProbe (pol_Spec policy)) = Inr cfg \<and>
    remediation_run r nn (prober s) policy dep pods (seen_snapshot r nn cfg pods (prober s)) now StrategyDeletePod \<and>
    ns = pol_Namespace policy \<and> \<not> DryRun (Remediation (pol_Spec policy)) \<and>
    (\<exists>t \<in> set (seen_snapshot r nn cfg pods (prober s)). PodName t = name \<and> \<not> Healthy t \<and> SeenReady t) \<and>
    (\<exists>p \<in> set pods. pod_Name p = name \<and> IsZeroPtr (pod_DeletionTimestamp p)) \<and>
    int (deleted_count es) \<le> effective_limit (Remediation (pol_Spec policy))"
proof -
  have "cluster_effects r nn (prober s) es"
    using yields_from_run(2) [OF mgr.Reconcile_yields [OF assms(1,3,2), of nn] refl assms(4,5)]
    by (simp add: safe_end_def)
  moreover have "\<not> (\<forall>e \<in> set es. \<not> is_mutation e)" using assms(6) by force
  ultimately obtain policy dep pods snapshot now strategy pre cl post
    where run: "remediation_run r nn (prober s) policy dep pods snapshot now strategy"
      and es: "es = pre @ cl @ post" and quiet: "\<forall>e \<in> set pre \<union> set post. \<not> is_mutation e"
      and act: "act_effects policy dep strategy (unhealthy_of snapshot) (Remediation (pol_Spec policy)) now cl"
    unfolding cluster_effects_def by blast
  obtain cfg where cfg: "normalizeProbe (HotswapProbe (pol_Spec policy)) = Inr cfg"
    and seen: "snapshot = seen_snapshot r nn cfg pods (prober s)"
    using run by (auto simp: remediation_run_def)
  from quiet assms(6) es have cl: "PodDelete ns name q \<in> set cl" by force
  then obtain t where t: "t \<in> set (unhealthy_of snapshot)" "name = PodName t" "ns = pol_Namespace policy"
    and strategy: "strategy \<noteq> StrategyRolloutRestart" "\<not> DryRun (Remediation (pol_Spec policy))"
    and limit: "int (deleted_count cl) \<le> effective_limit (Remediation (pol_Spec policy))"
    using act by (auto simp: act_effects_def split: if_splits)
  from run have sn: "snapshot_of_pods pods snapshot" by (simp add: remediation_run_def)
  have "deleted_count pre = 0" "deleted_count post = 0"
    using quiet deleted_count_quiet [of pre] deleted_count_quiet [of post] by auto
  moreover have "strategy = StrategyDeletePod"
    using strategy(1) run chooseStrategy_cases
    unfolding remediation_run_def verdict_Remediate_iff by metis
  moreover have "\<exists>p \<in> set pods. pod_Name p = name \<and> IsZeroPtr (pod_DeletionTimestamp p)"
    using sn t by (fastforce simp: snapshot_of_pods_def unhealthy_of_def)
  ultimately show ?thesis
    using run cfg t strategy limit es unfolding seen
    by (intro exI [of _ policy] exI [of _ dep] exI [of _ pods] exI [of _ cfg] exI [of _ now])
      (auto simp: unhealthy_of_def)
qed

theorem Reconcile_deletes_bounded_witness:
  "\<exists>policy dep pods cfg now.
    remediation_run (exReconciler (exPolicy exSpec) (\<lambda>_. None)) exNN (prober exState) policy dep pods
      (seen_snapshot (exReconciler (exPolicy exSpec) (\<lambda>_. None)) exNN cfg pods (prober exState)) now
      StrategyDeletePod \<and>
    (\<exists>p \<in> set pods. pod_Name p = ''web-1'')"
proof -
  let ?r = "exReconciler (exPolicy exSpec) (\<lambda>_. None)"
  have tr: "trace ex_result = trace exState @ trace ex_result" by simp
  from ex_run(2) have del: "PodDelete ''shop'' ''web-1'' None \<in> set (trace ex_result)" by auto
  show ?thesis
    using Reconcile_deletes_bounded [OF exReconciler_prober exReconciler_short exState_inv ex_run(1) tr del]
    by blast
qed

text \<open>
  C10: if every version of the policy that the API server may return has \<open>dryRun\<close> set, a
  \<open>Reconcile\<close> patches no Deployment and deletes no pod.
\<close>

theorem Reconcile_dry_run:
  assumes "r_Prober r = managerSource K ord" and "short_lists r" and "managerInv K (prober s)"
    and dry: "\<And>w policy. fst (cl_GetPolicy (r_Client r) nn w) = Inr policy \<Longrightarrow>
                DryRun (Remediation (pol_Spec policy))"
    and "run_state (Reconcile r nn) s = (x, s')"
  shows "\<exists>es. trace s' = trace s @ es \<and> (\<forall>e \<in> set es. \<not> is_mutation e)"
proof -
  obtain es where es: "trace s' = trace s @ es" "cluster_effects r nn (prober s) es"
    using yields_fromD [OF mgr.Reconcile_yields [OF assms(1,3,2), of nn] refl assms(5)]
    unfolding safe_end_def by blast
  have "\<forall>e \<in> set es. \<not> is_mutation e"
    using es(2) dry unfolding cluster_effects_def
    by (auto simp: act_effects_def remediation_run_def)
  with es(1) show ?thesis by blast
qed

theorem Reconcile_dry_run_witness:
  "filter is_mutation (trace (snd (run_state
       (Reconcile (exReconciler (exPolicy (exSpec\<lparr>DryRun := True\<rparr>)) (\<lambda>_. None)) exNN) exState))) = []"
proof -
  let ?r = "exReconciler (exPolicy (exSpec\<lparr>DryRun := True\<rparr>)) (\<lambda>_. None)"
  obtain x s' where run: "run_state (Reconcile ?r exNN) exState = (x, s')" by fastforce
  have "DryRun (Remediation (pol_Spec policy))"
    if "fst (cl_GetPolicy (r_Client ?r) exNN w) = Inr policy" for w policy
    using that by (auto simp: exClient_def)
  from Reconcile_dry_run [OF exReconciler_prober exReconciler_short exState_inv this run] run
  show ?thesis by auto
qed

section \<open>What a Reconcile reports\<close>

text \<open>
  C17: in every \<open>Reconcile\<close> each metric sample has the label values of its collector (so
  \<open>WithLabelValues\<close> does not panic), the status is written at most once, as the last effect,
  stamped with the generation of the policy it was computed from, and the call fails with the
  error of that write and succeeds otherwise.
\<close>

theorem Reconcile_well_reported:
  assumes "r_Prober r = managerSource K ord" and "managerInv K (prober s)"
    and "run_state (Reconcile r nn) s = (x, s')"
  shows "\<exists>es. trace s' = trace s @ es \<and> well_reported x es"
  using yieldsD [OF mgr.Reconcile_reported [OF assms(1), of nn] assms(2,3)] by blast

theorem Reconcile_well_reported_witness:
  "well_reported (Inr (after (5 * Second))) (trace ex_result)"
  using Reconcile_well_reported [OF exReconciler_prober exState_inv ex_run(1)] by auto


section \<open>The grace period\<close>

text \<open>
  C13: a pod is among those to remediate only if its probes fail and it has been Ready: it is
  Ready in the list this \<open>Reconcile\<close> read, or a former \<open>Reconcile\<close> of the policy saw the pod of
  that UID Ready; conversely no failing pod that was seen Ready is left out. A pod that was
  never Ready is never remediated, however long its probes fail.
\<close>

theorem remediated_pods_seen_ready:
  assumes "r_Prober r = managerSource K ord" and "managerInv K (prober s)"
    and "run_state (observe r nn cfg pods) s = (snapshot, s')" and "t \<in> set snapshot"
  shows "t \<in> set (unhealthy_of snapshot) \<longleftrightarrow>
    \<not> Healthy t \<and>
    ((\<exists>q \<in> set pods. isPodReady q \<and> pod_UID q = PodUID t) \<or>
     (\<exists>n ip. managerView K nn (prober s) (PodUID t) = Some (n, ip, True)))"
  using mgr.observed_seen_iff [OF assms] assms(4) by (auto simp: unhealthy_of_def)

theorem remediated_pods_seen_ready_witness:
  "PodState.truncate exSeen \<in> set (unhealthy_of exSnapshot) \<longleftrightarrow>
    \<not> Healthy exSeen \<and>
    ((\<exists>q \<in> set [exPod]. isPodReady q \<and> pod_UID q = ''u1'') \<or>
     (\<exists>n ip. managerView exString exNN (prober exState) ''u1'' = Some (n, ip, True)))"
  using remediated_pods_seen_ready [OF exReconciler_prober exState_inv
      ex_observe_state [of "exPolicy exSpec" "\<lambda>_. None"], of "PodState.truncate exSeen"]
  by (simp add: exSnapshot_def exSeen_def exEntry_def)

section \<open>When the policy is not the guardian of a Deployment\<close>

text \<open>
  C24: reconciling a policy that is being deleted and still holds the finalizer cancels every
  probe loop started for it, leaves nothing of it in the prober, and has one effect, the update
  of the policy without the finalizer, whose outcome is the outcome of the call.
\<close>

theorem Reconcile_deletion:
  assumes "r_Prober r = managerSource K ord" and "managerInv K (prober s)"
    and "cl_GetPolicy (r_Client r) nn (world s) = (Inr policy, w1)"
    and "\<not> IsZeroPtr (pol_DeletionTimestamp policy)"
    and "k_ContainsFinalizer (r_lib r) (pol_Finalizers policy) finalizerName"
    and p: "p = policy\<lparr>pol_Finalizers := k_RemoveFinalizer (r_lib r) (pol_Finalizers policy) finalizerName\<rparr>"
    and "cl_Update (r_Client r) p w1 = (e, w2)"
    and "run_state (Reconcile r nn) s = (x, s')"
  shows "x = (case e of None \<Rightarrow> Inr emptyResult | Some err \<Rightarrow> Inl (Err err)) \<and>
    trace s' = trace s @ [PolicyUpdate p e] \<and> world s' = w2 \<and>
    Snapshot K ord nn (mgr (prober s')) = [] \<and>
    (\<forall>g \<in> set (spawned (mgr (prober s'))). K (g_nn g) = K nn \<longrightarrow> ctxDone (mgr (prober s')) (g_ctx g))"
proof -
  have s': "s' = s\<lparr>world := w2, prober := ps_Forget (r_Prober r) nn (prober s),
      trace := trace s @ [PolicyUpdate p e]\<rparr>"
    and x: "x = (case e of None \<Rightarrow> Inr emptyResult | Some err \<Rightarrow> Inl (Err err))"
    using assms(3-8) by (auto simp: Reconcile_def reconcileDeletion_def run_simps Let_def)
  have "managerInv K (interfere K (prober s))" by (rule interfere_inv_view(1) [OF assms(2)])
  then show ?thesis
    using x s' by (auto simp: assms(1) Let_def Snapshot_Forget ctxDone_def managerInv_def
        intro: forgotten_cancelled)
qed

definition exDeleted :: HotSwapPolicy where
  "exDeleted = (exPolicy exSpec)\<lparr>pol_DeletionTimestamp := Some exNow\<rparr>"

theorem Reconcile_deletion_witness:
  "\<exists>x s'. run_state (Reconcile (exReconciler exDeleted (\<lambda>_. None)) exNN) exState = (x, s') \<and>
     x = Inr emptyResult \<and> trace s' = [PolicyUpdate (exDeleted\<lparr>pol_Finalizers := []\<rparr>) None] \<and>
     Snapshot exString ascending exNN (mgr (prober s')) = []"
proof -
  let ?r = "exReconciler exDeleted (\<lambda>_. None)"
  obtain x s' where run: "run_state (Reconcile ?r exNN) exState = (x, s')" by fastforce
  have 1: "cl_GetPolicy (r_Client ?r) exNN (world exState) = (Inr exDeleted, 0)" by simp
  have 2: "\<not> IsZeroPtr (pol_DeletionTimestamp exDeleted)"
    by (simp add: exDeleted_def IsZeroPtr_def IsZero_def exNow_def Unix_def)
  have 3: "k_ContainsFinalizer (r_lib ?r) (pol_Finalizers exDeleted) finalizerName"
    by (simp add: exDeleted_def)
  have 4: "exDeleted\<lparr>pol_Finalizers := []\<rparr> =
      exDeleted\<lparr>pol_Finalizers := k_RemoveFinalizer (r_lib ?r) (pol_Finalizers exDeleted) finalizerName\<rparr>"
    by (simp add: exDeleted_def exLib_def)
  have 5: "cl_Update (r_Client ?r) (exDeleted\<lparr>pol_Finalizers := []\<rparr>) 0 = (None, 0)" by simp
  show ?thesis
    using Reconcile_deletion [OF exReconciler_prober exState_inv 1 2 3 4 5 run] run by auto
qed

text \<open>
  C25: reconciling a policy that has to yield to a rival on its Deployment cancels every probe
  loop started for it and leaves nothing of it in the prober; the one effect is the status
  write with the Degraded condition that names the rival, and the next look is in a minute.
\<close>

theorem Reconcile_yields_to_rival:
  assumes "r_Prober r = managerSource K ord" and "managerInv K (prober s)"
    and "cl_GetPolicy (r_Client r) nn (world s) = (Inr policy, w1)"
    and "IsZeroPtr (pol_DeletionTimestamp policy)"
    and "k_ContainsFinalizer (r_lib r) (pol_Finalizers policy) finalizerName"
    and "normalizeProbe (HotswapProbe (pol_Spec policy)) = Inr cfg"
    and "cl_GetDeployment (r_Client r) \<lparr>nn_Namespace = nn_Namespace nn, nn_Name = target_of policy\<rparr> w1 =
           (Inr dep, w2)"
    and "cl_ListPolicies (r_Client r) (pol_Namespace policy) w2 = (Inr items, w3)"
    and "conflicting_winner policy items = winner" and "winner \<noteq> ''''"
    and msg: "msg = ''deployment '' @ quote (target_of policy) @ '' already guarded by HotSwapPolicy '' @
                quote winner"
    and "run_state (Reconcile r nn) s = (x, s')"
  shows "\<exists>p e. trace s' = trace s @ [StatusUpdate p e] \<and>
    p = (let q = setDegraded r policy ReasonConflictingPolic msg in
         q\<lparr>pol_Status := (pol_Status q)\<lparr>ObservedGeneration := pol_Generation q\<rparr>\<rparr>) \<and>
    x = (case e of None \<Rightarrow> Inr (after Minute) | Some err \<Rightarrow> Inl (Err err)) \<and>
    Snapshot K ord nn (mgr (prober s')) = [] \<and>
    (\<forall>g \<in> set (spawned (mgr (prober s'))). K (g_nn g) = K nn \<longrightarrow> ctxDone (mgr (prober s')) (g_ctx g))"
proof -
  define q where "q = setDegraded r policy ReasonConflictingPolic msg"
  define p where "p = q\<lparr>pol_Status := (pol_Status q)\<lparr>ObservedGeneration := pol_Generation q\<rparr>\<rparr>"
  obtain e w4 where upd: "cl_StatusUpdate (r_Client r) p w3 = (e, w4)" by fastforce
  have tgt: "tr_Name (TargetRef (pol_Spec policy)) = target_of policy" by (simp add: target_of_def)
  have "run_state (Reconcile r nn) s = run_state (reconcileTarget r nn policy cfg) (s\<lparr>world := w1\<rparr>)"
    using assms(3-6) by (simp add: Reconcile_def run_simps)
  also have "\<dots> = run_state (finish r q (after Minute))
      (s\<lparr>world := w3, prober := ps_Forget (r_Prober r) nn (prober s)\<rparr>)"
    using assms(7-10) by (simp add: reconcileTarget_def conflictingPolicy_def run_simps Let_def tgt q_def msg)
  finally have x: "x = (case e of None \<Rightarrow> Inr (after Minute) | Some err \<Rightarrow> Inl (Err err))"
    and s': "trace s' = trace s @ [StatusUpdate p e]" "prober s' = ps_Forget (r_Prober r) nn (prober s)"
    using assms(12) upd by (auto simp: run_finish Let_def p_def split: option.splits)
  have "managerInv K (interfere K (prober s))" by (rule interfere_inv_view(1) [OF assms(2)])
  then have "Snapshot K ord nn (mgr (prober s')) = [] \<and>
    (\<forall>g \<in> set (spawned (mgr (prober s'))). K (g_nn g) = K nn \<longrightarrow> ctxDone (mgr (prober s')) (g_ctx g))"
    using s'(2) by (auto simp: assms(1) Let_def Snapshot_Forget ctxDone_def managerInv_def
        intro: forgotten_cancelled)
  then show ?thesis using x s'(1) by (auto simp: Let_def p_def q_def)
qed

text \<open>An older policy \<open>first\<close> on the same Deployment.\<close>

definition exRival :: HotSwapPolicy where
  "exRival = (exPolicy exSpec)\<lparr>pol_Name := ''first'', pol_CreationTimestamp := Unix 500\<rparr>"

definition exRivalReconciler :: "(nat, scheduled) HotSwapPolicyReconciler" where
  "exRivalReconciler = (exReconciler (exPolicy exSpec) (\<lambda>_. None))\<lparr>r_Client :=
     (exClient (exPolicy exSpec) (\<lambda>_. None))
       \<lparr>cl_ListPolicies := (\<lambda>ns w. (Inr [exPolicy exSpec, exRival], w))\<rparr>\<rparr>"

lemma ex_rival_wins: "conflicting_winner (exPolicy exSpec) [exPolicy exSpec, exRival] = ''first''"
  by (simp add: conflicting_winner_def exRival_def lessPolicy_def target_of_def exPolicy_def Unix_def)

theorem Reconcile_yields_to_rival_witness:
  "\<exists>x s' p e. run_state (Reconcile exRivalReconciler exNN) exState = (x, s') \<and>
     trace s' = [StatusUpdate p e] \<and> Snapshot exString ascending exNN (mgr (prober s')) = []"
proof -
  obtain x s' where run: "run_state (Reconcile exRivalReconciler exNN) exState = (x, s')" by fastforce
  have "\<exists>p e. trace s' = trace exState @ [StatusUpdate p e] \<and>
      Snapshot exString ascending exNN (mgr (prober s')) = []"
    using Reconcile_yields_to_rival [of exRivalReconciler exString ascending exState exNN
        "exPolicy exSpec" 0 exCfg exDep 0 "[exPolicy exSpec, exRival]" 0 "''first''" _ x s']
      run exState_inv
    by (simp add: exRivalReconciler_def exReconciler_prober ex_rival_wins normalize_exProbe IsZeroPtr_def
        del: exReconciler_simps(2)) (auto simp: exReconciler_def)
  with run show ?thesis by auto
qed


section \<open>Which policies a pod event reconciles\<close>

text \<open>
  C33: an event of a pod whose first ReplicaSet owner has a Deployment as first Deployment owner
  requests the reconciliation of exactly the policies of the pod's namespace that target this
  Deployment, in the order of the list; nothing is written and the prober is left alone. With a
  list that cannot be read nothing is requested.
\<close>

theorem policiesForPod_exact:
  assumes "pod_OwnerReferences pod = pre @ rsRef # post"
    and "or_Kind rsRef = ''ReplicaSet''" "''ReplicaSet'' \<notin> or_Kind ` set pre" "or_Name rsRef \<noteq> ''''"
    and "cl_GetReplicaSet (r_Client r) \<lparr>nn_Namespace = pod_Namespace pod, nn_Name = or_Name rsRef\<rparr> (world s) =
           (Inr rs, w1)"
    and "rs_OwnerReferences rs = pre' @ depRef # post'"
    and "or_Kind depRef = ''Deployment''" "''Deployment'' \<notin> or_Kind ` set pre'" "or_Name depRef \<noteq> ''''"
    and "cl_ListPolicies (r_Client r) (pod_Namespace pod) w1 = (listed, w2)"
  shows "\<exists>reqs. run_state (policiesForPod r (PodObject pod)) s = (reqs, s\<lparr>world := w2\<rparr>) \<and>
    reqs = (case listed of Inl _ \<Rightarrow> []
            | Inr items \<Rightarrow> map (\<lambda>p. \<lparr>nn_Namespace = pod_Namespace pod, nn_Name = pol_Name p\<rparr>)
                (filter (\<lambda>p. target_of p = or_Name depRef) items))"
proof -
  have "first_owner ''ReplicaSet'' (pod_OwnerReferences pod) = or_Name rsRef"
    using assms(1-3) by (simp add: first_owner_first)
  moreover have "first_owner ''Deployment'' (rs_OwnerReferences rs) = or_Name depRef"
    using assms(6-8) by (simp add: first_owner_first)
  ultimately have "run_state (deploymentNameForPod r pod) s = (or_Name depRef, s\<lparr>world := w1\<rparr>)"
    using assms(4,5) by (simp add: deploymentNameForPod_def run_simps Let_def)
  then have "run_state (policiesForPod r (PodObject pod)) s =
      run_state (policiesForDeploymentName r (pod_Namespace pod) (or_Name depRef)) (s\<lparr>world := w1\<rparr>)"
    using assms(9) by (simp add: policiesForPod_def)
  then show ?thesis
    using assms(10) by (simp add: policiesForDeploymentName_def run_simps requests_for_filter split: sum.split)
qed

theorem policiesForPod_exact_witness:
  "fst (run_state (policiesForPod (exReconciler (exPolicy exSpec) (\<lambda>_. None)) (PodObject exPod)) exState) = [exNN]"
proof -
  let ?r = "exReconciler (exPolicy exSpec) (\<lambda>_. None)"
  let ?rs = "\<lparr>rs_Name = ''web-rs'', rs_OwnerReferences = [\<lparr>or_Kind = ''Deployment'', or_Name = ''web''\<rparr>]\<rparr>"
  have pod: "pod_OwnerReferences exPod = [] @ \<lparr>or_Kind = ''ReplicaSet'', or_Name = ''web-rs''\<rparr> # []"
    "pod_Namespace exPod = ''shop''"
    by (simp_all add: exPod_def)
  have rs: "cl_GetReplicaSet (r_Client ?r) \<lparr>nn_Namespace = pod_Namespace exPod, nn_Name = ''web-rs''\<rparr> (world exState) =
      (Inr ?rs, 0)" by (simp add: exClient_def)
  show ?thesis
    using policiesForPod_exact [OF pod(1), of ?r exState ?rs 0 "[]" "\<lparr>or_Kind = ''Deployment'', or_Name = ''web''\<rparr>" "[]"
        "Inr [exPolicy exSpec]" 0] rs
    by (auto simp: pod(2) exNN_def)
qed

end
