(* ===== verification/DecisionProps.thy ===== *)
theory DecisionProps
  imports ReconcileSpec
begin

text \<open>
  Properties of the decision and of the remediation: the refinement of the exact verdict, dry
  runs against live runs, the safety valves in exact arithmetic, the error paths, the choice of
  one guardian per Deployment, and the status conditions.
\<close>

section \<open>The decision\<close>

text \<open>What the valves of a verdict do not look at.\<close>

lemma valves_ignore [simp]:
  "systemic (spec\<lparr>DryRun := d\<rparr>) = systemic spec"
  "within_cooldown (spec\<lparr>DryRun := d\<rparr>) = within_cooldown spec"
  "cooldown_ns (spec\<lparr>DryRun := d\<rparr>) = cooldown_ns spec"
  "max_attempts (spec\<lparr>DryRun := d\<rparr>) = max_attempts spec"
  "systemic (spec\<lparr>MaxConsecutiveAttempts := n\<rparr>) = systemic spec"
  "within_cooldown (spec\<lparr>MaxConsecutiveAttempts := n\<rparr>) = within_cooldown spec"
  "cooldown_ns (spec\<lparr>MaxConsecutiveAttempts := n\<rparr>) = cooldown_ns spec"
  by (simp_all add: systemic_def within_cooldown_def cooldown_ns_def max_attempts_def fun_eq_iff)

text \<open>
  C3: the chain of early returns at the end of \<open>Reconcile\<close>, on machine words, saturating
  durations and in the order of the code, carries out exactly the verdict \<open>verdict_of\<close> that is
  defined over integers, percentages and nanoseconds (for fewer than two billion pods): it has
  the same result and the same effects from every state.
\<close>

theorem decide_refines_verdict:
  assumes "length snapshot < 2 ^ 31"
  shows "run_state (decide r nn policy cfg dep snapshot now) s =
    run_state (perform r nn policy cfg dep snapshot now (verdict_of policy dep snapshot now)) s"
  by (simp only: decide_verdict [OF assms])

theorem decide_refines_verdict_witness:
  "run_state (decide (exReconciler (exPolicy exSpec) (\<lambda>_. None)) exNN (exPolicy exSpec) exCfg exDep exSnapshot
      exNow) exState =
   run_state (perform (exReconciler (exPolicy exSpec) (\<lambda>_. None)) exNN (exPolicy exSpec) exCfg exDep exSnapshot
      exNow (Remediate StrategyDeletePod)) exState"
  using decide_refines_verdict [of exSnapshot "exReconciler (exPolicy exSpec) (\<lambda>_. None)" exNN
      "exPolicy exSpec" exCfg exDep exNow exState] by (simp add: exSpec_verdict)

text \<open>The effects by which a remediation shows: what reaches the cluster, and what is counted.\<close>

fun remediation_effect :: "effect \<Rightarrow> bool" where
  "remediation_effect (CounterInc _ _) = True"
| "remediation_effect e = is_mutation e"

definition remediation_actions ::
  "('w, 'p) HotSwapPolicyReconciler \<Rightarrow> HotSwapPolicy \<Rightarrow> Deployment \<Rightarrow> PodState list \<Rightarrow> gotime \<Rightarrow>
   RemediationStrategy \<Rightarrow> ('w, 'p) rstate \<Rightarrow> effect list" where
  "remediation_actions r policy dep snapshot now strategy s =
     (let spec = Remediation (pol_Spec policy) in
      case run_state (act r policy dep strategy (unhealthy_of snapshot) spec now) s of
        (y, s') \<Rightarrow>
          filter remediation_effect (drop (length (trace s)) (trace s')) @
          (case y of
             Inl _ \<Rightarrow> []
           | Inr _ \<Rightarrow> [CounterInc (if DryRun spec then DryRunTotal else RemediationsTotal)
                         [pol_Namespace policy, pol_Name policy, strategy]]))"

lemma finish_no_action:
  "run_state (finish r p res) s = (x, s') \<Longrightarrow>
   \<exists>es. trace s' = trace s @ es \<and> filter remediation_effect es = []"
  by (auto simp: run_finish Let_def split: prod.splits)

lemma decide_actions:
  assumes len: "length snapshot < 2 ^ 31"
    and run: "run_state (decide r nn policy cfg dep snapshot now) s = (x, s')" and es: "trace s' = trace s @ es"
  shows "filter remediation_effect es =
    (case verdict_of policy dep snapshot now of
       Remediate strategy \<Rightarrow> remediation_actions r policy dep snapshot now strategy s
     | _ \<Rightarrow> [])"
proof -
  have run': "run_state (perform r nn policy cfg dep snapshot now (verdict_of policy dep snapshot now)) s = (x, s')"
    using run by (simp only: decide_verdict [OF len])
  show ?thesis
  proof (cases "verdict_of policy dep snapshot now")
    case (Remediate strategy)
    then have ne: "unhealthy_of snapshot \<noteq> []" by (simp add: verdict_Remediate_iff)
    let ?spec = "Remediation (pol_Spec policy)"
    obtain y s1 where a: "run_state (act r policy dep strategy (unhealthy_of snapshot) ?spec now) s = (y, s1)"
      by fastforce
    obtain as where as: "trace s1 = trace s @ as"
      using yieldsD [OF act_yields [OF ne, where I = "\<lambda>_. True"] TrueI a] by metis
    show ?thesis
    proof (cases y)
      case (Inl e)
      with run' a as es show ?thesis
        by (simp add: Remediate perform_def Let_def run_remediate remediation_actions_def)
    next
      case (Inr pod)
      from run' a as es Inr show ?thesis
        by (auto simp: Remediate perform_def Let_def run_remediate run_report_remediation remediation_actions_def
            dest!: finish_no_action)
    qed
  qed (use run' es in \<open>auto simp: perform_def Let_def emit_def dest!: finish_no_action\<close>)
qed

lemma act_ignores:
  "pol_Namespace p' = pol_Namespace p \<Longrightarrow> DryRun spec' = DryRun spec \<Longrightarrow> MaxConcurrent spec' = MaxConcurrent spec \<Longrightarrow>
   act r p' dep strategy unhealthy spec' now = act r p dep strategy unhealthy spec now"
  by (simp add: act_def)

text \<open>
  C19: with a positive cooldown \<open>maxConsecutiveAttempts\<close> never decides whether to remediate: for
  any two values of it the end of \<open>Reconcile\<close> makes the same patches and deletions and counts
  the same remediations or dry runs, because an open circuit breaker requires the cooldown to be
  running, and that already holds the remediation back.
\<close>

theorem breaker_never_decides:
  assumes "length snapshot < 2 ^ 31" and "0 < sint (CooldownSeconds (Remediation (pol_Spec policy)))"
    and "policy' = policy\<lparr>pol_Spec := (pol_Spec policy)\<lparr>Remediation :=
           (Remediation (pol_Spec policy))\<lparr>MaxConsecutiveAttempts := n\<rparr>\<rparr>\<rparr>"
    and "run_state (decide r nn policy cfg dep snapshot now) s = (x, s1)" and "trace s1 = trace s @ es"
    and "run_state (decide r nn policy' cfg dep snapshot now) s = (x', s1')" and "trace s1' = trace s @ es'"
  shows "filter remediation_effect es = filter remediation_effect es'"
proof -
  have "0 < cooldown_ns (Remediation (pol_Spec policy))" using assms(2) by (simp add: cooldown_ns_def)
  then have same: "verdict_of policy' dep snapshot now = Remediate strategy \<longleftrightarrow>
      verdict_of policy dep snapshot now = Remediate strategy" for strategy
    by (simp add: verdict_Remediate_iff assms(3))
  have actions: "remediation_actions r policy' dep snapshot now strategy s =
      remediation_actions r policy dep snapshot now strategy s" for strategy
  proof -
    have "act r policy' dep strategy unhealthy (Remediation (pol_Spec policy')) now =
        act r policy dep strategy unhealthy (Remediation (pol_Spec policy)) now" for unhealthy
      by (rule act_ignores; simp add: assms(3))
    moreover have "DryRun (Remediation (pol_Spec policy')) = DryRun (Remediation (pol_Spec policy))"
      "pol_Namespace policy' = pol_Namespace policy" "pol_Name policy' = pol_Name policy"
      by (simp_all add: assms(3))
    ultimately show ?thesis by (simp only: remediation_actions_def Let_def)
  qed
  show ?thesis
    unfolding decide_actions [OF assms(1,4,5)] decide_actions [OF assms(1,6,7)]
  proof (cases "\<exists>strategy. verdict_of policy dep snapshot now = Remediate strategy")
    case True
    then obtain strategy where v: "verdict_of policy dep snapshot now = Remediate strategy" by blast
    then show "(case verdict_of policy dep snapshot now of
        Remediate strategy \<Rightarrow> remediation_actions r policy dep snapshot now strategy s | _ \<Rightarrow> []) =
      (case verdict_of policy' dep snapshot now of
        Remediate strategy \<Rightarrow> remediation_actions r policy' dep snapshot now strategy s | _ \<Rightarrow> [])"
      using same [of strategy] actions [of strategy] by simp
  next
    case False
    then have "\<nexists>strategy. verdict_of policy' dep snapshot now = Remediate strategy" using same by simp
    with False show "(case verdict_of policy dep snapshot now of
        Remediate strategy \<Rightarrow> remediation_actions r policy dep snapshot now strategy s | _ \<Rightarrow> []) =
      (case verdict_of policy' dep snapshot now of
        Remediate strategy \<Rightarrow> remediation_actions r policy' dep snapshot now strategy s | _ \<Rightarrow> [])"
      by (simp split: verdict.split)
  qed
qed

theorem breaker_never_decides_witness:
  "\<exists>es. trace (snd (run_state (decide (exReconciler (exPolicy exSpec) (\<lambda>_. None)) exNN
        (exPolicy (exSpec\<lparr>MaxConsecutiveAttempts := 1\<rparr>)) exCfg exDep exSnapshot exNow) exState)) = es \<and>
     [PodDelete ''shop'' ''web-1'' None, CounterInc RemediationsTotal [''shop'', ''guard'', StrategyDeletePod]] =
     filter remediation_effect es"
proof -
  let ?r = "exReconciler (exPolicy exSpec) (\<lambda>_. None)"
  let ?decide = "\<lambda>p. decide ?r exNN p exCfg exDep exSnapshot exNow"
  have len: "length exSnapshot < 2 ^ 31" by (simp add: exSnapshot_def)
  have cool: "0 < sint (CooldownSeconds (Remediation (pol_Spec (exPolicy exSpec))))" by (simp add: exSpec_def)
  have p': "exPolicy (exSpec\<lparr>MaxConsecutiveAttempts := 1\<rparr>) = (exPolicy exSpec)\<lparr>pol_Spec := (pol_Spec (exPolicy exSpec))\<lparr>Remediation :=
           (Remediation (pol_Spec (exPolicy exSpec)))\<lparr>MaxConsecutiveAttempts := 1\<rparr>\<rparr>\<rparr>"
    by (simp add: exPolicy_def)
  obtain x s1 where run: "run_state (?decide (exPolicy exSpec)) exState = (x, s1)" by fastforce
  obtain x' s1' where run': "run_state (?decide (exPolicy (exSpec\<lparr>MaxConsecutiveAttempts := 1\<rparr>))) exState = (x', s1')"
    by fastforce
  have tr: "trace s1 = trace exState @ trace s1" and tr': "trace s1' = trace exState @ trace s1'" by simp_all
  have "filter remediation_effect (trace s1) =
      [PodDelete ''shop'' ''web-1'' None, CounterInc RemediationsTotal [''shop'', ''guard'', StrategyDeletePod]]"
    unfolding decide_actions [OF len run tr] exSpec_verdict verdict.case remediation_actions_def Let_def exPolicy_simps
    by (simp add: ex_act)
  then show ?thesis using breaker_never_decides [OF len cool p' run tr run' tr'] run' by simp
qed

text \<open>
  C30: the systemic-failure valve compares the share of failing targets with the percentage in
  exact arithmetic, without overflow, for fewer than two billion targets: it holds exactly if
  there are at least two targets, one of them fails, the percentage is positive and failing
  targets times 100 is at least the percentage times all targets.
\<close>

theorem isSystemic_exact:
  assumes "length failing < 2 ^ 31" and "length targets < 2 ^ 31"
  shows "isSystemic (len failing) (len targets) skip \<longleftrightarrow>
    2 \<le> length targets \<and> failing \<noteq> [] \<and> 0 < sint skip \<and>
    sint skip * int (length targets) \<le> 100 * int (length failing)"
proof -
  have "sint (len failing) = int (length failing)" "sint (len targets) = int (length targets)"
    using assms by (simp_all add: sint_len)
  then show ?thesis using assms by (subst isSystemic_iff) (auto simp: mult.commute)
qed

theorem isSystemic_exact_witness:
  "isSystemic (len [True]) (len [True, False]) 50 \<and> \<not> isSystemic (len [True]) (len [True, False]) 51 \<and>
   \<not> isSystemic (len [True]) (len [True]) 50"
  using isSystemic_exact [of "[True]" "[True, False]" 50] isSystemic_exact [of "[True]" "[True, False]" 51]
    isSystemic_exact [of "[True]" "[True]" 50]
  by simp

text \<open>
  C31: cooldown and circuit breaker measure the time since the last remediation exactly, also
  where \<open>Time.Sub\<close> saturates and for clocks that run backwards, and the product
  \<open>cooldownSeconds * time.Second\<close> does not overflow: the breaker is open, respectively the
  cooldown running, exactly if less than \<open>cooldownSeconds\<close> seconds have passed (and the
  attempts have reached their limit, respectively the cooldown is positive).
\<close>

theorem cooldown_exact:
  "(breakerOpen attempts limit lastRem (int64_of secs * Second) now \<longleftrightarrow>
      sint limit \<le> sint attempts \<and>
      (\<exists>l. lastRem = Some l \<and> now - rr_Time l < sint secs * 1000000000)) \<and>
   (cooldownActive lastRem (int64_of secs * Second) now \<longleftrightarrow>
      0 < sint secs \<and> (\<exists>l. lastRem = Some l \<and> now - rr_Time l < sint secs * 1000000000))"
proof -
  define spec where "spec = exSpec\<lparr>CooldownSeconds := secs\<rparr>"
  have "sint (int64_of secs * Second) = cooldown_ns spec"
    using sint_cooldown [of spec] by (simp add: spec_def)
  moreover have "cooldown_ns spec = sint secs * 1000000000" by (simp add: cooldown_ns_def spec_def)
  ultimately show ?thesis
    using cooldown_ns_range [of spec] by (simp add: breakerOpen_iff cooldownActive_iff)
qed

section \<open>Remediation\<close>

text \<open>The deletion loop when every deletion succeeds: as in a dry run.\<close>

lemma delete_loop_succeeds:
  assumes "\<And>name w. fst (cl_DeletePod (r_Client r) ns name w) = None"
  shows "fst (run_state (delete_loop r ns False limit ss acted actedPod) s) =
    fst (run_state (delete_loop r ns True limit ss acted actedPod) s')"
proof (induction ss arbitrary: acted actedPod s)
  case (Cons t ss)
  obtain w where "cl_DeletePod (r_Client r) ns (PodName t) (world s) = (None, w)"
    using assms [of "PodName t" "world s"] by (metis prod.collapse)
  then show ?case by (simp add: deletePod_def run_simps Cons.IH)
qed simp

lemma delete_loop_dry: "\<exists>pod. run_state (delete_loop r ns True limit ss acted actedPod) s = (Inr pod, s)"
  by (induction ss arbitrary: acted actedPod) auto

text \<open>
  C12: a dry run decides and records as a live run would: the verdict does not depend on
  \<open>dryRun\<close>, and when the API server accepts the patch and the deletions, the live run and the
  dry run record the same pod; the dry run leaves the world as it is.
\<close>

theorem dry_run_same_outcome:
  assumes "\<And>name w. fst (cl_DeletePod (r_Client r) (pol_Namespace policy) name w) = None"
    and "\<And>patch w. fst (cl_PatchDeployment (r_Client r) dep patch w) = None"
    and "unhealthy \<noteq> []"
  shows "\<exists>pod. fst (run_state (act r policy dep strategy unhealthy (spec\<lparr>DryRun := False\<rparr>) now) s) = Inr pod \<and>
      run_state (act r policy dep strategy unhealthy (spec\<lparr>DryRun := True\<rparr>) now) s = (Inr pod, s) \<and>
      verdict_of (policy\<lparr>pol_Spec := (pol_Spec policy)\<lparr>Remediation := spec\<lparr>DryRun := True\<rparr>\<rparr>\<rparr>) dep snapshot now =
      verdict_of (policy\<lparr>pol_Spec := (pol_Spec policy)\<lparr>Remediation := spec\<lparr>DryRun := False\<rparr>\<rparr>\<rparr>) dep snapshot now"
proof -
  have verdict: "verdict_of (policy\<lparr>pol_Spec := (pol_Spec policy)\<lparr>Remediation := spec\<lparr>DryRun := True\<rparr>\<rparr>\<rparr>) dep snapshot now =
      verdict_of (policy\<lparr>pol_Spec := (pol_Spec policy)\<lparr>Remediation := spec\<lparr>DryRun := False\<rparr>\<rparr>\<rparr>) dep snapshot now"
    by (simp add: verdict_of_def Let_def)
  obtain u us where u: "unhealthy = u # us" using assms(3) by (cases unhealthy) auto
  define limit where "limit = (if MaxConcurrent spec \<le>s 0 then 1 else MaxConcurrent spec)"
  have "\<exists>pod. fst (run_state (act r policy dep strategy unhealthy (spec\<lparr>DryRun := False\<rparr>) now) s) = Inr pod \<and>
      run_state (act r policy dep strategy unhealthy (spec\<lparr>DryRun := True\<rparr>) now) s = (Inr pod, s)"
  proof (cases "strategy = StrategyRolloutRestart")
    case True
    then show ?thesis
      using assms(2) [of "restart_patch now" "world s"]
      by (auto simp: act_def u rolloutRestart_def run_simps split: prod.split)
  next
    case restart: False
    show ?thesis
    proof (cases "strategy = StrategyDeletePod")
      case True
      obtain pod where "run_state (delete_loop r (pol_Namespace policy) True limit unhealthy 0 '''') s = (Inr pod, s)"
        using delete_loop_dry by blast
      with delete_loop_succeeds [OF assms(1), of limit unhealthy 0 "''''" s s] True
      show ?thesis by (auto simp: act_def limit_def Let_def)
    next
      case False
      with restart show ?thesis by (simp add: act_def)
    qed
  qed
  with verdict show ?thesis by blast
qed

theorem dry_run_same_outcome_witness:
  "\<exists>pod. fst (run_state (act (exReconciler (exPolicy exSpec) (\<lambda>_. None)) (exPolicy exSpec) exDep StrategyDeletePod
        exSnapshot (exSpec\<lparr>DryRun := False\<rparr>) exNow) exState) = Inr pod \<and>
      run_state (act (exReconciler (exPolicy exSpec) (\<lambda>_. None)) (exPolicy exSpec) exDep StrategyDeletePod
        exSnapshot (exSpec\<lparr>DryRun := True\<rparr>) exNow) exState = (Inr pod, exState)"
proof -
  let ?r = "exReconciler (exPolicy exSpec) (\<lambda>_. None)"
  have "fst (cl_DeletePod (r_Client ?r) (pol_Namespace (exPolicy exSpec)) name w) = None" for name w
    by simp
  moreover have "fst (cl_PatchDeployment (r_Client ?r) exDep patch w) = None" for patch w
    by (simp add: exClient_def)
  moreover have "exSnapshot \<noteq> []" by (simp add: exSnapshot_def)
  ultimately show ?thesis
    using dry_run_same_outcome [of ?r "exPolicy exSpec" exDep exSnapshot StrategyDeletePod exSpec exNow exState]
    by blast
qed

section \<open>Errors of a remediation\<close>

text \<open>
  C18: when a remediation ends with an error, the call ends with that error at once: nothing is
  written after it, so the status keeps its old attempts and last remediation, also when pods
  were deleted before the failing deletion.
\<close>

theorem failed_remediation_unrecorded:
  assumes "length snapshot < 2 ^ 31" and "verdict_of policy dep snapshot now = Remediate strategy"
    and "run_state (act r policy dep strategy (unhealthy_of snapshot) (Remediation (pol_Spec policy)) now) s =
           (Inl a, s1)"
  shows "run_state (decide r nn policy cfg dep snapshot now) s = (Inl a, s1)"
  using assms by (simp add: decide_verdict perform_def run_remediate Let_def)

text \<open>Two failing pods, both to be deleted; the second deletion fails.\<close>

definition exPair :: "PodState list" where
  "exPair = [PodState.truncate exSeen, PodState.truncate (exSeen\<lparr>PodName := ''web-2'', PodUID := ''u2''\<rparr>)]"

definition exBoth :: RemediationSpec where
  "exBoth = exSpec\<lparr>MaxConcurrent := 2, SystemicFailureSkipPercent := 0\<rparr>"

definition exSecondFails :: "nat \<Rightarrow> api_error option" where
  "exSecondFails n = (if n = 0 then None else Some (APIError ''timeout''))"

lemma exBoth_fields [simp]:
  "MaxConcurrent exBoth = 2" "DryRun exBoth = False" "SystemicFailureSkipPercent exBoth = 0"
  by (simp_all add: exBoth_def exSpec_def)

lemma exBoth_verdict: "verdict_of (exPolicy exBoth) exDep exPair exNow = Remediate StrategyDeletePod"
  by (simp add: verdict_Remediate_iff exPair_def unhealthy_of_def exSeen_def exEntry_def systemic_def)
    (simp add: exBoth_def exSpec_def exDep_def exStatus_def deploymentStable_def
      progressDeadlineExceeded_def within_cooldown_def chooseStrategy_def)

theorem failed_remediation_unrecorded_witness:
  "\<exists>s1. run_state (decide (exReconciler (exPolicy exBoth) exSecondFails) exNN (exPolicy exBoth) exCfg exDep exPair
        exNow) exState = (Inl (Err (APIError ''timeout'')), s1) \<and>
     trace s1 = [PodDelete ''shop'' ''web-1'' None, PodDelete ''shop'' ''web-2'' (Some (APIError ''timeout''))]"
proof -
  let ?r = "exReconciler (exPolicy exBoth) exSecondFails"
  have "\<exists>s1. run_state (act ?r (exPolicy exBoth) exDep StrategyDeletePod (unhealthy_of exPair) exBoth exNow) exState =
      (Inl (Err (APIError ''timeout'')), s1) \<and>
     trace s1 = [PodDelete ''shop'' ''web-1'' None, PodDelete ''shop'' ''web-2'' (Some (APIError ''timeout''))]"
    by (simp add: act_def exPair_def unhealthy_of_def exSeen_def exEntry_def Let_def go_cmp deletePod_def
        run_simps exSecondFails_def IsNotFound_def)
  then show ?thesis
    using failed_remediation_unrecorded [OF _ exBoth_verdict, of ?r exState] by (auto simp: exPair_def)
qed

lemma delete_loop_not_found:
  assumes "\<And>name w. fst (cl_DeletePod (r_Client r) ns name w) = Some NotFound" and "\<not> limit \<le>s acted"
  shows "\<exists>s' es. run_state (delete_loop r ns False limit ss acted actedPod) s = (Inr actedPod, s') \<and>
    trace s' = trace s @ es \<and> deleted_count es = 0"
proof (induction ss arbitrary: s)
  case (Cons t ss)
  obtain w where w: "cl_DeletePod (r_Client r) ns (PodName t) (world s) = (Some NotFound, w)"
    using assms(1) [of "PodName t" "world s"] by (metis prod.collapse)
  let ?s = "s\<lparr>world := w, trace := trace s @ [PodDelete ns (PodName t) (Some NotFound)]\<rparr>"
  from Cons.IH [of ?s] obtain s' es where
    "run_state (delete_loop r ns False limit ss acted actedPod) ?s = (Inr actedPod, s')"
    "trace s' = trace ?s @ es" "deleted_count es = 0" by blast
  then show ?case using assms(2) w
    by (intro exI [of _ s'] exI [of _ "PodDelete ns (PodName t) (Some NotFound) # es"])
      (simp add: deletePod_def run_simps IsNotFound_def)
qed simp

text \<open>
  C20: a remediation that finds every pod already gone deletes nothing and is recorded all the
  same: it counts as an attempt and as a remediation in the metrics, and becomes the last
  remediation, with an empty pod name.
\<close>

theorem vanished_pods_counted:
  assumes "\<And>name w. fst (cl_DeletePod (r_Client r) (pol_Namespace policy) name w) = Some NotFound"
    and "\<not> DryRun spec"
  shows "\<exists>p s' es. run_state (remediate r policy dep StrategyDeletePod unhealthy spec now) s = (Inr p, s') \<and>
    trace s' = trace s @ es \<and> deleted_count es = 0 \<and>
    CounterInc RemediationsTotal [pol_Namespace policy, pol_Name policy, StrategyDeletePod] \<in> set es \<and>
    ConsecutiveAttempts (pol_Status p) = ConsecutiveAttempts (pol_Status policy) + 1 \<and>
    map_option rr_PodName (LastRemediation (pol_Status p)) = Some '''' \<and>
    map_option rr_Time (LastRemediation (pol_Status p)) = Some now"
proof -
  define limit where "limit = (if MaxConcurrent spec \<le>s 0 then 1 else MaxConcurrent spec)"
  have "\<not> limit \<le>s 0" by (simp add: limit_def go_cmp)
  from delete_loop_not_found [OF assms(1) this, of unhealthy "''''" s] obtain s' es where
    loop: "run_state (delete_loop r (pol_Namespace policy) False limit unhealthy 0 '''') s = (Inr '''', s')"
      "trace s' = trace s @ es" "deleted_count es = 0" by blast
  have "run_state (act r policy dep StrategyDeletePod unhealthy spec now) s = (Inr '''', s')"
    using loop(1) assms(2) by (auto simp: act_def limit_def Let_def)
  then show ?thesis
    using loop(2,3) assms(2)
    by (simp add: run_remediate run_report_remediation Let_def record_remediation_def)
qed

theorem vanished_pods_counted_witness:
  "\<exists>p s' es. run_state (remediate (exReconciler (exPolicy exSpec) (\<lambda>_. Some NotFound)) (exPolicy exSpec) exDep
       StrategyDeletePod exSnapshot exSpec exNow) exState = (Inr p, s') \<and>
    trace s' = trace exState @ es \<and> deleted_count es = 0 \<and> ConsecutiveAttempts (pol_Status p) = 1"
proof -
  let ?r = "exReconciler (exPolicy exSpec) (\<lambda>_. Some NotFound)"
  have "fst (cl_DeletePod (r_Client ?r) (pol_Namespace (exPolicy exSpec)) name w) = Some NotFound" for name w
    by simp
  from vanished_pods_counted [of ?r "exPolicy exSpec" exSpec exDep exSnapshot exNow exState, OF this]
  show ?thesis by (auto simp: exStatus_def)
qed

section \<open>One guardian per Deployment\<close>

text \<open>
  C14: of the policies of a namespace that target one Deployment (distinct names) exactly one
  finds no rival to yield to, and every other is told the name of that one: two reconciles
  that see the same list never both guard the Deployment.
\<close>

theorem one_guardian:
  assumes names: "distinct (map pol_Name items)" "'''' \<notin> pol_Name ` set items"
    and some: "p0 \<in> set items" "target_of p0 = name"
  shows "\<exists>p. p \<in> set items \<and> target_of p = name \<and> conflicting_winner p items = '''' \<and>
    (\<forall>q \<in> set items. target_of q = name \<and> q \<noteq> p \<longrightarrow> conflicting_winner q items = pol_Name p)"
proof -
  define ts where "ts = filter (\<lambda>p. target_of p = name) items"
  define p where "p = fold policies.keep ts p0"
  have named: "\<forall>q \<in> set items. pol_Name q \<noteq> ''''" using names(2) by force
  have p0: "p0 \<in> set ts" using some by (simp add: ts_def)
  then have p: "p \<in> set ts" using policies.fold_keep_in [of ts p0] by (auto simp: p_def)
  have inj: "q = q'" if "q \<in> set ts" "q' \<in> set ts" "pol_Name q = pol_Name q'" for q q'
    using that names(1) by (auto simp: ts_def distinct_map inj_on_def)
  have rivals: "set (rivals q items) = set ts - {q}" if "q \<in> set ts" for q
    using inj that by (auto simp: rivals_def ts_def)
  have least: "lessPolicy p q" if "q \<in> set ts" "q \<noteq> p" for q
  proof -
    have "\<not> lessPolicy q p" unfolding p_def by (rule policies.fold_keep_min) (use that in simp)
    moreover have "pol_Name p \<noteq> pol_Name q" using inj p that by metis
    ultimately show ?thesis using policies.less_total by blast
  qed
  have win: "conflicting_winner p items = ''''"
    using named least rivals [OF p] by (subst conflicting_winner_Nil_iff) auto
  have lose: "conflicting_winner q items = pol_Name p" if "q \<in> set ts" "q \<noteq> p" for q
  proof -
    let ?w = "fold policies.keep (rivals q items) q"
    have "\<not> lessPolicy p ?w"
      by (rule policies.fold_keep_min) (use p that rivals in simp)
    moreover have "?w \<in> set ts" using policies.fold_keep_in [of "rivals q items" q] rivals that by auto
    ultimately have "?w = p" using least by metis
    moreover have "pol_Name p \<noteq> pol_Name q" using inj p that by metis
    ultimately show ?thesis by (simp add: conflicting_winner_def winner_loop_fold Let_def)
  qed
  show ?thesis using p win lose by (intro exI [of _ p]) (auto simp: ts_def)
qed

definition exOlder :: HotSwapPolicy where
  "exOlder = (exPolicy exSpec)\<lparr>pol_Name := ''first'', pol_CreationTimestamp := Unix 500\<rparr>"

theorem one_guardian_witness:
  "\<exists>p. p \<in> {exPolicy exSpec, exOlder} \<and> conflicting_winner p [exPolicy exSpec, exOlder] = ''''"
proof -
  have t: "target_of (exPolicy exSpec) = ''web''" "target_of exOlder = ''web''"
    by (simp_all add: exOlder_def target_of_def exPolicy_def)
  show ?thesis
    using one_guardian [of "[exPolicy exSpec, exOlder]" "exPolicy exSpec" "''web''"] t
    by (auto simp: exOlder_def)
qed

section \<open>Status conditions\<close>

text \<open>What a condition of a type says.\<close>

definition says :: "string \<Rightarrow> Condition list \<Rightarrow> (ConditionStatus \<times> string \<times> string \<times> int64) list" where
  "says ty cs = map (\<lambda>c. (c_Status c, c_Reason c, c_Message c, c_ObservedGeneration c))
     (filter (\<lambda>c. c_Type c = ty) cs)"

text \<open>
  The documented behaviour of \<open>meta.SetStatusCondition\<close> and \<open>meta.RemoveStatusCondition\<close>
  on a list with one condition per type: the given condition replaces that of its type or is
  added, respectively those of the type are removed, and the other types stay as they are.
\<close>

definition condition_functions :: "K8sLib \<Rightarrow> bool" where
  "condition_functions k \<longleftrightarrow>
     (\<forall>c cs. distinct (map c_Type cs) \<longrightarrow>
        distinct (map c_Type (k_SetStatusCondition k c cs)) \<and>
        (\<forall>ty. says ty (k_SetStatusCondition k c cs) =
           (if ty = c_Type c then [(c_Status c, c_Reason c, c_Message c, c_ObservedGeneration c)] else says ty cs))) \<and>
     (\<forall>ty cs. distinct (map c_Type cs) \<longrightarrow>
        distinct (map c_Type (k_RemoveStatusCondition k ty cs)) \<and>
        (\<forall>ty'. says ty' (k_RemoveStatusCondition k ty cs) = (if ty' = ty then [] else says ty' cs)))"

lemma says_notin: "ty \<notin> c_Type ` set cs \<Longrightarrow> says ty cs = []"
  by (auto simp: says_def filter_empty_conv)

lemma says_remove:
  "says ty' (filter (\<lambda>c. c_Type c \<noteq> ty) cs) = (if ty' = ty then [] else says ty' cs)"
  by (induction cs) (auto simp: says_def)

lemma condition_functions_exLib: "condition_functions exLib"
proof -
  have set: "says ty (set_condition c cs) =
      (if ty = c_Type c then [(c_Status c, c_Reason c, c_Message c, c_ObservedGeneration c)] else says ty cs)"
    and types: "c_Type ` set (set_condition c cs) = insert (c_Type c) (c_Type ` set cs)"
    and dist: "distinct (map c_Type (set_condition c cs))"
    if "distinct (map c_Type cs)" for ty c cs
    using that
  proof (induction cs)
    case (Cons d ds)
    {
      case 1
      moreover have "says (c_Type d) ds = []" using 1 by (intro says_notin) simp
      ultimately show ?case using Cons by (auto simp: says_def)
    next
      case 2
      then show ?case using Cons by auto
    next
      case 3
      then show ?case using Cons by auto
    }
  qed (simp_all add: says_def)
  show ?thesis
    unfolding condition_functions_def
    using set dist by (auto simp: exLib_def says_remove distinct_map_filter)
qed

text \<open>
  C16: whatever the conditions were (one per type), after each of the three status helpers they
  name one state only: Healthy true and nothing else, or Healthy false with Remediating true
  and no Degraded, or Healthy false with Degraded true and no Remediating; each with the
  helper's reason, message and generation, and conditions of other types untouched.
\<close>

theorem conditions_exclusive:
  assumes "condition_functions (r_lib r)" and "distinct (map c_Type (Conditions (pol_Status p)))"
  shows "(let cs = Conditions (pol_Status (setHealthy r p)) in
      says ConditionHealthy cs = [(ConditionTrue, ReasonAllHealthy, ''all targets healthy'', pol_Generation p)] \<and>
      says ConditionRemediating cs = [] \<and> says ConditionDegraded cs = [] \<and> distinct (map c_Type cs)) \<and>
    (let cs = Conditions (pol_Status (setRemediating r p msg)) in
      says ConditionHealthy cs = [(ConditionFalse, ReasonRemediating, msg, pol_Generation p)] \<and>
      says ConditionRemediating cs = [(ConditionTrue, ReasonRemediating, msg, pol_Generation p)] \<and>
      says ConditionDegraded cs = [] \<and> distinct (map c_Type cs)) \<and>
    (let cs = Conditions (pol_Status (setDegraded r p reason msg)) in
      says ConditionHealthy cs = [(ConditionFalse, reason, msg, pol_Generation p)] \<and>
      says ConditionDegraded cs = [(ConditionTrue, reason, msg, pol_Generation p)] \<and>
      says ConditionRemediating cs = [] \<and> distinct (map c_Type cs)) \<and>
    (\<forall>q ty. q \<in> {setHealthy r p, setRemediating r p msg, setDegraded r p reason msg} \<and>
       ty \<notin> {ConditionHealthy, ConditionRemediating, ConditionDegraded} \<longrightarrow>
       says ty (Conditions (pol_Status q)) = says ty (Conditions (pol_Status p)))"
  using assms unfolding condition_functions_def
  by (auto simp: setHealthy_def setRemediating_def setDegraded_def newCondition_def Let_def)

theorem conditions_exclusive_witness:
  "says ConditionDegraded (Conditions (pol_Status (setDegraded (exReconciler (exPolicy exSpec) (\<lambda>_. None))
      (exPolicy exSpec) ReasonCircuitOpen ''open''))) = [(ConditionTrue, ReasonCircuitOpen, ''open'', 2)]"
  using conditions_exclusive [of "exReconciler (exPolicy exSpec) (\<lambda>_. None)" "exPolicy exSpec" "''open''" ReasonCircuitOpen]
  by (simp add: condition_functions_exLib exStatus_def Let_def)

section \<open>The circuit gauge\<close>

lemma remediate_no_gauge:
  assumes "unhealthy \<noteq> []"
  shows "yields I (remediate r policy dep strategy unhealthy spec now) (\<lambda>x es. \<forall>vs v. GaugeSet CircuitOpen vs v \<notin> set es)"
proof -
  have "yields I (case x of Inl a \<Rightarrow> State_Monad.return (Inl a)
      | Inr actedPod \<Rightarrow> do {
          policy \<leftarrow> report_remediation r policy actedPod strategy (DryRun spec) now;
          State_Monad.return (Inr policy) })
      (\<lambda>y es. \<forall>vs v. GaugeSet CircuitOpen vs v \<notin> set es)" for x :: "abort + string"
    by (auto simp: report_remediation_def Let_def intro!: emits_intros split: sum.split)
  then show ?thesis
    unfolding remediate_def
    by (intro yields_mono [OF yields_seq [OF act_yields [OF assms]]])
      (auto simp: act_effects_def split: if_splits)
qed

text \<open>
  C35: a \<open>Reconcile\<close> that goes on to remediate sets no sample of the circuit gauge: once the
  breaker has opened, the gauge keeps its value 1 through the remediations that follow the
  cooldown, until a reconcile finds all targets healthy.
\<close>

theorem remediation_leaves_circuit_gauge:
  assumes "length snapshot < 2 ^ 31" and v: "verdict_of policy dep snapshot now = Remediate strategy"
    and run: "run_state (decide r nn policy cfg dep snapshot now) s = (x, s')"
    and tr: "trace s' = trace s @ es"
  shows "GaugeSet CircuitOpen vs value \<notin> set es"
proof -
  have ne: "unhealthy_of snapshot \<noteq> []" using v by (simp add: verdict_Remediate_iff)
  have after: "yields (\<lambda>_. True) (case y of Inl a \<Rightarrow> State_Monad.return (Inl a)
      | Inr policy \<Rightarrow> finish r policy (after (Period cfg)))
      (\<lambda>x es. \<forall>vs v. GaugeSet CircuitOpen vs v \<notin> set es)" for y :: "abort + HotSwapPolicy"
    by (auto intro!: emits_intros split: sum.split)
  have "yields (\<lambda>_. True) (decide r nn policy cfg dep snapshot now)
      (\<lambda>x es. \<forall>vs v. GaugeSet CircuitOpen vs v \<notin> set es)"
    unfolding decide_verdict [OF assms(1)] v perform_def Let_def verdict.case
    by (rule yields_mono [OF yields_seq [OF remediate_no_gauge [OF ne] after]]) auto
  from yields_run [OF this _ run tr] show ?thesis by blast
qed

theorem remediation_leaves_circuit_gauge_witness:
  "\<exists>x s'. run_state (decide (exReconciler (exPolicy exSpec) (\<lambda>_. None)) exNN (exPolicy exSpec) exCfg exDep
        exSnapshot exNow) exState = (x, s') \<and> (\<forall>vs value. GaugeSet CircuitOpen vs value \<notin> set (trace s'))"
proof -
  obtain x s' where run: "run_state (decide (exReconciler (exPolicy exSpec) (\<lambda>_. None)) exNN (exPolicy exSpec)
      exCfg exDep exSnapshot exNow) exState = (x, s')" by fastforce
  have "length exSnapshot < 2 ^ 31" "trace s' = trace exState @ trace s'" by simp_all
  from remediation_leaves_circuit_gauge [OF this(1) exSpec_verdict run this(2)] run show ?thesis by blast
qed

section \<open>The probe configuration\<close>

text \<open>
  C29: \<open>normalizeProbe\<close> refuses a probe that is not \<open>httpGet\<close> and one whose port is named or not
  positive, each with its message, and accepts every other; what it accepts has the kubelet's
  defaults in place of values that are not positive, durations that are exact in nanoseconds
  (no overflow), a positive port, period, timeout and thresholds, and of several headers of one
  name the last.
\<close>

theorem normalizeProbe_sound:
  "(HTTPGet p = None \<longrightarrow> normalizeProbe p = Inl httpGet_required) \<and>
   (\<forall>h. HTTPGet p = Some h \<longrightarrow>
      (if ios_Type (hg_Port h) = IntType \<and> 0 < sint (IntVal (hg_Port h))
       then \<exists>cfg. normalizeProbe p = Inr cfg \<and> normalized cfg \<and>
         sint (Period cfg) = (if 0 < sint (PeriodSeconds p) then sint (PeriodSeconds p) else 10) * 1000000000 \<and>
         sint (Timeout cfg) = (if 0 < sint (TimeoutSeconds p) then sint (TimeoutSeconds p) else 1) * 1000000000 \<and>
         sint (InitialDelay cfg) =
           (if 0 < sint (InitialDelaySeconds p) then sint (InitialDelaySeconds p) else 0) * 1000000000 \<and>
         sint (SuccessThreshold cfg) = (if 0 < sint (p_SuccessThreshold p) then sint (p_SuccessThreshold p) else 1) \<and>
         sint (FailureThreshold cfg) = (if 0 < sint (p_FailureThreshold p) then sint (p_FailureThreshold p) else 3) \<and>
         Path cfg = hg_Path h \<and> Scheme cfg = hg_Scheme h \<and> Port cfg = IntVal (hg_Port h) \<and>
         dom (Headers cfg) = hd_Name ` set (hg_HTTPHeaders h) \<and>
         (\<forall>pre hd post. hg_HTTPHeaders h = pre @ hd # post \<and> hd_Name hd \<notin> hd_Name ` set post \<longrightarrow>
            Headers cfg (hd_Name hd) = Some (hd_Value hd))
       else normalizeProbe p = Inl port_required))"
  (is "?A \<and> (\<forall>h. ?B h \<longrightarrow> ?C h)")
proof (intro conjI allI impI)
  show "HTTPGet p = None \<Longrightarrow> normalizeProbe p = Inl httpGet_required"
    by (simp add: normalizeProbe_def)
next
  fix h assume h: "HTTPGet p = Some h"
  show "?C h"
  proof (cases "ios_Type (hg_Port h) = IntType \<and> 0 < sint (IntVal (hg_Port h))")
    case False
    then show ?thesis by (auto simp: normalizeProbe_def h go_cmp)
  next
    case True
    then obtain cfg where cfg: "normalizeProbe p = Inr cfg" by (simp add: normalizeProbe_def h go_cmp)
    then have "normalized cfg" by (rule normalizeProbe_normalized)
    moreover have fields: "Path cfg = hg_Path h" "Scheme cfg = hg_Scheme h" "Port cfg = IntVal (hg_Port h)"
      "Period cfg = seconds (PeriodSeconds p) 10" "Timeout cfg = seconds (TimeoutSeconds p) 1"
      "InitialDelay cfg = seconds (InitialDelaySeconds p) 0"
      "SuccessThreshold cfg = threshold (p_SuccessThreshold p) 1"
      "FailureThreshold cfg = threshold (p_FailureThreshold p) 3"
      "Headers cfg = headers_map (hg_HTTPHeaders h)"
      using cfg h by (auto elim: normalizeProbe_Inr)
    moreover have "dom (Headers cfg) = hd_Name ` set (hg_HTTPHeaders h)"
      by (simp add: fields headers_map_def dom_fold_map_upd)
    moreover have "\<forall>pre hd post. hg_HTTPHeaders h = pre @ hd # post \<and> hd_Name hd \<notin> hd_Name ` set post \<longrightarrow>
        Headers cfg (hd_Name hd) = Some (hd_Value hd)"
      by (metis fields(9) headers_map_last)
    ultimately show ?thesis
      using True cfg by (simp add: sint_seconds sint_threshold) metis
  qed
qed

theorem normalizeProbe_sound_witness:
  "\<exists>cfg. normalizeProbe exProbe = Inr cfg \<and> normalized cfg \<and> sint (Period cfg) = 5000000000 \<and>
     sint (Timeout cfg) = 1000000000"
proof -
  obtain h where h: "HTTPGet exProbe = Some h" "ios_Type (hg_Port h) = IntType" "0 < sint (IntVal (hg_Port h))"
    by (simp add: exProbe_def)
  have "PeriodSeconds exProbe = 5" "TimeoutSeconds exProbe = 0" by (simp_all add: exProbe_def)
  then show ?thesis using normalizeProbe_sound [of exProbe] h by auto
qed

text \<open>The headers of a policy, by name, and as they are set on the request.\<close>

lemma headers_map_Some:
  "headers_map hs k = Some v \<Longrightarrow>
   \<exists>pre hd post. hs = pre @ hd # post \<and> hd_Name hd = k \<and> hd_Value hd = v \<and> k \<notin> hd_Name ` set post"
proof (induction hs rule: rev_induct)
  case (snoc h hs)
  show ?case
  proof (cases "hd_Name h = k")
    case True
    with snoc.prems show ?thesis
      by (intro exI [of _ hs] exI [of _ h] exI [of _ "[]"]) (simp add: headers_map_snoc)
  next
    case False
    with snoc obtain pre hd post where
      "hs = pre @ hd # post" "hd_Name hd = k" "hd_Value hd = v" "k \<notin> hd_Name ` set post"
      by (auto simp: headers_map_snoc)
    with False show ?thesis
      by (intro exI [of _ pre] exI [of _ hd] exI [of _ "post @ [h]"]) simp
  qed
qed (simp add: headers_map_def)

lemma dom_headers_map: "dom (headers_map hs) = hd_Name ` set hs"
  by (simp add: headers_map_def dom_fold_map_upd)

abbreviation set_header :: "(string \<rightharpoonup> string) \<Rightarrow> string \<Rightarrow> (string \<rightharpoonup> string) \<Rightarrow> (string \<rightharpoonup> string)" where
  "set_header headers k h \<equiv> (case headers k of None \<Rightarrow> h | Some v \<Rightarrow> h(CanonicalHeaderKey k \<mapsto> v))"

lemma fold_set_header:
  "dom (fold (set_header headers) ks m) = dom m \<union> CanonicalHeaderKey ` (set ks \<inter> dom headers)"
  "fold (set_header headers) ks m c = Some v \<Longrightarrow>
     m c = Some v \<or> (\<exists>k. headers k = Some v \<and> CanonicalHeaderKey k = c)"
  by (induction ks rule: rev_induct) (auto split: option.splits if_splits)

lemma request_headers_spec:
  assumes "finite (dom headers)"
  shows "dom (request_headers ord headers) = CanonicalHeaderKey ` dom headers"
    and "request_headers ord headers c = Some v \<Longrightarrow> \<exists>k. headers k = Some v \<and> CanonicalHeaderKey k = c"
  using assms fold_set_header(1) [of headers "keys_of ord (dom headers)" Map.empty]
    fold_set_header(2) [of headers "keys_of ord (dom headers)" Map.empty c v]
  by (simp_all add: request_headers_def)


text \<open>A probe with a header given twice.\<close>

definition exHeaders :: HTTPGetAction where
  "exHeaders = \<lparr>hg_Path = ''healthz'', hg_Port = \<lparr>ios_Type = IntType, IntVal = 8080, StrVal = ''''\<rparr>,
     hg_Host = '''', hg_Scheme = ''HTTP'',
     hg_HTTPHeaders = [\<lparr>hd_Name = ''accept'', hd_Value = ''a''\<rparr>, \<lparr>hd_Name = ''accept'', hd_Value = ''b''\<rparr>]\<rparr>"


end
