(* ===== verification/ProberProps.thy ===== *)
theory ProberProps
  imports Scenario "HOL-Library.Multiset"
begin

text \<open>
  Properties of the prober: the threshold state machine against the history of results, the
  store of tracked pods under \<open>Sync\<close>, \<open>Snapshot\<close> and \<open>Forget\<close>, and the probe loops under
  every interleaving.
\<close>

section \<open>Thresholds\<close>

text \<open>
  C5: the health of a pod is decided by its history of probe results alone: it is unhealthy
  exactly if some run of \<open>failureThreshold\<close> failures in a row has not been followed by a run
  of \<open>successThreshold\<close> successes in a row, and the two counters are the lengths of the
  runs at the end of the history (for fewer than two billion results).
\<close>

theorem probe_history:
  assumes "length rs < 2 ^ 31"
  shows "(Healthy (record_all cfg (new_podEntry t) rs) \<longleftrightarrow>
      \<not> down (nat (sint (success_of cfg))) (nat (sint (failure_of cfg))) (map fst rs)) \<and>
    sint (ConsecutiveFailures (record_all cfg (new_podEntry t) rs)) = int (streak False (map fst rs)) \<and>
    sint (ConsecutiveSuccesses (record_all cfg (new_podEntry t) rs)) = int (streak True (map fst rs))"
  using record_all_Healthy [OF assms] sint_streak [of "map fst rs"] assms
  by (simp add: record_all_counters)

theorem probe_history_witness:
  "\<not> Healthy (record_all exCfg (new_podEntry (pod_target exPod)) [(True, 1), (False, 2)]) \<and>
   down 1 1 [True, False] \<and>
   sint (ConsecutiveFailures (record_all exCfg (new_podEntry (pod_target exPod)) [(True, 1), (False, 2)])) = 1"
proof -
  have "\<not> Healthy (record_all exCfg (new_podEntry (pod_target exPod)) [(True, 1), (False, 2)])"
    by (simp add: record_probe_def new_podEntry_def exCfg_def success_of_def failure_of_def Let_def go_cmp)
  then show ?thesis
    using probe_history [of "[(True, 1), (False, 2)]" exCfg "pod_target exPod"]
    by (simp add: success_of_def failure_of_def exCfg_def go_cmp streak_def)
qed

section \<open>The store\<close>

text \<open>\<open>Snapshot\<close> read off the entries.\<close>

lemma Snapshot_entries:
  "Snapshot K ord nn m =
     List.map_filter (\<lambda>u. map_option PodState.truncate (entry_at m (K nn) u))
       (keys_of ord (dom (entry_at m (K nn))))"
proof (cases "policies m (K nn)")
  case None
  then have "entry_at m (K nn) = Map.empty" by (simp add: entry_at_def fun_eq_iff)
  then show ?thesis using None by (simp add: Snapshot_def map_filter_simps)
next
  case (Some pe)
  then have "entry_at m (K nn) = pe_pods pe" by (simp add: entry_at_def fun_eq_iff)
  then show ?thesis using Some by (simp add: Snapshot_def)
qed

lemma Snapshot_cong: "entry_at m (K nn) = entry_at m' (K nn) \<Longrightarrow> Snapshot K ord nn m = Snapshot K ord nn m'"
  by (simp add: Snapshot_entries)

lemma desired_map_notin: "u \<notin> t_UID ` set ts \<Longrightarrow> desired_map ts u = None"
  using dom_desired_map [of ts] by auto

lemma desired_map_last: "t_UID t \<notin> t_UID ` set post \<Longrightarrow> desired_map (pre @ t # post) (t_UID t) = Some t"
  by (simp add: desired_map_def fold_map_upd_notin)

text \<open>
  C11: after \<open>Sync\<close> the policy tracks exactly the targets, with the given probe
  configuration. A pod already tracked keeps its health, counters and Ready mark and takes the
  name and address of its last target; a new pod starts healthy, unseen and with a loop of its
  own; a pod that is gone is dropped and its loop cancelled, and no other loop is cancelled.
\<close>

theorem Sync_tracks_targets:
  assumes wf: "wf_manager K m" and m': "m' = Sync K ord nn cfg ts m"
  shows "(\<forall>u. u \<notin> t_UID ` set ts \<longrightarrow> entry_at m' (K nn) u = None) \<and>
    (\<forall>pre t post. ts = pre @ t # post \<and> t_UID t \<notin> t_UID ` set post \<longrightarrow>
       (case entry_at m (K nn) (t_UID t) of
          Some pod \<Rightarrow>
            entry_at m' (K nn) (t_UID t) = Some (pod\<lparr>PodIP := t_IP t, PodName := t_Name t\<rparr>)
        | None \<Rightarrow>
            \<exists>c. entry_at m' (K nn) (t_UID t) = Some ((new_podEntry t)\<lparr>cancel := Some c\<rparr>) \<and>
                runs_for K m' (K nn) (t_UID t) c)) \<and>
    cancelled m' = cancelled m \<union>
      {c. \<exists>u pod. u \<notin> t_UID ` set ts \<and> entry_at m (K nn) u = Some pod \<and> cancel pod = Some c} \<and>
    map_option pe_cfg (policies m' (K nn)) = Some cfg"
proof (intro conjI allI impI)
  fix u assume "u \<notin> t_UID ` set ts"
  then show "entry_at m' (K nn) u = None"
    using entry_at_Sync [OF wf, where ts = ts and u = u and ord = ord and nn = nn and cfg = cfg] by (simp add: m' desired_map_notin)
next
  fix pre t post assume ts: "ts = pre @ t # post \<and> t_UID t \<notin> t_UID ` set post"
  then have "desired_map ts (t_UID t) = Some t" by (auto simp: desired_map_last)
  then have sync: "synced (entry_at m (K nn) (t_UID t)) t (entry_at m' (K nn) (t_UID t))"
    using entry_at_Sync [OF wf, where ts = ts and u = "t_UID t" and ord = ord and nn = nn and cfg = cfg] by (simp add: m')
  have wf': "wf_manager K m'" unfolding m' by (rule wf_Sync [OF wf])
  have "\<exists>c. entry_at m' (K nn) (t_UID t) = Some ((new_podEntry t)\<lparr>cancel := Some c\<rparr>) \<and>
      runs_for K m' (K nn) (t_UID t) c" if "entry_at m (K nn) (t_UID t) = None"
  proof -
    from sync that obtain c where "entry_at m' (K nn) (t_UID t) = Some ((new_podEntry t)\<lparr>cancel := Some c\<rparr>)"
      by (auto simp: synced_def)
    with wf_entry [OF wf' this] show ?thesis by auto
  qed
  then show "case entry_at m (K nn) (t_UID t) of
      Some pod \<Rightarrow> entry_at m' (K nn) (t_UID t) = Some (pod\<lparr>PodIP := t_IP t, PodName := t_Name t\<rparr>)
    | None \<Rightarrow> \<exists>c. entry_at m' (K nn) (t_UID t) = Some ((new_podEntry t)\<lparr>cancel := Some c\<rparr>) \<and>
        runs_for K m' (K nn) (t_UID t) c"
    using sync by (simp add: synced_def split: option.splits)
next
  have "desired_map ts u = None \<longleftrightarrow> u \<notin> t_UID ` set ts" for u
    using dom_desired_map [of ts] by auto
  then show "cancelled m' = cancelled m \<union>
      {c. \<exists>u pod. u \<notin> t_UID ` set ts \<and> entry_at m (K nn) u = Some pod \<and> cancel pod = Some c}"
    by (simp add: m' cancelled_Sync [OF wf])
next
  show "map_option pe_cfg (policies m' (K nn)) = Some cfg"
    by (cases "sync_loops ord nn ts (old_pods m (K nn), m)") (simp add: m' Sync_commit commit_def)
qed

text \<open>The pod of the example is replaced by another one.\<close>

definition exReplaced :: Manager where
  "exReplaced = Sync exString ascending exNN exCfg
     [\<lparr>t_Name = ''web-2'', t_UID = ''u2'', t_IP = ''''\<rparr>] exManager"

theorem Sync_tracks_targets_witness:
  "entry_at exReplaced ''shop/guard'' ''u1'' = None \<and> entry_at exReplaced ''shop/guard'' ''u2'' \<noteq> None \<and>
   cancelled exReplaced = {0}"
proof -
  have k: "exString exNN = ''shop/guard''" by (simp add: exString_def exNN_def)
  have old: "entry_at exManager ''shop/guard'' = [''u1'' \<mapsto> exEntry]"
    by (simp add: exManager_eval entry_at_def fun_eq_iff)
  have ctx: "cancelled exManager = {}" "cancel exEntry = Some 0"
    by (simp_all add: exManager_eval NewManager_def exEntry_def)
  note spec = Sync_tracks_targets [OF exManager_wf exReplaced_def, unfolded k old]
  from spec have "entry_at exReplaced ''shop/guard'' ''u1'' = None" by simp
  moreover from spec have "entry_at exReplaced ''shop/guard'' ''u2'' \<noteq> None"
    by (elim conjE allE [of _ "[]"]) auto
  moreover from spec have "cancelled exReplaced = {0}" by (auto simp: ctx)
  ultimately show ?thesis by blast
qed

text \<open>
  C27: a \<open>Snapshot\<close> holds the state of every tracked pod of the policy and nothing else, no
  pod twice, and the order in which the runtime walks the map changes only its order.
\<close>

theorem Snapshot_exact:
  assumes wf: "wf_manager K m"
  shows "set (Snapshot K ord nn m) = {PodState.truncate pod | u pod. entry_at m (K nn) u = Some pod} \<and>
    distinct (map PodUID (Snapshot K ord nn m)) \<and>
    mset (Snapshot K ord nn m) = mset (Snapshot K ord' nn m)"
proof (intro conjI)
  have d: "distinct (Snapshot K ord nn m)" for ord
    using distinct_Snapshot [OF wf, of ord nn] by (simp add: distinct_map)
  show "mset (Snapshot K ord nn m) = mset (Snapshot K ord' nn m)"
    using d by (subst set_eq_iff_mset_eq_distinct [symmetric]) (simp_all add: set_Snapshot [OF wf])
qed (rule set_Snapshot [OF wf], rule distinct_Snapshot [OF wf])

theorem Snapshot_exact_witness:
  "set (Snapshot exString ascending exNN exManager) = {PodState.truncate exEntry}"
proof -
  have "entry_at exManager (exString exNN) = [''u1'' \<mapsto> exEntry]"
    by (simp add: exManager_eval entry_at_def fun_eq_iff exString_def exNN_def)
  then show ?thesis
    using Snapshot_exact [OF exManager_wf, of ascending exNN ascending] by auto
qed

text \<open>
  C28: policies are isolated: no call for one policy, nor the result of a probe of one of its
  pods, changes what the snapshot of another policy shows.
\<close>

theorem policies_isolated:
  assumes "K nn \<noteq> K nn'"
  shows "Snapshot K ord nn' (Sync K ord' nn cfg ts m) = Snapshot K ord nn' m \<and>
    Snapshot K ord nn' (SetSeenReady K nn u m) = Snapshot K ord nn' m \<and>
    Snapshot K ord nn' (Forget K ord' nn m) = Snapshot K ord nn' m \<and>
    Snapshot K ord nn' (snd (probe_record K nn u cfg ok now m)) = Snapshot K ord nn' m"
  using assms
  by (intro conjI Snapshot_cong)
    (auto simp: entry_at_Sync_other entry_at_SetSeenReady entry_at_Forget entry_at_probe_record fun_eq_iff)

definition exOther :: NamespacedName where
  "exOther = \<lparr>nn_Namespace = ''shop'', nn_Name = ''first''\<rparr>"

theorem policies_isolated_witness:
  "Snapshot exString ascending exNN (Forget exString ascending exOther exManager) =
   Snapshot exString ascending exNN exManager"
proof -
  have "exString exOther \<noteq> exString exNN" by (simp add: exString_def exNN_def exOther_def)
  from policies_isolated [OF this] show ?thesis by blast
qed

end
