(* ===== verification/LoopProps.thy ===== *)
theory LoopProps
  imports Scenario
begin

text \<open>
  Properties of the probe loops under every interleaving of goroutines, reconciler calls,
  event reads and shutdown.
\<close>

section \<open>One live loop per tracked pod\<close>

lemma live_loop_unique:
  assumes "wf_manager K m" and "g \<in> set (spawned m)" "g_ctx g \<notin> cancelled m"
    and "g' \<in> set (spawned m)" "g_ctx g' \<notin> cancelled m"
    and "K (g_nn g) = K (g_nn g')" "g_uid g = g_uid g'"
  shows "g = g'"
proof -
  obtain pod where "entry_at m (K (g_nn g)) (g_uid g) = Some pod" "cancel pod = Some (g_ctx g)"
    using wf_goroutine [OF assms(1-3)] by blast
  moreover obtain pod' where "entry_at m (K (g_nn g')) (g_uid g') = Some pod'" "cancel pod' = Some (g_ctx g')"
    using wf_goroutine [OF assms(1,4,5)] by blast
  ultimately have "g_ctx g = g_ctx g'" using assms(6,7) by simp
  then show ?thesis by (rule wf_ctx_inj [OF assms(1,2,4)])
qed

text \<open>
  C7: in every reachable state each tracked pod has exactly one probe loop that has not been
  cancelled, and that loop has not returned unless the manager was shut down; conversely each
  such loop probes a tracked pod. The event channel holds at most its capacity, and no ticker
  has a period that is not positive (for which \<open>NewTicker\<close> panics).
\<close>

theorem tracked_pods_probed:
  assumes "reachable K s"
  shows "(\<forall>k u. entry_at (sm s) k u \<noteq> None \<longleftrightarrow>
      (\<exists>!g. g \<in> set (spawned (sm s)) \<and> g_ctx g \<notin> cancelled (sm s) \<and> K (g_nn g) = k \<and> g_uid g = u)) \<and>
    (\<forall>g. at s g Returned \<longrightarrow> g_ctx g \<in> cancelled (sm s) \<or> rootCancelled (sm s)) \<and>
    length (events (sm s)) \<le> eventsCap \<and>
    (\<forall>c p. period_of (loops s c) = Some p \<longrightarrow> 0 < sint p)"
proof -
  have inv: "system_inv K s" using assms by (rule reachable_inv)
  then have wf: "wf_manager K (sm s)" by (simp add: system_inv_def)
  have "entry_at (sm s) k u \<noteq> None \<longleftrightarrow>
      (\<exists>!g. g \<in> set (spawned (sm s)) \<and> g_ctx g \<notin> cancelled (sm s) \<and> K (g_nn g) = k \<and> g_uid g = u)" for k u
  proof
    assume "entry_at (sm s) k u \<noteq> None"
    then obtain pod where "entry_at (sm s) k u = Some pod" by blast
    then obtain c where "c \<notin> cancelled (sm s)" "runs_for K (sm s) k u c" by (rule wf_entry [OF wf])
    then show "\<exists>!g. g \<in> set (spawned (sm s)) \<and> g_ctx g \<notin> cancelled (sm s) \<and> K (g_nn g) = k \<and> g_uid g = u"
      unfolding runs_for_def using live_loop_unique [OF wf] by metis
  next
    assume "\<exists>!g. g \<in> set (spawned (sm s)) \<and> g_ctx g \<notin> cancelled (sm s) \<and> K (g_nn g) = k \<and> g_uid g = u"
    then show "entry_at (sm s) k u \<noteq> None" using wf_goroutine [OF wf] by (metis option.distinct(1))
  qed
  with inv show ?thesis by (simp add: system_inv_def ctxDone_def disj_commute)
qed

abbreviation exTarget :: PodTarget where "exTarget \<equiv> pod_target exPod"

abbreviation exLoop :: goroutine where "exLoop \<equiv> \<lparr>g_ctx = 0, g_nn = exNN, g_uid = ''u1''\<rparr>"

definition exTracked :: Manager where
  "exTracked = Sync exString ascending exNN exCfg [exTarget] NewManager"

definition exSystem :: system where "exSystem = initial_system\<lparr>sm := exTracked\<rparr>"

lemma exSystem_reachable: "reachable exString exSystem"
proof -
  have "step exString initial_system (initial_system\<lparr>sm := Sync exString ascending exNN exCfg [exTarget]
      (sm initial_system)\<rparr>)" by (rule step.sync)
  then show ?thesis
    using reachable.next_step [OF reachable.init] by (simp add: exSystem_def exTracked_def initial_system_def)
qed

lemma exTracked_eval:
  "exTracked = NewManager\<lparr>policies := [''shop/guard'' \<mapsto> \<lparr>pe_cfg = exCfg,
       pe_pods = [''u1'' \<mapsto> (new_podEntry exTarget)\<lparr>cancel := Some 0\<rparr>]\<rparr>],
     nextCtx := 1, spawned := [exLoop]\<rparr>"
  by (simp add: exTracked_def Sync_def NewManager_def desired_map_def pod_target_def
      exPod_def exString_def exNN_def add_pod_def Let_def)

theorem tracked_pods_probed_witness:
  "\<exists>!g. g \<in> set (spawned exTracked) \<and> g_ctx g \<notin> cancelled exTracked \<and>
      exString (g_nn g) = ''shop/guard'' \<and> g_uid g = ''u1''"
proof -
  have "entry_at (sm exSystem) ''shop/guard'' ''u1'' \<noteq> None"
    by (simp add: exSystem_def exTracked_eval entry_at_def)
  with tracked_pods_probed [OF exSystem_reachable] show ?thesis by (simp add: exSystem_def)
qed

section \<open>Cancelled loops end\<close>

lemma probe_record_frame:
  assumes "probe_record K nn u cfg ok now m = (tr, m')"
  shows "events m' = events m" "spawned m' = spawned m" "cancelled m' = cancelled m"
    "rootCancelled m' = rootCancelled m"
  using probe_record_fields [of K nn u cfg ok now m] by (simp_all add: assms)

lemma spawned_mono:
  assumes "step K s t"
  shows "set (spawned (sm s)) \<subseteq> set (spawned (sm t))"
  using assms
proof cases
  case (sync ord nn cfg ts)
  then show ?thesis using spawned_Sync [of K ord nn cfg ts "sm s"] by auto
next
  case (recorded g p cfg ok now tr m)
  then show ?thesis by (simp add: probe_record_frame)
qed (auto simp: Start_def)

lemma ctxDone_mono:
  assumes "step K s t" and "reachable K s" and "ctxDone (sm s) c"
  shows "ctxDone (sm t) c"
proof -
  have wf: "wf_manager K (sm s)" using reachable_inv [OF assms(2)] by (simp add: system_inv_def)
  from assms(1) show ?thesis
  proof cases
    case (recorded g p cfg ok now tr m)
    then show ?thesis using assms(3) by (simp add: probe_record_frame ctxDone_def)
  next
    case (sync ord nn cfg ts)
    then show ?thesis using assms(3) by (auto simp: cancelled_Sync [OF wf] Sync_frame ctxDone_def)
  next
    case (forget ord nn)
    then show ?thesis using assms(3) by (auto simp: cancelled_Forget [OF wf] ctxDone_def)
  qed (use assms(3) in \<open>auto simp: ctxDone_def Start_def\<close>)
qed

text \<open>How many moves a loop is at most away from its end, unless its ticker fires again.\<close>

fun moves_left :: "pc \<Rightarrow> nat" where
  "moves_left Entering = 7"
| "moves_left (Delaying _) = 6"
| "moves_left (Probing _) = 5"
| "moves_left (Checking _ _ _) = 4"
| "moves_left (Recording _ _ _ _) = 3"
| "moves_left (Sending _) = 2"
| "moves_left (Waiting _) = 1"
| "moves_left Returned = 0"

fun ticked :: "pc \<Rightarrow> pc \<Rightarrow> bool" where
  "ticked (Waiting _) (Probing _) = True"
| "ticked _ _ = False"

text \<open>
  \<open>winding K g s n k t\<close>: a run from \<open>s\<close> to \<open>t\<close> in which the loop \<open>g\<close> makes \<open>n\<close> moves of its own
  and is woken by its ticker \<open>k\<close> times besides; everyone else moves at will in between.
\<close>

inductive winding ::
  "(NamespacedName \<Rightarrow> string) \<Rightarrow> goroutine \<Rightarrow> system \<Rightarrow> nat \<Rightarrow> nat \<Rightarrow> system \<Rightarrow> bool"
  for K g s where
  here: "winding K g s 0 0 s"
| others: "winding K g s n k t \<Longrightarrow> step K t u \<Longrightarrow> loops u (g_ctx g) = loops t (g_ctx g) \<Longrightarrow>
    winding K g s n k u"
| own: "winding K g s n k t \<Longrightarrow> step K t u \<Longrightarrow> loops u (g_ctx g) \<noteq> loops t (g_ctx g) \<Longrightarrow>
    \<not> ticked (loops t (g_ctx g)) (loops u (g_ctx g)) \<Longrightarrow> winding K g s (Suc n) k u"
| woken: "winding K g s n k t \<Longrightarrow> step K t u \<Longrightarrow> ticked (loops t (g_ctx g)) (loops u (g_ctx g)) \<Longrightarrow>
    winding K g s n (Suc k) u"

lemma moves_left_step:
  assumes "step K t u" and "loops u c \<noteq> loops t c"
  shows "if ticked (loops t c) (loops u c) then moves_left (loops u c) = moves_left (loops t c) + 4
    else moves_left (loops u c) < moves_left (loops t c)"
  using assms
proof cases
  case (recorded g p cfg ok now tr m)
  then show ?thesis using assms(2) by (auto simp: at_def split: if_splits)
qed (use assms(2) in \<open>auto simp: at_def split: if_splits\<close>)

lemma winding_moves:
  assumes "winding K g s n k t" and "reachable K s" and "g \<in> set (spawned (sm s))" and "ctxDone (sm s) (g_ctx g)"
  shows "reachable K t \<and> g \<in> set (spawned (sm t)) \<and> ctxDone (sm t) (g_ctx g) \<and>
    n + moves_left (loops t (g_ctx g)) \<le> moves_left (loops s (g_ctx g)) + 4 * k"
  using assms
proof induction
  case (own n k t u)
  then show ?case
    using moves_left_step [of K t u "g_ctx g"] spawned_mono [of K t u] ctxDone_mono [of K t u "g_ctx g"]
    by (auto intro: reachable.next_step)
next
  case (woken n k t u)
  then have "loops u (g_ctx g) \<noteq> loops t (g_ctx g)" by (cases "loops t (g_ctx g)") auto
  with woken show ?case
    using moves_left_step [of K t u "g_ctx g"] spawned_mono [of K t u] ctxDone_mono [of K t u "g_ctx g"]
    by (auto intro: reachable.next_step)
next
  case (others n k t u)
  then show ?case
    using spawned_mono [of K t u] ctxDone_mono [of K t u "g_ctx g"] by (auto intro: reachable.next_step)
qed simp

text \<open>A cancelled loop always has a move of its own that is not the ticker's.\<close>

lemma cancelled_moves:
  assumes g: "g \<in> set (spawned (sm t))" and dead: "ctxDone (sm t) (g_ctx g)"
    and live: "loops t (g_ctx g) \<noteq> Returned"
  obtains u where "step K t u" and "loops u (g_ctx g) \<noteq> loops t (g_ctx g)"
    and "\<not> ticked (loops t (g_ctx g)) (loops u (g_ctx g))"
proof -
  have at: "at t g (loops t (g_ctx g))" using g by (simp add: at_def)
  show thesis
  proof (cases "loops t (g_ctx g)")
    case Entering
    then show thesis
      using at that step.enter_gone [of t g K] step.enter_delay [of t g K] step.enter_probe [of t g K]
      by (cases "run_start K (g_nn g) (sm t)") fastforce+
  next
    case (Delaying p)
    then show thesis using at that [OF step.delay_cancelled [OF _ dead]] by simp
  next
    case (Probing p)
    then show thesis
      using at that step.read_gone [of t g p K] step.read [of t g p K]
      by (cases "probe_read K (g_nn g) (g_uid g) (sm t)") fastforce+
  next
    case (Checking p cfg ip)
    then show thesis using at that [OF step.checked] by simp
  next
    case (Recording p cfg ok now)
    obtain tr m where "probe_record K (g_nn g) (g_uid g) cfg ok now (sm t) = (tr, m)" by fastforce
    then show thesis using Recording at that [OF step.recorded] by simp
  next
    case (Sending p)
    then show thesis using at that [OF step.send_cancelled [OF _ dead]] by simp
  next
    case (Waiting p)
    then show thesis using at that [OF step.wait_cancelled [OF _ dead]] by simp
  qed (use live in simp)
qed



section \<open>A full event channel\<close>

text \<open>
  C23: while the event channel is full, a loop that has a transition to report and is not
  cancelled does not move: no step of anyone takes it further, so it probes its pod no more
  until the controller reads an event.
\<close>

theorem full_channel_blocks:
  assumes "at s g (Sending p)" and "length (events (sm s)) = eventsCap"
    and "\<not> ctxDone (sm s) (g_ctx g)" and "step K s t"
  shows "loops t (g_ctx g) = Sending p"
  using assms(4)
proof cases
  case (recorded g' q cfg ok now tr m)
  then show ?thesis using assms(1) by (auto simp: at_def)
qed (use assms(1-3) in \<open>auto simp: at_def\<close>)

definition exBlocked :: system where
  "exBlocked = exSystem\<lparr>loops := (\<lambda>_. Sending Second),
     sm := exTracked\<lparr>events := replicate eventsCap exNN\<rparr>\<rparr>"

theorem full_channel_blocks_witness:
  "loops (exBlocked\<lparr>sm := SetSeenReady exString exNN ''u1'' (sm exBlocked)\<rparr>) 0 = Sending Second"
proof -
  have "at exBlocked exLoop (Sending Second)" "length (events (sm exBlocked)) = eventsCap"
    "\<not> ctxDone (sm exBlocked) (g_ctx exLoop)"
    by (simp_all add: exBlocked_def exTracked_eval at_def ctxDone_def NewManager_def)
  from full_channel_blocks [OF this step.seen_ready] show ?thesis by simp
qed

section \<open>Results of stopped loops\<close>

text \<open>The loop of the example up to the result of its first check, a failure.\<close>

definition exFailed :: system where
  "exFailed = exSystem\<lparr>loops := (loops exSystem)(0 := Recording (5 * Second) exCfg False exNow),
     probeSamples := [probe_labels exNN False]\<rparr>"

lemma exFailed_reachable: "reachable exString exFailed"
proof -
  let ?p = "5 * Second"
  have g: "exLoop \<in> set (spawned (sm exSystem))" by (simp add: exSystem_def exTracked_eval)
  have "step exString exSystem (goto exSystem exLoop (Probing ?p))"
    by (rule step.enter_probe [where d = 0])
      (simp_all add: g at_def exSystem_def exTracked_eval run_start_def exString_def exNN_def
        initial_system_def exCfg_def Second_def go_cmp)
  with exSystem_reachable have 1: "reachable exString (goto exSystem exLoop (Probing ?p))"
    by (rule reachable.next_step)
  have "step exString (goto exSystem exLoop (Probing ?p))
      (goto (goto exSystem exLoop (Probing ?p)) exLoop (Checking ?p exCfg ''10.0.0.7''))"
    by (rule step.read)
      (simp_all add: g at_def probe_read_def exSystem_def exTracked_eval exString_def exNN_def
        new_podEntry_def pod_target_def exPod_def)
  with 1 have 2: "reachable exString
      (goto (goto exSystem exLoop (Probing ?p)) exLoop (Checking ?p exCfg ''10.0.0.7''))"
    by (rule reachable.next_step)
  have c: "at (goto (goto exSystem exLoop (Probing ?p)) exLoop (Checking ?p exCfg ''10.0.0.7'')) exLoop
      (Checking ?p exCfg ''10.0.0.7'')"
    using g by (simp add: at_def)
  from reachable.next_step [OF 2 step.checked [OF c, where ok = False and now = exNow]]
  show ?thesis by (simp add: exFailed_def goto_def exSystem_def initial_system_def)
qed

text \<open>
  C21: a pod can be recorded unhealthy on the result of a check that was started for an earlier
  registration of it: when a policy is forgotten and synchronised again while a check is in
  flight, the loop that was cancelled still finds the fresh entry and records its failure
  there, although the entry's own loop has not started.
\<close>

theorem stale_result_recorded:
  "\<exists>s pod c. reachable exString s \<and> entry_at (sm s) (exString exNN) ''u1'' = Some pod \<and>
     cancel pod = Some c \<and> loops s c = Entering \<and> c \<notin> cancelled (sm s) \<and>
     \<not> Healthy pod \<and> SeenReady pod"
proof -
  let ?f = "exFailed\<lparr>sm := Forget exString ascending exNN (sm exFailed)\<rparr>"
  let ?a = "?f\<lparr>sm := Sync exString ascending exNN exCfg [exTarget] (sm ?f)\<rparr>"
  let ?b = "?a\<lparr>sm := SetSeenReady exString exNN ''u1'' (sm ?a)\<rparr>"
  have "reachable exString ?f"
    by (rule reachable.next_step [OF exFailed_reachable step.forget])
  from reachable.next_step [OF this step.sync] have "reachable exString ?a" .
  from reachable.next_step [OF this step.seen_ready] have b: "reachable exString ?b" .
  have seen: "sm ?b = NewManager\<lparr>policies := [''shop/guard'' \<mapsto> \<lparr>pe_cfg = exCfg,
       pe_pods = [''u1'' \<mapsto> (new_podEntry exTarget)\<lparr>cancel := Some 1, SeenReady := True\<rparr>]\<rparr>],
     nextCtx := 2, cancelled := {0}, spawned := [exLoop, exLoop\<lparr>g_ctx := 1\<rparr>]\<rparr>"
    by (simp add: exFailed_def exSystem_def exTracked_eval Forget_def forget_pod_def cancel_ctx_def
        Sync_def NewManager_def desired_map_def pod_target_def exPod_def exString_def exNN_def
        add_pod_def SetSeenReady_def new_podEntry_def Let_def)
  have at0: "at ?b exLoop (Recording (5 * Second) exCfg False exNow)"
    unfolding at_def seen by (simp add: exFailed_def)
  obtain tr m where rec: "probe_record exString (g_nn exLoop) (g_uid exLoop) exCfg False exNow (sm ?b) = (tr, m)"
    by fastforce
  let ?c = "(goto ?b exLoop (if tr then Sending (5 * Second) else Waiting (5 * Second)))\<lparr>sm := m\<rparr>"
  have c: "reachable exString ?c" by (rule reachable.next_step [OF b step.recorded [OF at0 rec]])
  have m: "m = snd (probe_record exString exNN ''u1'' exCfg False exNow (sm ?b))" using rec by simp
  have "\<exists>pod. entry_at m (exString exNN) ''u1'' = Some pod \<and> cancel pod = Some 1 \<and>
      \<not> Healthy pod \<and> SeenReady pod" "cancelled m = {0}"
    unfolding m entry_at_probe_record probe_record_fields unfolding seen
    by (simp_all add: entry_at_def exString_def exNN_def record_probe_def new_podEntry_def exCfg_def
        success_of_def failure_of_def Let_def go_cmp NewManager_def)
  moreover have "loops ?c 1 = Entering" by (simp add: exFailed_def exSystem_def initial_system_def)
  ultimately show ?thesis using c
    by (intro exI [of _ ?c]) auto
qed

end
