(* ===== verification/GoHeap.thy ===== *)
theory GoHeap
  imports Prelude
begin

text \<open>
  Memory as the generated copy functions see it. A heap maps addresses to cells and knows the
  next free address; a pointer is an address or nil, a slice a window on an array cell or nil.
  The locale \<open>deep_copier\<close> is the contract of a \<open>DeepCopyInto\<close>: the copy denotes the same value,
  everything it reaches is newly allocated, and no cell that existed before is written. The
  copiers of pointers, slices, structs and pairs of fields inherit it from their parts.
\<close>

section \<open>Heaps\<close>

type_synonym addr = nat

record 'c heap =
  cells :: "addr \<rightharpoonup> 'c"
  next_addr :: addr

text \<open>\<open>new\<close> and \<open>make\<close> reserve an address; \<open>put\<close> writes through a pointer. A reserved cell is
  written once, when the value copied into it is complete; nothing reads it before.\<close>

definition alloc :: "'c heap \<Rightarrow> addr \<times> 'c heap" where
  "alloc h = (next_addr h, h\<lparr>next_addr := Suc (next_addr h)\<rparr>)"

definition put :: "addr \<Rightarrow> 'c \<Rightarrow> 'c heap \<Rightarrow> 'c heap" where
  "put a c h = h\<lparr>cells := (cells h)(a \<mapsto> c)\<rparr>"

definition heap_ok :: "'c heap \<Rightarrow> bool" where
  "heap_ok h \<longleftrightarrow> (\<forall>a\<in>dom (cells h). a < next_addr h)"

definition agree :: "addr set \<Rightarrow> 'c heap \<Rightarrow> 'c heap \<Rightarrow> bool" where
  "agree A h h' \<longleftrightarrow> (\<forall>a\<in>A. cells h' a = cells h a)"

definition extends :: "'c heap \<Rightarrow> 'c heap \<Rightarrow> bool" where
  "extends h h' \<longleftrightarrow> heap_ok h' \<and> next_addr h \<le> next_addr h' \<and> agree {..<next_addr h} h h'"

lemma put_sel [simp]: "cells (put a c h) = (cells h)(a \<mapsto> c)" "next_addr (put a c h) = next_addr h"
  by (simp_all add: put_def)

lemma agree_mono: "agree B h h' \<Longrightarrow> A \<subseteq> B \<Longrightarrow> agree A h h'"
  by (auto simp: agree_def)

lemma agree_put: "a \<notin> A \<Longrightarrow> agree A h h' \<Longrightarrow> agree A h (put a c h')"
  by (auto simp: agree_def)

lemma extends_refl: "heap_ok h \<Longrightarrow> extends h h"
  by (simp add: extends_def agree_def)

lemma extends_trans: "extends h h1 \<Longrightarrow> extends h1 h2 \<Longrightarrow> extends h h2"
  by (auto simp: extends_def agree_def)

lemma extends_next: "extends h h' \<Longrightarrow> next_addr h \<le> next_addr h'"
  by (simp add: extends_def)

lemma extends_ok: "extends h h' \<Longrightarrow> heap_ok h'"
  by (simp add: extends_def)

lemma extends_agree: "heap_ok h \<Longrightarrow> extends h h' \<Longrightarrow> A \<subseteq> dom (cells h) \<Longrightarrow> agree A h h'"
  by (force simp: extends_def agree_def heap_ok_def)

lemma alloc_extends: "heap_ok h \<Longrightarrow> alloc h = (q, h1) \<Longrightarrow> extends h h1 \<and> next_addr h1 = Suc q \<and> q = next_addr h"
  unfolding alloc_def extends_def agree_def heap_ok_def by (auto intro!: less_SucI dest: bspec [OF _ domI])

lemma extends_put: "extends h h' \<Longrightarrow> next_addr h \<le> q \<Longrightarrow> q < next_addr h' \<Longrightarrow> extends h (put q c h')"
  by (auto simp: extends_def agree_def heap_ok_def)

section \<open>The contract of a copy function\<close>

text \<open>What the value \<open>v'\<close> in the heap \<open>h'\<close> has to be, to be a copy of \<open>v\<close> in \<open>h\<close>. A view reads
  the value a Go value denotes, None where a pointer dangles; a footprint is the set of cells it
  reaches.\<close>

definition copied ::
  "('c heap \<Rightarrow> 'v \<Rightarrow> 'a option) \<Rightarrow> ('c heap \<Rightarrow> 'v \<Rightarrow> addr set) \<Rightarrow>
   'c heap \<Rightarrow> 'v \<Rightarrow> 'c heap \<Rightarrow> 'v \<Rightarrow> bool" where
  "copied vw ft h v h' v' \<longleftrightarrow>
     extends h h' \<and> vw h' v' = vw h v \<and> ft h' v' \<subseteq> {next_addr h..<next_addr h'}"

lemma copiedI:
  "extends h h' \<Longrightarrow> vw h' v' = vw h v \<Longrightarrow> ft h' v' \<subseteq> {next_addr h..<next_addr h'} \<Longrightarrow>
   copied vw ft h v h' v'"
  by (simp add: copied_def)

locale deep_copier =
  fixes cp :: "'c heap \<Rightarrow> 'v \<Rightarrow> 'c heap \<times> 'v"
    and vw :: "'c heap \<Rightarrow> 'v \<Rightarrow> 'a option"
    and ft :: "'c heap \<Rightarrow> 'v \<Rightarrow> addr set"
  assumes footprint_allocated: "vw h v = Some x \<Longrightarrow> ft h v \<subseteq> dom (cells h)"
    and frame: "vw h v = Some x \<Longrightarrow> agree (ft h v) h h' \<Longrightarrow> vw h' v = Some x \<and> ft h' v = ft h v"
    and copy: "heap_ok h \<Longrightarrow> vw h v = Some x \<Longrightarrow> cp h v = (h', v') \<Longrightarrow> copied vw ft h v h' v'"
begin

text \<open>Allocation does not disturb a value.\<close>

lemma later:
  assumes "heap_ok h" "vw h v = Some x" "extends h h'"
  shows "vw h' v = Some x" "ft h' v = ft h v"
  using frame [OF assms(2) extends_agree [OF assms(1,3) footprint_allocated [OF assms(2)]]] by simp_all

text \<open>A copy made on the way stays a copy.\<close>

lemma copied_later:
  assumes ok: "heap_ok h" and x: "vw h v = Some x" and c: "copied vw ft h v h1 v'" and e: "extends h1 h2"
  shows "vw h2 v' = Some x" "ft h2 v' \<subseteq> {next_addr h..<next_addr h1}"
proof -
  have "extends h h1" and "vw h1 v' = Some x" and "ft h1 v' \<subseteq> {next_addr h..<next_addr h1}"
    using c x by (simp_all add: copied_def)
  then show "vw h2 v' = Some x" "ft h2 v' \<subseteq> {next_addr h..<next_addr h1}"
    using later [OF extends_ok [of h h1] _ e] by simp_all
qed

text \<open>The copy and the original cannot be told from each other by writing to either one: writes
  that spare the footprint of the one leave its value alone, and the footprints are disjoint.\<close>

lemma isolated:
  assumes ok: "heap_ok h" and x: "vw h v = Some x" and cp: "cp h v = (h', v')"
  shows "ft h v \<inter> ft h' v' = {}"
    and "agree (- ft h' v') h' h'' \<Longrightarrow> vw h'' v = Some x"
    and "agree (- ft h v) h' h'' \<Longrightarrow> vw h'' v' = Some x"
proof -
  have c: "copied vw ft h v h' v'" by (rule copy [OF ok x cp])
  have old: "ft h v \<subseteq> {..<next_addr h}"
    using footprint_allocated [OF x] ok by (auto simp: heap_ok_def)
  then show disj: "ft h v \<inter> ft h' v' = {}"
    using c by (fastforce simp: copied_def)
  have e: "extends h h'" using c by (simp add: copied_def)
  note keep = later [OF ok x e]
  show "vw h'' v = Some x" if a: "agree (- ft h' v') h' h''"
  proof -
    have "agree (ft h' v) h' h''" by (rule agree_mono [OF a]) (use disj keep in auto)
    then show ?thesis by (rule frame [OF keep(1), THEN conjunct1])
  qed
  show "vw h'' v' = Some x" if a: "agree (- ft h v) h' h''"
  proof -
    have "agree (ft h' v') h' h''" by (rule agree_mono [OF a]) (use disj in auto)
    moreover have "vw h' v' = Some x" using c x by (simp add: copied_def)
    ultimately show ?thesis by (rule frame [THEN conjunct1, rotated])
  qed
qed

end


section \<open>Values without pointers\<close>

text \<open>An assignment copies them.\<close>

lemma value_copier: "deep_copier (\<lambda>h v. (h, v)) (\<lambda>h v. Some (f v)) (\<lambda>h v. {})"
  by unfold_locales (auto simp: copied_def extends_refl)

section \<open>Two fields in a row\<close>

definition copy_pair ::
  "('c heap \<Rightarrow> 'v \<Rightarrow> 'c heap \<times> 'v) \<Rightarrow> ('c heap \<Rightarrow> 'w \<Rightarrow> 'c heap \<times> 'w) \<Rightarrow>
   'c heap \<Rightarrow> 'v \<times> 'w \<Rightarrow> 'c heap \<times> ('v \<times> 'w)" where
  "copy_pair f g h = (\<lambda>(v, w). let (h1, v') = f h v; (h2, w') = g h1 w in (h2, (v', w')))"

definition view_pair ::
  "('c heap \<Rightarrow> 'v \<Rightarrow> 'a option) \<Rightarrow> ('c heap \<Rightarrow> 'w \<Rightarrow> 'b option) \<Rightarrow>
   'c heap \<Rightarrow> 'v \<times> 'w \<Rightarrow> ('a \<times> 'b) option" where
  "view_pair f g h = (\<lambda>(v, w). Option.bind (f h v) (\<lambda>a. map_option (Pair a) (g h w)))"

definition ft_pair ::
  "('c heap \<Rightarrow> 'v \<Rightarrow> addr set) \<Rightarrow> ('c heap \<Rightarrow> 'w \<Rightarrow> addr set) \<Rightarrow> 'c heap \<Rightarrow> 'v \<times> 'w \<Rightarrow> addr set" where
  "ft_pair f g h = (\<lambda>(v, w). f h v \<union> g h w)"

lemma view_pair_Some:
  "view_pair f g h (v, w) = Some x \<longleftrightarrow> f h v = Some (fst x) \<and> g h w = Some (snd x)"
  by (cases x) (auto simp: view_pair_def bind_eq_Some_conv)

lemma pair_copier:
  assumes f: "deep_copier f vf ff" and g: "deep_copier g vg fg"
  shows "deep_copier (copy_pair f g) (view_pair vf vg) (ft_pair ff fg)"
proof
  fix h h' v v' x
  assume vp: "view_pair vf vg h v = Some x"
  obtain a b where v: "v = (a, b)" by (cases v)
  from vp have x: "vf h a = Some (fst x)" "vg h b = Some (snd x)" by (simp_all add: v view_pair_Some)
  show "ft_pair ff fg h v \<subseteq> dom (cells h)"
    using deep_copier.footprint_allocated [OF f x(1)] deep_copier.footprint_allocated [OF g x(2)]
    by (simp add: v ft_pair_def)
  show "view_pair vf vg h' v = Some x \<and> ft_pair ff fg h' v = ft_pair ff fg h v"
    if a: "agree (ft_pair ff fg h v) h h'"
  proof -
    have "agree (ff h a) h h'" "agree (fg h b) h h'"
      using a by (auto simp: v ft_pair_def agree_def)
    note s = deep_copier.frame [OF f x(1) this(1)] deep_copier.frame [OF g x(2) this(2)]
    then show ?thesis by (simp add: v view_pair_Some ft_pair_def)
  qed
  show "copied (view_pair vf vg) (ft_pair ff fg) h v h' v'"
    if ok: "heap_ok h" and cp: "copy_pair f g h v = (h', v')"
  proof -
    obtain h1 a' b' where 1: "f h a = (h1, a')" and 2: "g h1 b = (h', b')" and v': "v' = (a', b')"
      using cp by (auto simp: v copy_pair_def split: prod.splits)
    have c1: "copied vf ff h a h1 a'" by (rule deep_copier.copy [OF f ok x(1) 1])
    then have e1: "extends h h1" by (simp add: copied_def)
    have b1: "vg h1 b = Some (snd x)" by (rule deep_copier.later [OF g ok x(2) e1])
    have c2: "copied vg fg h1 b h' b'" by (rule deep_copier.copy [OF g extends_ok [OF e1] b1 2])
    then have e2: "extends h1 h'" by (simp add: copied_def)
    note k = deep_copier.copied_later [OF f ok x(1) c1 e2]
    have "ft_pair ff fg h' v' \<subseteq> {next_addr h..<next_addr h'}"
      using k(2) c2 extends_next [OF e1] extends_next [OF e2] by (fastforce simp: v' ft_pair_def copied_def)
    moreover have "view_pair vf vg h' v' = view_pair vf vg h v"
    proof -
      have "vg h' b' = Some (snd x)" using c2 b1 by (simp add: copied_def)
      with k(1) x show ?thesis by (simp add: v v' view_pair_def)
    qed
    ultimately show ?thesis by (intro copiedI extends_trans [OF e1 e2])
  qed
qed

section \<open>Structs\<close>

text \<open>
  A struct is first assigned whole (\<open>*out = *in\<close>); then the fields that need it are copied one
  level deeper and overwritten. \<open>sel\<close> reads those fields, \<open>upd\<close> overwrites them, and \<open>build\<close>
  makes the value of the struct from the values of those fields and, unchanged, the others.
\<close>

lemma struct_copier:
  assumes d: "deep_copier cp vw ft" and sel: "\<And>s v. sel (upd s v) = v" and build: "\<And>s v. build (upd s v) = build s"
  shows "deep_copier (\<lambda>h s. let (h', v) = cp h (sel s) in (h', upd s v))
           (\<lambda>h s. map_option (build s) (vw h (sel s))) (\<lambda>h s. ft h (sel s))"
proof
  fix h h' s s' x
  assume "map_option (build s) (vw h (sel s)) = Some x"
  then obtain y where y: "vw h (sel s) = Some y" and x: "x = build s y" by auto
  show "ft h (sel s) \<subseteq> dom (cells h)" by (rule deep_copier.footprint_allocated [OF d y])
  show "map_option (build s) (vw h' (sel s)) = Some x \<and> ft h' (sel s) = ft h (sel s)"
    if "agree (ft h (sel s)) h h'"
    using deep_copier.frame [OF d y that] by (simp add: x)
  show "copied (\<lambda>h s. map_option (build s) (vw h (sel s))) (\<lambda>h s. ft h (sel s)) h s h' s'"
    if ok: "heap_ok h" and cp: "(let (h', v) = cp h (sel s) in (h', upd s v)) = (h', s')"
  proof -
    obtain v where 1: "cp h (sel s) = (h', v)" and s': "s' = upd s v"
      using cp by (auto split: prod.splits)
    show ?thesis
      using deep_copier.copy [OF d ok y 1] by (simp add: copied_def s' sel build)
  qed
qed


section \<open>Pointers\<close>

text \<open>Reading a cell at the type the pointer has; \<open>get\<close> is None on cells of other types.\<close>

definition load :: "('c \<Rightarrow> 'v option) \<Rightarrow> 'c heap \<Rightarrow> addr \<Rightarrow> 'v option" where
  "load get h a = Option.bind (cells h a) get"

lemma load_dom: "load get h a = Some v \<Longrightarrow> a \<in> dom (cells h)"
  by (auto simp: load_def bind_eq_Some_conv)

lemma load_put [simp]: "load get (put q c h) a = (if a = q then get c else load get h a)"
  by (simp add: load_def)

text \<open>\<open>if in == nil { return nil }; out := new(T); in.DeepCopyInto(out); return out\<close>.\<close>

definition copy_ptr ::
  "('c \<Rightarrow> 'v option) \<Rightarrow> ('v \<Rightarrow> 'c) \<Rightarrow> ('c heap \<Rightarrow> 'v \<Rightarrow> 'c heap \<times> 'v) \<Rightarrow>
   'c heap \<Rightarrow> addr option \<Rightarrow> 'c heap \<times> addr option" where
  "copy_ptr get mk cp h p =
     (case p of
        None \<Rightarrow> (h, None)
      | Some a \<Rightarrow>
          (case load get h a of
             None \<Rightarrow> (h, None)
           | Some v \<Rightarrow>
               (let (q, h1) = alloc h;
                    (h2, v') = cp h1 v
                in (put q (mk v') h2, Some q))))"

definition view_ptr ::
  "('c \<Rightarrow> 'v option) \<Rightarrow> ('c heap \<Rightarrow> 'v \<Rightarrow> 'a option) \<Rightarrow> 'c heap \<Rightarrow> addr option \<Rightarrow> 'a option option" where
  "view_ptr get vw h p =
     (case p of None \<Rightarrow> Some None | Some a \<Rightarrow> Option.bind (load get h a) (\<lambda>v. map_option Some (vw h v)))"

definition ft_ptr ::
  "('c \<Rightarrow> 'v option) \<Rightarrow> ('c heap \<Rightarrow> 'v \<Rightarrow> addr set) \<Rightarrow> 'c heap \<Rightarrow> addr option \<Rightarrow> addr set" where
  "ft_ptr get ft h p =
     (case p of None \<Rightarrow> {} | Some a \<Rightarrow> insert a (case load get h a of None \<Rightarrow> {} | Some v \<Rightarrow> ft h v))"

text \<open>Copying the content of a cell into a fresh one.\<close>

lemma copied_box:
  assumes d: "deep_copier cp vw ft" and ok: "heap_ok h" and x: "vw h v = Some x"
    and q: "alloc h = (q, h1)" and cp: "cp h1 v = (h2, v')"
  shows "extends h (put q c h2)"
    and "vw (put q c h2) v' = Some x"
    and "insert q (ft (put q c h2) v') \<subseteq> {next_addr h..<next_addr (put q c h2)}"
proof -
  have e: "extends h h1" and n: "next_addr h1 = Suc q" "q = next_addr h"
    using alloc_extends [OF ok q] by simp_all
  have x1: "vw h1 v = Some x" by (rule deep_copier.later [OF d ok x e])
  have c: "copied vw ft h1 v h2 v'" by (rule deep_copier.copy [OF d extends_ok [OF e] x1 cp])
  then have e2: "extends h1 h2" and x2: "vw h2 v' = Some x" and f2: "ft h2 v' \<subseteq> {Suc q..<next_addr h2}"
    using x1 n by (simp_all add: copied_def)
  have q2: "q < next_addr h2" using extends_next [OF e2] n by simp
  show "extends h (put q c h2)"
    by (rule extends_put [OF extends_trans [OF e e2]]) (use n q2 in simp_all)
  have "agree (ft h2 v') h2 (put q c h2)"
    by (rule agree_put) (use f2 in \<open>auto simp: agree_def\<close>)
  note s = deep_copier.frame [OF d x2 this]
  show "vw (put q c h2) v' = Some x" using s by simp
  show "insert q (ft (put q c h2) v') \<subseteq> {next_addr h..<next_addr (put q c h2)}"
    using s f2 n q2 by auto
qed

lemma ptr_copier:
  assumes d: "deep_copier cp vw ft" and get: "\<And>v. get (mk v) = Some v"
  shows "deep_copier (copy_ptr get mk cp) (view_ptr get vw) (ft_ptr get ft)"
proof
  fix h h' :: "'a heap" and p p' x
  assume vp: "view_ptr get vw h p = Some x"
  show "ft_ptr get ft h p \<subseteq> dom (cells h)"
  proof (cases p)
    case (Some q)
    with vp obtain v y where v: "load get h q = Some v" and y: "vw h v = Some y"
      by (auto simp: view_ptr_def bind_eq_Some_conv)
    show ?thesis
      using load_dom [OF v] deep_copier.footprint_allocated [OF d y] by (simp add: Some v ft_ptr_def)
  qed (simp add: ft_ptr_def)
  show "view_ptr get vw h' p = Some x \<and> ft_ptr get ft h' p = ft_ptr get ft h p"
    if a: "agree (ft_ptr get ft h p) h h'"
  proof (cases p)
    case None
    with vp show ?thesis by (simp add: view_ptr_def ft_ptr_def)
  next
    case (Some q)
    with vp obtain v y where v: "load get h q = Some v" and y: "vw h v = Some y" and x: "x = Some y"
      by (auto simp: view_ptr_def bind_eq_Some_conv)
    have "load get h' q = Some v" using a v by (simp add: Some ft_ptr_def agree_def load_def)
    moreover have "vw h' v = Some y \<and> ft h' v = ft h v"
      by (rule deep_copier.frame [OF d y]) (use a in \<open>simp add: Some v ft_ptr_def agree_def\<close>)
    ultimately show ?thesis by (simp add: Some v x view_ptr_def ft_ptr_def)
  qed
  show "copied (view_ptr get vw) (ft_ptr get ft) h p h' p'"
    if ok: "heap_ok h" and cp: "copy_ptr get mk cp h p = (h', p')"
  proof (cases p)
    case None
    with cp ok show ?thesis by (simp add: copy_ptr_def copied_def extends_refl ft_ptr_def)
  next
    case (Some a)
    with vp obtain v y where v: "load get h a = Some v" and y: "vw h v = Some y"
      by (auto simp: view_ptr_def bind_eq_Some_conv)
    obtain q h1 h2 v' where 1: "alloc h = (q, h1)" "cp h1 v = (h2, v')"
      and o: "h' = put q (mk v') h2" "p' = Some q"
      using cp by (auto simp: Some v copy_ptr_def split: prod.splits)
    note b = copied_box [OF d ok y 1, where c = "mk v'"]
    show ?thesis
      using b by (intro copiedI) (simp_all add: o Some v y get view_ptr_def ft_ptr_def)
  qed
qed

section \<open>Slices\<close>

text \<open>A slice value: nil, or a window of the array in a cell. \<open>make([]T, n)\<close> gives a window on
  a whole new array.\<close>

datatype slice = NilSlice | Slice addr nat nat

definition window :: "nat \<Rightarrow> nat \<Rightarrow> 'v list \<Rightarrow> 'v list option" where
  "window i n xs = (if i + n \<le> length xs then Some (take n (drop i xs)) else None)"

text \<open>The loop \<open>for i := range *in { (*in)[i].DeepCopyInto(&(*out)[i]) }\<close>.\<close>

primrec copy_elems :: "('c heap \<Rightarrow> 'v \<Rightarrow> 'c heap \<times> 'v) \<Rightarrow> 'c heap \<Rightarrow> 'v list \<Rightarrow> 'c heap \<times> 'v list" where
  "copy_elems cp h [] = (h, [])"
| "copy_elems cp h (v # vs) =
     (let (h1, v') = cp h v; (h2, vs') = copy_elems cp h1 vs in (h2, v' # vs'))"

primrec view_elems :: "('c heap \<Rightarrow> 'v \<Rightarrow> 'a option) \<Rightarrow> 'c heap \<Rightarrow> 'v list \<Rightarrow> 'a list option" where
  "view_elems vw h [] = Some []"
| "view_elems vw h (v # vs) = Option.bind (vw h v) (\<lambda>x. map_option (Cons x) (view_elems vw h vs))"

definition ft_elems :: "('c heap \<Rightarrow> 'v \<Rightarrow> addr set) \<Rightarrow> 'c heap \<Rightarrow> 'v list \<Rightarrow> addr set" where
  "ft_elems ft h vs = (\<Union>v\<in>set vs. ft h v)"

lemma ft_elems_simps [simp]:
  "ft_elems ft h [] = {}" "ft_elems ft h (v # vs) = ft h v \<union> ft_elems ft h vs"
  by (simp_all add: ft_elems_def)


lemma elems_copier:
  assumes d: "deep_copier cp vw ft"
  shows "deep_copier (copy_elems cp) (view_elems vw) (ft_elems ft)"
proof
  show "ft_elems ft h vs \<subseteq> dom (cells h)" if "view_elems vw h vs = Some xs" for h vs xs
    using that
    by (induction vs arbitrary: xs)
      (fastforce simp: bind_eq_Some_conv dest: deep_copier.footprint_allocated [OF d])+
  show fr: "view_elems vw h' vs = Some xs \<and> ft_elems ft h' vs = ft_elems ft h vs"
    if "view_elems vw h vs = Some xs" and "agree (ft_elems ft h vs) h h'" for h h' vs xs
    using that
  proof (induction vs arbitrary: xs)
    case (Cons v vs)
    then obtain y ys where 1: "vw h v = Some y" "view_elems vw h vs = Some ys" "xs = y # ys"
      by (auto simp: bind_eq_Some_conv)
    have "agree (ft h v) h h'" "agree (ft_elems ft h vs) h h'"
      using Cons.prems(2) by (auto simp: agree_def)
    then show ?case
      using deep_copier.frame [OF d 1(1)] Cons.IH [OF 1(2)] 1(3) by simp
  qed simp
  show "copied (view_elems vw) (ft_elems ft) h vs h' vs'"
    if "heap_ok h" and "view_elems vw h vs = Some xs" and "copy_elems cp h vs = (h', vs')" for h vs xs h' vs'
    using that
  proof (induction vs arbitrary: h xs vs')
    case Nil
    then show ?case by (simp add: copied_def extends_refl)
  next
    case (Cons v vs)
    then obtain y ys where y: "vw h v = Some y" "view_elems vw h vs = Some ys" "xs = y # ys"
      by (auto simp: bind_eq_Some_conv)
    obtain h1 v1 vs1 where c: "cp h v = (h1, v1)" "copy_elems cp h1 vs = (h', vs1)" "vs' = v1 # vs1"
      using Cons.prems(3) by (auto split: prod.splits)
    have c1: "copied vw ft h v h1 v1" by (rule deep_copier.copy [OF d Cons.prems(1) y(1) c(1)])
    then have e1: "extends h h1" by (simp add: copied_def)
    have "agree (ft_elems ft h vs) h h1"
    proof (rule extends_agree [OF Cons.prems(1) e1])
      show "ft_elems ft h vs \<subseteq> dom (cells h)"
        using y(2) by (induction vs arbitrary: ys)
          (fastforce simp: bind_eq_Some_conv dest: deep_copier.footprint_allocated [OF d])+
    qed
    then have ys1: "view_elems vw h1 vs = Some ys" using fr [OF y(2)] by simp
    have c2: "copied (view_elems vw) (ft_elems ft) h1 vs h' vs1"
      by (rule Cons.IH [OF extends_ok [OF e1] ys1 c(2)])
    then have e2: "extends h1 h'" by (simp add: copied_def)
    note k = deep_copier.copied_later [OF d Cons.prems(1) y(1) c1 e2]
    have "ft_elems ft h' vs' \<subseteq> {next_addr h..<next_addr h'}"
      using k(2) c2 extends_next [OF e1] extends_next [OF e2]
      by (fastforce simp: c(3) copied_def)
    moreover have "view_elems vw h' vs1 = Some ys" using c2 ys1 by (simp add: copied_def)
    ultimately show ?case
      using k(1) y c(3) by (intro copiedI extends_trans [OF e1 e2]) simp_all
  qed
qed

text \<open>
  \<open>if in.F != nil { *out = make([]T, len(*in)); for ... }\<close>: a nil slice stays nil, an empty one
  becomes an empty one.
\<close>

definition copy_slice ::
  "('c \<Rightarrow> 'v list option) \<Rightarrow> ('v list \<Rightarrow> 'c) \<Rightarrow> ('c heap \<Rightarrow> 'v \<Rightarrow> 'c heap \<times> 'v) \<Rightarrow>
   'c heap \<Rightarrow> slice \<Rightarrow> 'c heap \<times> slice" where
  "copy_slice get mk cp h s =
     (case s of
        NilSlice \<Rightarrow> (h, NilSlice)
      | Slice a i n \<Rightarrow>
          (case Option.bind (load get h a) (window i n) of
             None \<Rightarrow> (h, NilSlice)
           | Some vs \<Rightarrow>
               (let (q, h1) = alloc h;
                    (h2, vs') = copy_elems cp h1 vs
                in (put q (mk vs') h2, Slice q 0 n))))"

definition view_slice ::
  "('c \<Rightarrow> 'v list option) \<Rightarrow> ('c heap \<Rightarrow> 'v \<Rightarrow> 'a option) \<Rightarrow> 'c heap \<Rightarrow> slice \<Rightarrow> 'a list option option" where
  "view_slice get vw h s =
     (case s of
        NilSlice \<Rightarrow> Some None
      | Slice a i n \<Rightarrow>
          Option.bind (Option.bind (load get h a) (window i n)) (\<lambda>vs. map_option Some (view_elems vw h vs)))"

definition ft_slice ::
  "('c \<Rightarrow> 'v list option) \<Rightarrow> ('c heap \<Rightarrow> 'v \<Rightarrow> addr set) \<Rightarrow> 'c heap \<Rightarrow> slice \<Rightarrow> addr set" where
  "ft_slice get ft h s =
     (case s of
        NilSlice \<Rightarrow> {}
      | Slice a i n \<Rightarrow>
          insert a (case Option.bind (load get h a) (window i n) of None \<Rightarrow> {} | Some vs \<Rightarrow> ft_elems ft h vs))"

lemma length_copy_elems: "copy_elems cp h vs = (h', vs') \<Longrightarrow> length vs' = length vs"
  by (induction vs arbitrary: h h' vs') (auto split: prod.splits)

lemma window_length: "window i n xs = Some vs \<Longrightarrow> length vs = n"
  by (auto simp: window_def split: if_splits)

lemma window_all [simp]: "window 0 (length vs) vs = Some vs"
  by (simp add: window_def)

lemma view_slice_Some:
  "view_slice get vw h (Slice a i n) = Some x \<longleftrightarrow>
     (\<exists>us vs xs. load get h a = Some us \<and> window i n us = Some vs \<and> view_elems vw h vs = Some xs \<and> x = Some xs)"
  by (auto simp: view_slice_def bind_eq_Some_conv)

lemma slice_copier:
  assumes d: "deep_copier cp vw ft" and get: "\<And>v. get (mk v) = Some v"
  shows "deep_copier (copy_slice get mk cp) (view_slice get vw) (ft_slice get ft)"
proof
  note de = elems_copier [OF d]
  fix h h' :: "'a heap" and s s' x
  assume vs: "view_slice get vw h s = Some x"
  show "ft_slice get ft h s \<subseteq> dom (cells h)"
  proof (cases s)
    case (Slice a i n)
    with vs obtain us vs xs where v: "load get h a = Some us" "window i n us = Some vs" "view_elems vw h vs = Some xs"
      by (auto simp: view_slice_Some)
    show ?thesis
      using load_dom [OF v(1)] deep_copier.footprint_allocated [OF de v(3)] by (simp add: Slice v ft_slice_def)
  qed (simp add: ft_slice_def)
  show "view_slice get vw h' s = Some x \<and> ft_slice get ft h' s = ft_slice get ft h s"
    if a: "agree (ft_slice get ft h s) h h'"
  proof (cases s)
    case NilSlice
    with vs show ?thesis by (simp add: view_slice_def ft_slice_def)
  next
    case (Slice b i n)
    with vs obtain us vs xs where v: "load get h b = Some us" "window i n us = Some vs" "view_elems vw h vs = Some xs"
      and x: "x = Some xs"
      by (auto simp: view_slice_Some)
    have "load get h' b = Some us" using a v by (simp add: Slice ft_slice_def agree_def load_def)
    moreover have "view_elems vw h' vs = Some xs \<and> ft_elems ft h' vs = ft_elems ft h vs"
      by (rule deep_copier.frame [OF de v(3)]) (use a in \<open>simp add: Slice v ft_slice_def agree_def\<close>)
    ultimately show ?thesis by (simp add: Slice v x view_slice_Some ft_slice_def)
  qed
  show "copied (view_slice get vw) (ft_slice get ft) h s h' s'"
    if ok: "heap_ok h" and cp: "copy_slice get mk cp h s = (h', s')"
  proof (cases s)
    case NilSlice
    with cp ok show ?thesis by (simp add: copy_slice_def copied_def extends_refl ft_slice_def)
  next
    case (Slice a i n)
    with vs obtain us vs xs where v: "load get h a = Some us" "window i n us = Some vs" "view_elems vw h vs = Some xs"
      by (auto simp: view_slice_Some)
    obtain q h1 h2 vs' where 1: "alloc h = (q, h1)" "copy_elems cp h1 vs = (h2, vs')"
      and o: "h' = put q (mk vs') h2" "s' = Slice q 0 n"
      using cp by (auto simp: Slice v copy_slice_def split: prod.splits)
    have n: "n = length vs'" using length_copy_elems [OF 1(2)] window_length [OF v(2)] by simp
    note b = copied_box [OF de ok v(3) 1, where c = "mk vs'"]
    show ?thesis
      using b v(2) by (intro copiedI) (simp_all add: o n Slice v get view_slice_def ft_slice_def)
  qed
qed

end
