(* ===== verification/DeepCopy.thy ===== *)
theory DeepCopy
  imports GoHeap ApiTypes
begin

text \<open>
  The generated \<open>api/v1alpha1/zz_generated.deepcopy.go\<close> over the memory of \<open>GoHeap\<close>, and the
  proof that each function keeps the contract \<open>deep_copier\<close>: what the API machinery and the
  reconciler may then do to a copy never shows in the original.

  Each struct of \<open>hotswappolicy_types.go\<close> is a record with a type parameter for every field that
  holds a pointer, a slice or a library struct. With addresses and slices for the parameters it
  is the struct in memory; with options and lists it is the value the struct denotes (nil and
  empty slices kept apart). \<open>metav1.ObjectMeta\<close>, \<open>ListMeta\<close>, \<open>Condition\<close>, \<open>Time\<close> and
  \<open>corev1.Probe\<close> are values of an unknown type \<open>'l\<close>, with their own \<open>DeepCopyInto\<close> as a parameter.
\<close>

section \<open>The structs\<close>

record 'b GRemediationSpec =
  gStrategy :: RemediationStrategy
  gRequireStable :: 'b
  gMaxConsecutiveAttempts :: int32
  gCooldownSeconds :: int32
  gMaxConcurrent :: int32
  gSystemicFailureSkipPercent :: int32
  gDryRun :: bool

record ('p, 'b) GSpec =
  gTargetRef :: TargetReference
  gHotswapProbe :: 'p
  gRemediation :: "'b GRemediationSpec"

record 't GTargetHealth =
  gPodName :: string
  gPodIP :: string
  gHealthy :: bool
  gConsecutiveFailures :: int32
  gLastProbeTime :: 't
  gLastTransitionTime :: 't

record 't GRecord =
  grPodName :: string
  grStrategy :: RemediationStrategy
  grTime :: 't
  grReason :: string

record ('ts, 'r, 'cs) GStatus =
  gObservedGeneration :: int64
  gTargets :: 'ts
  gLastRemediation :: 'r
  gConsecutiveAttempts :: int32
  gConditions :: 'cs

record TypeMeta =
  tm_Kind :: string
  tm_APIVersion :: string

record ('m, 'sp, 'st) GPolicy =
  gTypeMeta :: TypeMeta
  gObjectMeta :: 'm
  gSpec :: 'sp
  gStatus :: 'st

record ('m, 'is) GPolicyList =
  glTypeMeta :: TypeMeta
  gListMeta :: 'm
  gItems :: 'is

text \<open>In memory, over library structs of type \<open>'l\<close>.\<close>

type_synonym mRemediationSpec = "addr option GRemediationSpec"
type_synonym 'l mSpec = "('l, addr option) GSpec"
type_synonym mTargetHealth = "addr option GTargetHealth"
type_synonym 'l mRecord = "'l GRecord"
type_synonym mStatus = "(slice, addr option, slice) GStatus"
type_synonym 'l mPolicy = "('l, 'l mSpec, mStatus) GPolicy"
type_synonym 'l mPolicyList = "('l, slice) GPolicyList"

text \<open>As values, over library values of type \<open>'a\<close>.\<close>

type_synonym vRemediationSpec = "bool option GRemediationSpec"
type_synonym 'a vSpec = "('a, bool option) GSpec"
type_synonym 'a vTargetHealth = "'a option GTargetHealth"
type_synonym 'a vRecord = "'a GRecord"
type_synonym 'a vStatus = "('a vTargetHealth list option, 'a vRecord option, 'a list option) GStatus"
type_synonym 'a vPolicy = "('a, 'a vSpec, 'a vStatus) GPolicy"
type_synonym 'a vPolicyList = "('a, 'a vPolicy list option) GPolicyList"

text \<open>What a cell can hold: what \<open>new\<close> and \<open>make\<close> are called for, here and in the library.\<close>

datatype 'l cell =
    BoolCell bool
  | LibCell 'l
  | TargetReferenceCell TargetReference
  | RemediationSpecCell mRemediationSpec
  | SpecCell "'l mSpec"
  | TargetHealthCell mTargetHealth
  | RecordCell "'l mRecord"
  | StatusCell mStatus
  | PolicyCell "'l mPolicy"
  | PolicyListCell "'l mPolicyList"
  | TargetHealthArray "mTargetHealth list"
  | LibArray "'l list"
  | PolicyArray "'l mPolicy list"

type_synonym 'l memory = "'l cell heap"

definition un_Bool where "un_Bool c = (case c of BoolCell v \<Rightarrow> Some v | _ \<Rightarrow> None)"
definition un_Lib where "un_Lib c = (case c of LibCell v \<Rightarrow> Some v | _ \<Rightarrow> None)"
definition un_TargetReference where "un_TargetReference c = (case c of TargetReferenceCell v \<Rightarrow> Some v | _ \<Rightarrow> None)"
definition un_RemediationSpec where "un_RemediationSpec c = (case c of RemediationSpecCell v \<Rightarrow> Some v | _ \<Rightarrow> None)"
definition un_Spec where "un_Spec c = (case c of SpecCell v \<Rightarrow> Some v | _ \<Rightarrow> None)"
definition un_TargetHealth where "un_TargetHealth c = (case c of TargetHealthCell v \<Rightarrow> Some v | _ \<Rightarrow> None)"
definition un_Record where "un_Record c = (case c of RecordCell v \<Rightarrow> Some v | _ \<Rightarrow> None)"
definition un_Status where "un_Status c = (case c of StatusCell v \<Rightarrow> Some v | _ \<Rightarrow> None)"
definition un_Policy where "un_Policy c = (case c of PolicyCell v \<Rightarrow> Some v | _ \<Rightarrow> None)"
definition un_PolicyList where "un_PolicyList c = (case c of PolicyListCell v \<Rightarrow> Some v | _ \<Rightarrow> None)"
definition un_TargetHealths where "un_TargetHealths c = (case c of TargetHealthArray v \<Rightarrow> Some v | _ \<Rightarrow> None)"
definition un_Libs where "un_Libs c = (case c of LibArray v \<Rightarrow> Some v | _ \<Rightarrow> None)"
definition un_Policies where "un_Policies c = (case c of PolicyArray v \<Rightarrow> Some v | _ \<Rightarrow> None)"

lemma un_cells [simp]:
  "un_Bool (BoolCell b) = Some b" "un_Lib (LibCell l) = Some l"
  "un_TargetReference (TargetReferenceCell tr) = Some tr"
  "un_RemediationSpec (RemediationSpecCell rs) = Some rs" "un_Spec (SpecCell sp) = Some sp"
  "un_TargetHealth (TargetHealthCell th) = Some th" "un_Record (RecordCell rc) = Some rc"
  "un_Status (StatusCell st) = Some st" "un_Policy (PolicyCell p) = Some p"
  "un_PolicyList (PolicyListCell pl) = Some pl" "un_TargetHealths (TargetHealthArray ths) = Some ths"
  "un_Libs (LibArray ls) = Some ls" "un_Policies (PolicyArray ps) = Some ps"
  by (simp_all add: un_Bool_def un_Lib_def un_TargetReference_def un_RemediationSpec_def un_Spec_def
      un_TargetHealth_def un_Record_def un_Status_def un_Policy_def un_PolicyList_def un_TargetHealths_def
      un_Libs_def un_Policies_def)

section \<open>The library's copy functions\<close>

text \<open>The static type that selects the method.\<close>

datatype lib_type = ObjectMetaT | ListMetaT | ProbeT | ConditionT | TimeT

record 'l CopyLib =
  LibDeepCopyInto :: "lib_type \<Rightarrow> 'l memory \<Rightarrow> 'l \<Rightarrow> 'l memory \<times> 'l"
  TimeDeepCopy :: "'l memory \<Rightarrow> addr option \<Rightarrow> 'l memory \<times> addr option"

text \<open>The values and the footprints of the library's structs, for the specification.\<close>

record ('l, 'a) LibView =
  lib_view :: "lib_type \<Rightarrow> 'l memory \<Rightarrow> 'l \<Rightarrow> 'a option"
  lib_ft :: "lib_type \<Rightarrow> 'l memory \<Rightarrow> 'l \<Rightarrow> addr set"

text \<open>What the documentation of \<open>DeepCopyInto\<close> and \<open>DeepCopy\<close> promises of them: they are copiers.\<close>

definition lib_contract :: "'l CopyLib \<Rightarrow> ('l, 'a) LibView \<Rightarrow> bool" where
  "lib_contract L V \<longleftrightarrow>
     (\<forall>k. deep_copier (LibDeepCopyInto L k) (lib_view V k) (lib_ft V k)) \<and>
     deep_copier (TimeDeepCopy L) (view_ptr un_Lib (lib_view V TimeT)) (ft_ptr un_Lib (lib_ft V TimeT))"

section \<open>\<open>DeepCopyInto\<close>\<close>

text \<open>
  \<open>T_DeepCopyInto\<close> returns what \<open>*out\<close> holds at the end. Since \<open>*out = *in\<close> comes first, the old
  content of \<open>*out\<close> does not matter.
\<close>

definition TargetReference_DeepCopyInto :: "'l memory \<Rightarrow> TargetReference \<Rightarrow> 'l memory \<times> TargetReference" where
  "TargetReference_DeepCopyInto h inn = (h, inn)"

definition RemediationSpec_DeepCopyInto :: "'l memory \<Rightarrow> mRemediationSpec \<Rightarrow> 'l memory \<times> mRemediationSpec" where
  "RemediationSpec_DeepCopyInto h inn =
     (let out = inn;
          (h, p) = copy_ptr un_Bool BoolCell (\<lambda>h b. (h, b)) h (gRequireStable inn)
      in (h, out\<lparr>gRequireStable := p\<rparr>))"

definition TargetHealth_DeepCopyInto ::
  "'l CopyLib \<Rightarrow> 'l memory \<Rightarrow> mTargetHealth \<Rightarrow> 'l memory \<times> mTargetHealth" where
  "TargetHealth_DeepCopyInto L h inn =
     (let out = inn;
          (h, out) = (if gLastProbeTime inn \<noteq> None then
                        let (h, p) = TimeDeepCopy L h (gLastProbeTime inn) in (h, out\<lparr>gLastProbeTime := p\<rparr>)
                      else (h, out));
          (h, out) = (if gLastTransitionTime inn \<noteq> None then
                        let (h, p) = TimeDeepCopy L h (gLastTransitionTime inn) in (h, out\<lparr>gLastTransitionTime := p\<rparr>)
                      else (h, out))
      in (h, out))"

definition RemediationRecord_DeepCopyInto ::
  "'l CopyLib \<Rightarrow> 'l memory \<Rightarrow> 'l mRecord \<Rightarrow> 'l memory \<times> 'l mRecord" where
  "RemediationRecord_DeepCopyInto L h inn =
     (let out = inn;
          (h, t) = LibDeepCopyInto L TimeT h (grTime inn)
      in (h, out\<lparr>grTime := t\<rparr>))"

definition HotSwapPolicySpec_DeepCopyInto ::
  "'l CopyLib \<Rightarrow> 'l memory \<Rightarrow> 'l mSpec \<Rightarrow> 'l memory \<times> 'l mSpec" where
  "HotSwapPolicySpec_DeepCopyInto L h inn =
     (let out = inn;
          out = out\<lparr>gTargetRef := gTargetRef inn\<rparr>;
          (h, p) = LibDeepCopyInto L ProbeT h (gHotswapProbe inn);
          out = out\<lparr>gHotswapProbe := p\<rparr>;
          (h, r) = RemediationSpec_DeepCopyInto h (gRemediation inn)
      in (h, out\<lparr>gRemediation := r\<rparr>))"

definition HotSwapPolicyStatus_DeepCopyInto ::
  "'l CopyLib \<Rightarrow> 'l memory \<Rightarrow> mStatus \<Rightarrow> 'l memory \<times> mStatus" where
  "HotSwapPolicyStatus_DeepCopyInto L h inn =
     (let out = inn;
          (h, ts) = copy_slice un_TargetHealths TargetHealthArray (TargetHealth_DeepCopyInto L) h (gTargets inn);
          out = out\<lparr>gTargets := ts\<rparr>;
          (h, r) = copy_ptr un_Record RecordCell (RemediationRecord_DeepCopyInto L) h (gLastRemediation inn);
          out = out\<lparr>gLastRemediation := r\<rparr>;
          (h, cs) = copy_slice un_Libs LibArray (LibDeepCopyInto L ConditionT) h (gConditions inn)
      in (h, out\<lparr>gConditions := cs\<rparr>))"

definition HotSwapPolicy_DeepCopyInto ::
  "'l CopyLib \<Rightarrow> 'l memory \<Rightarrow> 'l mPolicy \<Rightarrow> 'l memory \<times> 'l mPolicy" where
  "HotSwapPolicy_DeepCopyInto L h inn =
     (let out = inn;
          out = out\<lparr>gTypeMeta := gTypeMeta inn\<rparr>;
          (h, m) = LibDeepCopyInto L ObjectMetaT h (gObjectMeta inn);
          out = out\<lparr>gObjectMeta := m\<rparr>;
          (h, sp) = HotSwapPolicySpec_DeepCopyInto L h (gSpec inn);
          out = out\<lparr>gSpec := sp\<rparr>;
          (h, st) = HotSwapPolicyStatus_DeepCopyInto L h (gStatus inn)
      in (h, out\<lparr>gStatus := st\<rparr>))"

definition HotSwapPolicyList_DeepCopyInto ::
  "'l CopyLib \<Rightarrow> 'l memory \<Rightarrow> 'l mPolicyList \<Rightarrow> 'l memory \<times> 'l mPolicyList" where
  "HotSwapPolicyList_DeepCopyInto L h inn =
     (let out = inn;
          out = out\<lparr>glTypeMeta := glTypeMeta inn\<rparr>;
          (h, m) = LibDeepCopyInto L ListMetaT h (gListMeta inn);
          out = out\<lparr>gListMeta := m\<rparr>;
          (h, its) = copy_slice un_Policies PolicyArray (HotSwapPolicy_DeepCopyInto L) h (gItems inn)
      in (h, out\<lparr>gItems := its\<rparr>))"

section \<open>\<open>DeepCopy\<close> and \<open>DeepCopyObject\<close>\<close>

definition TargetReference_DeepCopy :: "'l memory \<Rightarrow> addr option \<Rightarrow> 'l memory \<times> addr option" where
  "TargetReference_DeepCopy = copy_ptr un_TargetReference TargetReferenceCell TargetReference_DeepCopyInto"

definition RemediationSpec_DeepCopy :: "'l memory \<Rightarrow> addr option \<Rightarrow> 'l memory \<times> addr option" where
  "RemediationSpec_DeepCopy = copy_ptr un_RemediationSpec RemediationSpecCell RemediationSpec_DeepCopyInto"

definition TargetHealth_DeepCopy :: "'l CopyLib \<Rightarrow> 'l memory \<Rightarrow> addr option \<Rightarrow> 'l memory \<times> addr option" where
  "TargetHealth_DeepCopy L = copy_ptr un_TargetHealth TargetHealthCell (TargetHealth_DeepCopyInto L)"

definition RemediationRecord_DeepCopy :: "'l CopyLib \<Rightarrow> 'l memory \<Rightarrow> addr option \<Rightarrow> 'l memory \<times> addr option" where
  "RemediationRecord_DeepCopy L = copy_ptr un_Record RecordCell (RemediationRecord_DeepCopyInto L)"

definition HotSwapPolicySpec_DeepCopy :: "'l CopyLib \<Rightarrow> 'l memory \<Rightarrow> addr option \<Rightarrow> 'l memory \<times> addr option" where
  "HotSwapPolicySpec_DeepCopy L = copy_ptr un_Spec SpecCell (HotSwapPolicySpec_DeepCopyInto L)"

definition HotSwapPolicyStatus_DeepCopy :: "'l CopyLib \<Rightarrow> 'l memory \<Rightarrow> addr option \<Rightarrow> 'l memory \<times> addr option" where
  "HotSwapPolicyStatus_DeepCopy L = copy_ptr un_Status StatusCell (HotSwapPolicyStatus_DeepCopyInto L)"

definition HotSwapPolicy_DeepCopy :: "'l CopyLib \<Rightarrow> 'l memory \<Rightarrow> addr option \<Rightarrow> 'l memory \<times> addr option" where
  "HotSwapPolicy_DeepCopy L = copy_ptr un_Policy PolicyCell (HotSwapPolicy_DeepCopyInto L)"

definition HotSwapPolicyList_DeepCopy :: "'l CopyLib \<Rightarrow> 'l memory \<Rightarrow> addr option \<Rightarrow> 'l memory \<times> addr option" where
  "HotSwapPolicyList_DeepCopy L = copy_ptr un_PolicyList PolicyListCell (HotSwapPolicyList_DeepCopyInto L)"

text \<open>
  A value of the interface \<open>runtime.Object\<close>: nil, or a pointer with its type. A nil pointer
  inside the interface is a value of its own, different from nil.
\<close>

datatype Object = NilObject | PolicyObject "addr option" | PolicyListObject "addr option"

definition HotSwapPolicy_DeepCopyObject :: "'l CopyLib \<Rightarrow> 'l memory \<Rightarrow> addr option \<Rightarrow> 'l memory \<times> Object" where
  "HotSwapPolicy_DeepCopyObject L h inn =
     (let (h, c) = HotSwapPolicy_DeepCopy L h inn
      in if c \<noteq> None then (h, PolicyObject c) else (h, NilObject))"

definition HotSwapPolicyList_DeepCopyObject :: "'l CopyLib \<Rightarrow> 'l memory \<Rightarrow> addr option \<Rightarrow> 'l memory \<times> Object" where
  "HotSwapPolicyList_DeepCopyObject L h inn =
     (let (h, c) = HotSwapPolicyList_DeepCopy L h inn
      in if c \<noteq> None then (h, PolicyListObject c) else (h, NilObject))"

end
