(* ===== verification/DeepCopyProps.thy ===== *)
theory DeepCopyProps
  imports DeepCopy
begin

text \<open>
  What the structs of \<open>DeepCopy\<close> denote and reach, and that every generated function is a
  copier: the contract passes from the library's functions through fields, pointers and slices.
\<close>

section \<open>Views and footprints\<close>

definition build_RemediationSpec :: "mRemediationSpec \<Rightarrow> bool option \<Rightarrow> vRemediationSpec" where
  "build_RemediationSpec s b =
     \<lparr>gStrategy = gStrategy s, gRequireStable = b, gMaxConsecutiveAttempts = gMaxConsecutiveAttempts s,
      gCooldownSeconds = gCooldownSeconds s, gMaxConcurrent = gMaxConcurrent s,
      gSystemicFailureSkipPercent = gSystemicFailureSkipPercent s, gDryRun = gDryRun s\<rparr>"

definition view_RemediationSpec :: "'l memory \<Rightarrow> mRemediationSpec \<Rightarrow> vRemediationSpec option" where
  "view_RemediationSpec h s =
     map_option (build_RemediationSpec s) (view_ptr un_Bool (\<lambda>h b. Some b) h (gRequireStable s))"

definition ft_RemediationSpec :: "'l memory \<Rightarrow> mRemediationSpec \<Rightarrow> addr set" where
  "ft_RemediationSpec h s = ft_ptr un_Bool (\<lambda>h b. {}) h (gRequireStable s)"

definition build_TargetHealth :: "mTargetHealth \<Rightarrow> 'a option \<times> 'a option \<Rightarrow> 'a vTargetHealth" where
  "build_TargetHealth s v =
     \<lparr>gPodName = gPodName s, gPodIP = gPodIP s, gHealthy = gHealthy s,
      gConsecutiveFailures = gConsecutiveFailures s, gLastProbeTime = fst v, gLastTransitionTime = snd v\<rparr>"

definition view_TargetHealth :: "('l, 'a) LibView \<Rightarrow> 'l memory \<Rightarrow> mTargetHealth \<Rightarrow> 'a vTargetHealth option" where
  "view_TargetHealth V h s =
     map_option (build_TargetHealth s)
       (view_pair (view_ptr un_Lib (lib_view V TimeT)) (view_ptr un_Lib (lib_view V TimeT)) h
          (gLastProbeTime s, gLastTransitionTime s))"

definition ft_TargetHealth :: "('l, 'a) LibView \<Rightarrow> 'l memory \<Rightarrow> mTargetHealth \<Rightarrow> addr set" where
  "ft_TargetHealth V h s =
     ft_pair (ft_ptr un_Lib (lib_ft V TimeT)) (ft_ptr un_Lib (lib_ft V TimeT)) h
       (gLastProbeTime s, gLastTransitionTime s)"

definition build_Record :: "'l mRecord \<Rightarrow> 'a \<Rightarrow> 'a vRecord" where
  "build_Record s t = \<lparr>grPodName = grPodName s, grStrategy = grStrategy s, grTime = t, grReason = grReason s\<rparr>"

definition view_Record :: "('l, 'a) LibView \<Rightarrow> 'l memory \<Rightarrow> 'l mRecord \<Rightarrow> 'a vRecord option" where
  "view_Record V h s = map_option (build_Record s) (lib_view V TimeT h (grTime s))"

definition ft_Record :: "('l, 'a) LibView \<Rightarrow> 'l memory \<Rightarrow> 'l mRecord \<Rightarrow> addr set" where
  "ft_Record V h s = lib_ft V TimeT h (grTime s)"

definition build_Spec :: "'l mSpec \<Rightarrow> 'a \<times> vRemediationSpec \<Rightarrow> 'a vSpec" where
  "build_Spec s v = \<lparr>gTargetRef = gTargetRef s, gHotswapProbe = fst v, gRemediation = snd v\<rparr>"

definition view_Spec :: "('l, 'a) LibView \<Rightarrow> 'l memory \<Rightarrow> 'l mSpec \<Rightarrow> 'a vSpec option" where
  "view_Spec V h s =
     map_option (build_Spec s)
       (view_pair (lib_view V ProbeT) view_RemediationSpec h (gHotswapProbe s, gRemediation s))"

definition ft_Spec :: "('l, 'a) LibView \<Rightarrow> 'l memory \<Rightarrow> 'l mSpec \<Rightarrow> addr set" where
  "ft_Spec V h s = ft_pair (lib_ft V ProbeT) ft_RemediationSpec h (gHotswapProbe s, gRemediation s)"

definition build_Status ::
  "mStatus \<Rightarrow> 'a vTargetHealth list option \<times> 'a vRecord option \<times> 'a list option \<Rightarrow> 'a vStatus" where
  "build_Status s v =
     \<lparr>gObservedGeneration = gObservedGeneration s, gTargets = fst v, gLastRemediation = fst (snd v),
      gConsecutiveAttempts = gConsecutiveAttempts s, gConditions = snd (snd v)\<rparr>"

definition status_fields :: "mStatus \<Rightarrow> slice \<times> addr option \<times> slice" where
  "status_fields s = (gTargets s, gLastRemediation s, gConditions s)"

definition view_Status :: "('l, 'a) LibView \<Rightarrow> 'l memory \<Rightarrow> mStatus \<Rightarrow> 'a vStatus option" where
  "view_Status V h s =
     map_option (build_Status s)
       (view_pair (view_slice un_TargetHealths (view_TargetHealth V))
          (view_pair (view_ptr un_Record (view_Record V)) (view_slice un_Libs (lib_view V ConditionT)))
          h (status_fields s))"

definition ft_Status :: "('l, 'a) LibView \<Rightarrow> 'l memory \<Rightarrow> mStatus \<Rightarrow> addr set" where
  "ft_Status V h s =
     ft_pair (ft_slice un_TargetHealths (ft_TargetHealth V))
       (ft_pair (ft_ptr un_Record (ft_Record V)) (ft_slice un_Libs (lib_ft V ConditionT)))
       h (status_fields s)"

definition build_Policy :: "'l mPolicy \<Rightarrow> 'a \<times> 'a vSpec \<times> 'a vStatus \<Rightarrow> 'a vPolicy" where
  "build_Policy s v =
     \<lparr>gTypeMeta = gTypeMeta s, gObjectMeta = fst v, gSpec = fst (snd v), gStatus = snd (snd v)\<rparr>"

definition policy_fields :: "'l mPolicy \<Rightarrow> 'l \<times> 'l mSpec \<times> mStatus" where
  "policy_fields s = (gObjectMeta s, gSpec s, gStatus s)"

definition view_Policy :: "('l, 'a) LibView \<Rightarrow> 'l memory \<Rightarrow> 'l mPolicy \<Rightarrow> 'a vPolicy option" where
  "view_Policy V h s =
     map_option (build_Policy s)
       (view_pair (lib_view V ObjectMetaT) (view_pair (view_Spec V) (view_Status V)) h (policy_fields s))"

definition ft_Policy :: "('l, 'a) LibView \<Rightarrow> 'l memory \<Rightarrow> 'l mPolicy \<Rightarrow> addr set" where
  "ft_Policy V h s =
     ft_pair (lib_ft V ObjectMetaT) (ft_pair (ft_Spec V) (ft_Status V)) h (policy_fields s)"

definition build_PolicyList :: "'l mPolicyList \<Rightarrow> 'a \<times> 'a vPolicy list option \<Rightarrow> 'a vPolicyList" where
  "build_PolicyList s v = \<lparr>glTypeMeta = glTypeMeta s, gListMeta = fst v, gItems = snd v\<rparr>"

definition view_PolicyList :: "('l, 'a) LibView \<Rightarrow> 'l memory \<Rightarrow> 'l mPolicyList \<Rightarrow> 'a vPolicyList option" where
  "view_PolicyList V h s =
     map_option (build_PolicyList s)
       (view_pair (lib_view V ListMetaT) (view_slice un_Policies (view_Policy V)) h (gListMeta s, gItems s))"

definition ft_PolicyList :: "('l, 'a) LibView \<Rightarrow> 'l memory \<Rightarrow> 'l mPolicyList \<Rightarrow> addr set" where
  "ft_PolicyList V h s =
     ft_pair (lib_ft V ListMetaT) (ft_slice un_Policies (ft_Policy V)) h (gListMeta s, gItems s)"

section \<open>The structs without library fields\<close>

interpretation tref: deep_copier TargetReference_DeepCopyInto "\<lambda>h v. Some v" "\<lambda>h v. {}"
  unfolding TargetReference_DeepCopyInto_def by (rule value_copier)

lemma RemediationSpec_copier:
  "deep_copier RemediationSpec_DeepCopyInto view_RemediationSpec (ft_RemediationSpec :: 'l memory \<Rightarrow> _)"
proof -
  have eq: "RemediationSpec_DeepCopyInto =
      (\<lambda>(h :: 'l memory) s. let (h', v) = copy_ptr un_Bool BoolCell (\<lambda>h b. (h, b)) h (gRequireStable s)
         in (h', s\<lparr>gRequireStable := v\<rparr>))"
    by (simp add: fun_eq_iff RemediationSpec_DeepCopyInto_def)
  show ?thesis
    unfolding eq view_RemediationSpec_def ft_RemediationSpec_def
    by (rule struct_copier [OF ptr_copier [OF value_copier]]) (simp_all add: fun_eq_iff build_RemediationSpec_def)
qed

interpretation rspec: deep_copier RemediationSpec_DeepCopyInto view_RemediationSpec ft_RemediationSpec
  by (rule RemediationSpec_copier)

interpretation rspec_ptr: deep_copier RemediationSpec_DeepCopy
    "view_ptr un_RemediationSpec view_RemediationSpec" "ft_ptr un_RemediationSpec ft_RemediationSpec"
  unfolding RemediationSpec_DeepCopy_def by (rule ptr_copier [OF RemediationSpec_copier]) simp


section \<open>The structs with library fields\<close>

text \<open>
  Each proof reads the function as: copy the fields that need it in order (\<open>copy_pair\<close>), then
  overwrite them in the struct assigned before.
\<close>

lemma lib_copier: "lib_contract L V \<Longrightarrow> deep_copier (LibDeepCopyInto L k) (lib_view V k) (lib_ft V k)"
  by (simp add: lib_contract_def)

lemma time_copier:
  "lib_contract L V \<Longrightarrow>
   deep_copier (TimeDeepCopy L) (view_ptr un_Lib (lib_view V TimeT)) (ft_ptr un_Lib (lib_ft V TimeT))"
  by (simp add: lib_contract_def)

text \<open>\<open>if in.F != nil { *out = (*in).DeepCopy() }\<close>: a nil pointer is kept without a call.\<close>

definition unless_nil ::
  "('l memory \<Rightarrow> addr option \<Rightarrow> 'l memory \<times> addr option) \<Rightarrow> 'l memory \<Rightarrow> addr option \<Rightarrow> 'l memory \<times> addr option" where
  "unless_nil cp h p = (if p \<noteq> None then cp h p else (h, p))"

lemma unless_nil_copier:
  assumes d: "deep_copier cp (view_ptr get vw) (ft_ptr get ft)"
  shows "deep_copier (unless_nil cp) (view_ptr get vw) (ft_ptr get ft)"
proof
  fix h h' p p' x
  assume v: "view_ptr get vw h p = Some x"
  show "ft_ptr get ft h p \<subseteq> dom (cells h)"
    by (rule deep_copier.footprint_allocated [OF d v])
  show "view_ptr get vw h' p = Some x \<and> ft_ptr get ft h' p = ft_ptr get ft h p"
    if "agree (ft_ptr get ft h p) h h'"
    by (rule deep_copier.frame [OF d v that])
  show "copied (view_ptr get vw) (ft_ptr get ft) h p h' p'"
    if ok: "heap_ok h" and cp: "unless_nil cp h p = (h', p')"
  proof (cases p)
    case None
    with cp ok show ?thesis by (auto simp: unless_nil_def copied_def extends_refl ft_ptr_def)
  next
    case (Some a)
    with cp have "cp h p = (h', p')" by (simp add: unless_nil_def)
    then show ?thesis by (rule deep_copier.copy [OF d ok v])
  qed
qed

lemma TargetHealth_copier:
  fixes L :: "'l CopyLib" and V :: "('l, 'a) LibView"
  assumes L: "lib_contract L V"
  shows "deep_copier (TargetHealth_DeepCopyInto L) (view_TargetHealth V) (ft_TargetHealth V)"
proof -
  have eq: "TargetHealth_DeepCopyInto L = (\<lambda>h s.
      let (h', v) = copy_pair (unless_nil (TimeDeepCopy L)) (unless_nil (TimeDeepCopy L)) h
        (gLastProbeTime s, gLastTransitionTime s)
      in (h', s\<lparr>gLastProbeTime := fst v, gLastTransitionTime := snd v\<rparr>))"
    by (auto simp: fun_eq_iff TargetHealth_DeepCopyInto_def copy_pair_def unless_nil_def Let_def split: prod.splits)
  show ?thesis
    unfolding eq view_TargetHealth_def ft_TargetHealth_def
    by (rule struct_copier [OF pair_copier [OF unless_nil_copier [OF time_copier [OF L]] unless_nil_copier [OF time_copier [OF L]]]])
      (simp_all add: fun_eq_iff build_TargetHealth_def)
qed

lemma Record_copier:
  fixes L :: "'l CopyLib" and V :: "('l, 'a) LibView"
  assumes L: "lib_contract L V"
  shows "deep_copier (RemediationRecord_DeepCopyInto L) (view_Record V) (ft_Record V)"
proof -
  have eq: "RemediationRecord_DeepCopyInto L = (\<lambda>h s.
      let (h', v) = LibDeepCopyInto L TimeT h (grTime s) in (h', s\<lparr>grTime := v\<rparr>))"
    by (simp add: fun_eq_iff RemediationRecord_DeepCopyInto_def)
  show ?thesis
    unfolding eq view_Record_def ft_Record_def
    by (rule struct_copier [OF lib_copier [OF L]]) (simp_all add: fun_eq_iff build_Record_def)
qed

lemma Spec_copier:
  fixes L :: "'l CopyLib" and V :: "('l, 'a) LibView"
  assumes L: "lib_contract L V"
  shows "deep_copier (HotSwapPolicySpec_DeepCopyInto L) (view_Spec V) (ft_Spec V)"
proof -
  have eq: "HotSwapPolicySpec_DeepCopyInto L = (\<lambda>h s.
      let (h', v) = copy_pair (LibDeepCopyInto L ProbeT) RemediationSpec_DeepCopyInto h
            (gHotswapProbe s, gRemediation s)
      in (h', s\<lparr>gHotswapProbe := fst v, gRemediation := snd v\<rparr>))"
    by (simp add: fun_eq_iff HotSwapPolicySpec_DeepCopyInto_def copy_pair_def split: prod.splits)
  show ?thesis
    unfolding eq view_Spec_def ft_Spec_def
    by (rule struct_copier [OF pair_copier [OF lib_copier [OF L] RemediationSpec_copier]])
      (simp_all add: fun_eq_iff build_Spec_def)
qed

lemma Status_copier:
  fixes L :: "'l CopyLib" and V :: "('l, 'a) LibView"
  assumes L: "lib_contract L V"
  shows "deep_copier (HotSwapPolicyStatus_DeepCopyInto L) (view_Status V) (ft_Status V)"
proof -
  let ?ts = "copy_slice un_TargetHealths TargetHealthArray (TargetHealth_DeepCopyInto L)"
  let ?r = "copy_ptr un_Record RecordCell (RemediationRecord_DeepCopyInto L)"
  let ?cs = "copy_slice un_Libs LibArray (LibDeepCopyInto L ConditionT)"
  have eq: "HotSwapPolicyStatus_DeepCopyInto L = (\<lambda>h s.
      let (h', v) = copy_pair ?ts (copy_pair ?r ?cs) h (status_fields s)
      in (h', s\<lparr>gTargets := fst v, gLastRemediation := fst (snd v), gConditions := snd (snd v)\<rparr>))"
    by (simp add: fun_eq_iff HotSwapPolicyStatus_DeepCopyInto_def copy_pair_def status_fields_def split: prod.splits)
  have parts: "deep_copier (copy_pair ?ts (copy_pair ?r ?cs))
      (view_pair (view_slice un_TargetHealths (view_TargetHealth V))
         (view_pair (view_ptr un_Record (view_Record V)) (view_slice un_Libs (lib_view V ConditionT))))
      (ft_pair (ft_slice un_TargetHealths (ft_TargetHealth V))
         (ft_pair (ft_ptr un_Record (ft_Record V)) (ft_slice un_Libs (lib_ft V ConditionT))))"
    by (intro pair_copier slice_copier ptr_copier TargetHealth_copier Record_copier lib_copier L un_cells)
  show ?thesis
    unfolding eq view_Status_def ft_Status_def
    by (rule struct_copier [OF parts]) (simp_all add: fun_eq_iff status_fields_def build_Status_def)
qed

lemma Policy_copier:
  fixes L :: "'l CopyLib" and V :: "('l, 'a) LibView"
  assumes L: "lib_contract L V"
  shows "deep_copier (HotSwapPolicy_DeepCopyInto L) (view_Policy V) (ft_Policy V)"
proof -
  let ?cp = "copy_pair (LibDeepCopyInto L ObjectMetaT)
    (copy_pair (HotSwapPolicySpec_DeepCopyInto L) (HotSwapPolicyStatus_DeepCopyInto L))"
  have eq: "HotSwapPolicy_DeepCopyInto L = (\<lambda>h s.
      let (h', v) = ?cp h (policy_fields s)
      in (h', s\<lparr>gObjectMeta := fst v, gSpec := fst (snd v), gStatus := snd (snd v)\<rparr>))"
    by (simp add: fun_eq_iff HotSwapPolicy_DeepCopyInto_def copy_pair_def policy_fields_def split: prod.splits)
  have parts: "deep_copier ?cp
      (view_pair (lib_view V ObjectMetaT) (view_pair (view_Spec V) (view_Status V)))
      (ft_pair (lib_ft V ObjectMetaT) (ft_pair (ft_Spec V) (ft_Status V)))"
    by (intro pair_copier Spec_copier Status_copier lib_copier L)
  show ?thesis
    unfolding eq view_Policy_def ft_Policy_def
    by (rule struct_copier [OF parts]) (simp_all add: fun_eq_iff policy_fields_def build_Policy_def)
qed

lemma PolicyList_copier:
  fixes L :: "'l CopyLib" and V :: "('l, 'a) LibView"
  assumes L: "lib_contract L V"
  shows "deep_copier (HotSwapPolicyList_DeepCopyInto L) (view_PolicyList V) (ft_PolicyList V)"
proof -
  let ?cp = "copy_pair (LibDeepCopyInto L ListMetaT)
    (copy_slice un_Policies PolicyArray (HotSwapPolicy_DeepCopyInto L))"
  have eq: "HotSwapPolicyList_DeepCopyInto L = (\<lambda>h s.
      let (h', v) = ?cp h (gListMeta s, gItems s)
      in (h', s\<lparr>gListMeta := fst v, gItems := snd v\<rparr>))"
    by (simp add: fun_eq_iff HotSwapPolicyList_DeepCopyInto_def copy_pair_def split: prod.splits)
  have parts: "deep_copier ?cp
      (view_pair (lib_view V ListMetaT) (view_slice un_Policies (view_Policy V)))
      (ft_pair (lib_ft V ListMetaT) (ft_slice un_Policies (ft_Policy V)))"
    by (intro pair_copier slice_copier Policy_copier lib_copier L un_cells)
  show ?thesis
    unfolding eq view_PolicyList_def ft_PolicyList_def
    by (rule struct_copier [OF parts]) (simp_all add: fun_eq_iff build_PolicyList_def)
qed


section \<open>The allocating functions\<close>

lemma TargetHealth_ptr_copier:
  "lib_contract L V \<Longrightarrow>
   deep_copier (TargetHealth_DeepCopy L) (view_ptr un_TargetHealth (view_TargetHealth V))
     (ft_ptr un_TargetHealth (ft_TargetHealth V))"
  unfolding TargetHealth_DeepCopy_def by (rule ptr_copier [OF TargetHealth_copier]) simp_all

lemma Record_ptr_copier:
  "lib_contract L V \<Longrightarrow>
   deep_copier (RemediationRecord_DeepCopy L) (view_ptr un_Record (view_Record V))
     (ft_ptr un_Record (ft_Record V))"
  unfolding RemediationRecord_DeepCopy_def by (rule ptr_copier [OF Record_copier]) simp_all

lemma Spec_ptr_copier:
  "lib_contract L V \<Longrightarrow>
   deep_copier (HotSwapPolicySpec_DeepCopy L) (view_ptr un_Spec (view_Spec V)) (ft_ptr un_Spec (ft_Spec V))"
  unfolding HotSwapPolicySpec_DeepCopy_def by (rule ptr_copier [OF Spec_copier]) simp_all

lemma Status_ptr_copier:
  "lib_contract L V \<Longrightarrow>
   deep_copier (HotSwapPolicyStatus_DeepCopy L) (view_ptr un_Status (view_Status V))
     (ft_ptr un_Status (ft_Status V))"
  unfolding HotSwapPolicyStatus_DeepCopy_def by (rule ptr_copier [OF Status_copier]) simp_all

lemma Policy_ptr_copier:
  "lib_contract L V \<Longrightarrow>
   deep_copier (HotSwapPolicy_DeepCopy L) (view_ptr un_Policy (view_Policy V)) (ft_ptr un_Policy (ft_Policy V))"
  unfolding HotSwapPolicy_DeepCopy_def by (rule ptr_copier [OF Policy_copier]) simp_all

lemma PolicyList_ptr_copier:
  "lib_contract L V \<Longrightarrow>
   deep_copier (HotSwapPolicyList_DeepCopy L) (view_ptr un_PolicyList (view_PolicyList V))
     (ft_ptr un_PolicyList (ft_PolicyList V))"
  unfolding HotSwapPolicyList_DeepCopy_def by (rule ptr_copier [OF PolicyList_copier]) simp_all

text \<open>A pointer that can be read is not copied to nil.\<close>

lemma copy_ptr_Some:
  assumes "view_ptr get vw h (Some a) = Some y" and "copy_ptr get mk cp h (Some a) = (h', p)"
  shows "p \<noteq> None"
  using assms by (auto simp: view_ptr_def copy_ptr_def bind_eq_Some_conv split: prod.splits)

section \<open>A concrete library and a concrete memory\<close>

text \<open>Library structs of one string and one optional pointer to a library struct.\<close>

type_synonym exL = "string \<times> addr option"

definition exLeaf :: "exL memory \<Rightarrow> addr option \<Rightarrow> exL memory \<times> addr option" where
  "exLeaf = copy_ptr un_Lib LibCell (\<lambda>h v. (h, v))"

definition exInto :: "exL memory \<Rightarrow> exL \<Rightarrow> exL memory \<times> exL" where
  "exInto h v = (let (h', p) = exLeaf h (snd v) in (h', (fst v, p)))"

definition exCopyLib :: "exL CopyLib" where
  "exCopyLib = \<lparr>LibDeepCopyInto = \<lambda>k. exInto, TimeDeepCopy = copy_ptr un_Lib LibCell exInto\<rparr>"

definition exLibView :: "(exL, string \<times> string option) LibView" where
  "exLibView =
     \<lparr>lib_view = \<lambda>k h v. map_option (Pair (fst v)) (view_ptr un_Lib (\<lambda>h v. Some (fst v)) h (snd v)),
      lib_ft = \<lambda>k h v. ft_ptr un_Lib (\<lambda>h v. {}) h (snd v)\<rparr>"

lemma exCopyLib_contract: "lib_contract exCopyLib exLibView"
proof -
  let ?vw = "\<lambda>(h :: exL memory) (v :: exL). map_option (Pair (fst v)) (view_ptr un_Lib (\<lambda>h v. Some (fst v)) h (snd v))"
  let ?ft = "\<lambda>(h :: exL memory) (v :: exL). ft_ptr un_Lib (\<lambda>h v. {}) h (snd v)"
  have eq: "exInto = (\<lambda>h s. let (h', v) = exLeaf h (snd s) in (h', (fst s, v)))"
    by (simp add: fun_eq_iff exInto_def)
  have into: "deep_copier exInto ?vw ?ft"
    unfolding eq exLeaf_def by (rule struct_copier [OF ptr_copier [OF value_copier]]) simp_all
  moreover have "deep_copier (copy_ptr un_Lib LibCell exInto) (view_ptr un_Lib ?vw) (ft_ptr un_Lib ?ft)"
    by (rule ptr_copier [OF into]) simp
  ultimately show ?thesis by (simp add: lib_contract_def exCopyLib_def exLibView_def)
qed

text \<open>A policy at address 0 with one target, whose two time stamps are the same pointer.\<close>

definition exMSpec :: "exL mSpec" where
  "exMSpec = \<lparr>gTargetRef = \<lparr>tr_APIVersion = ''apps/v1'', tr_Kind = ''Deployment'', tr_Name = ''web''\<rparr>,
     gHotswapProbe = (''probe'', None),
     gRemediation = \<lparr>gStrategy = StrategyAuto, gRequireStable = Some 1, gMaxConsecutiveAttempts = 3,
       gCooldownSeconds = 600, gMaxConcurrent = 1, gSystemicFailureSkipPercent = 50, gDryRun = False\<rparr>\<rparr>"

definition exMTarget :: mTargetHealth where
  "exMTarget = \<lparr>gPodName = ''p1'', gPodIP = ''10.0.0.1'', gHealthy = True, gConsecutiveFailures = 0,
     gLastProbeTime = Some 3, gLastTransitionTime = Some 3\<rparr>"

definition exMPolicy :: "exL mPolicy" where
  "exMPolicy = \<lparr>gTypeMeta = \<lparr>tm_Kind = ''HotSwapPolicy'', tm_APIVersion = ''hotswap.io/v1alpha1''\<rparr>,
     gObjectMeta = (''guard'', Some 3), gSpec = exMSpec,
     gStatus = \<lparr>gObservedGeneration = 1, gTargets = Slice 2 0 1, gLastRemediation = None,
       gConsecutiveAttempts = 0, gConditions = NilSlice\<rparr>\<rparr>"

definition exMemory :: "exL memory" where
  "exMemory = \<lparr>cells = [0 \<mapsto> PolicyCell exMPolicy, 1 \<mapsto> BoolCell True, 2 \<mapsto> TargetHealthArray [exMTarget],
      3 \<mapsto> LibCell (''t'', None), 4 \<mapsto> PolicyArray [exMPolicy, exMPolicy],
      5 \<mapsto> PolicyListCell \<lparr>glTypeMeta = \<lparr>tm_Kind = '''', tm_APIVersion = ''''\<rparr>, gListMeta = (''list'', None),
              gItems = Slice 4 0 2\<rparr>],
     next_addr = 6\<rparr>"

definition exVSpec :: "(string \<times> string option) vSpec" where
  "exVSpec = \<lparr>gTargetRef = \<lparr>tr_APIVersion = ''apps/v1'', tr_Kind = ''Deployment'', tr_Name = ''web''\<rparr>,
     gHotswapProbe = (''probe'', None),
     gRemediation = \<lparr>gStrategy = StrategyAuto, gRequireStable = Some True, gMaxConsecutiveAttempts = 3,
       gCooldownSeconds = 600, gMaxConcurrent = 1, gSystemicFailureSkipPercent = 50, gDryRun = False\<rparr>\<rparr>"

definition exVPolicy :: "(string \<times> string option) vPolicy" where
  "exVPolicy = \<lparr>gTypeMeta = \<lparr>tm_Kind = ''HotSwapPolicy'', tm_APIVersion = ''hotswap.io/v1alpha1''\<rparr>,
     gObjectMeta = (''guard'', Some ''t''), gSpec = exVSpec,
     gStatus = \<lparr>gObservedGeneration = 1,
       gTargets = Some [\<lparr>gPodName = ''p1'', gPodIP = ''10.0.0.1'', gHealthy = True, gConsecutiveFailures = 0,
         gLastProbeTime = Some (''t'', None), gLastTransitionTime = Some (''t'', None)\<rparr>],
       gLastRemediation = None, gConsecutiveAttempts = 0, gConditions = None\<rparr>\<rparr>"

lemma exMemory_next [simp]: "next_addr exMemory = 6"
  by (simp add: exMemory_def)

lemma exMemory_ok: "heap_ok exMemory"
  by (simp add: heap_ok_def exMemory_def)

lemma view_exMPolicy: "view_Policy exLibView exMemory exMPolicy = Some exVPolicy"
  by (simp add: view_Policy_def policy_fields_def view_pair_def exMPolicy_def exLibView_def view_ptr_def load_def
      exMemory_def view_Spec_def exMSpec_def view_RemediationSpec_def build_RemediationSpec_def build_Spec_def
      view_Status_def status_fields_def view_slice_def window_def view_TargetHealth_def exMTarget_def
      build_TargetHealth_def build_Status_def build_Policy_def exVPolicy_def exVSpec_def)

lemma view_exMemory:
  "view_ptr un_Policy (view_Policy exLibView) exMemory (Some 0) = Some (Some exVPolicy)"
  "view_ptr un_PolicyList (view_PolicyList exLibView) exMemory (Some 5) =
     Some (Some \<lparr>glTypeMeta = \<lparr>tm_Kind = '''', tm_APIVersion = ''''\<rparr>, gListMeta = (''list'', None),
       gItems = Some [exVPolicy, exVPolicy]\<rparr>)"
proof -
  have l: "load un_Policy exMemory 0 = Some exMPolicy" "load un_Policies exMemory 4 = Some [exMPolicy, exMPolicy]"
    "load un_PolicyList exMemory 5 = Some \<lparr>glTypeMeta = \<lparr>tm_Kind = '''', tm_APIVersion = ''''\<rparr>,
       gListMeta = (''list'', None), gItems = Slice 4 0 2\<rparr>"
    by (simp_all add: load_def exMemory_def)
  show "view_ptr un_Policy (view_Policy exLibView) exMemory (Some 0) = Some (Some exVPolicy)"
    by (simp add: view_ptr_def l view_exMPolicy)
  show "view_ptr un_PolicyList (view_PolicyList exLibView) exMemory (Some 5) =
     Some (Some \<lparr>glTypeMeta = \<lparr>tm_Kind = '''', tm_APIVersion = ''''\<rparr>, gListMeta = (''list'', None),
       gItems = Some [exVPolicy, exVPolicy]\<rparr>)"
    by (simp add: view_ptr_def [of un_PolicyList] l view_PolicyList_def view_pair_def view_slice_def window_def
        view_exMPolicy build_PolicyList_def) (simp add: exLibView_def view_ptr_def)
qed


section \<open>Isolation of a policy and of a list of policies\<close>

lemma DeepCopyObject_Policy:
  "HotSwapPolicy_DeepCopyObject L h (Some a) = (h', obj) \<Longrightarrow>
   view_ptr un_Policy vw h (Some a) = Some y \<Longrightarrow>
   \<exists>q. obj = PolicyObject (Some q) \<and> HotSwapPolicy_DeepCopy L h (Some a) = (h', Some q)"
  unfolding HotSwapPolicy_DeepCopyObject_def HotSwapPolicy_DeepCopy_def
  by (auto split: prod.splits if_splits dest: copy_ptr_Some)

lemma DeepCopyObject_PolicyList:
  "HotSwapPolicyList_DeepCopyObject L h (Some a) = (h', obj) \<Longrightarrow>
   view_ptr un_PolicyList vw h (Some a) = Some y \<Longrightarrow>
   \<exists>q. obj = PolicyListObject (Some q) \<and> HotSwapPolicyList_DeepCopy L h (Some a) = (h', Some q)"
  unfolding HotSwapPolicyList_DeepCopyObject_def HotSwapPolicyList_DeepCopy_def
  by (auto split: prod.splits if_splits dest: copy_ptr_Some)

text \<open>The value behind a pointer, and the cells it reaches.\<close>

abbreviation policy_at where "policy_at V \<equiv> view_ptr un_Policy (view_Policy V)"
abbreviation policy_reach where "policy_reach V \<equiv> ft_ptr un_Policy (ft_Policy V)"
abbreviation list_at where "list_at V \<equiv> view_ptr un_PolicyList (view_PolicyList V)"
abbreviation list_reach where "list_reach V \<equiv> ft_ptr un_PolicyList (ft_PolicyList V)"

text \<open>\<open>DeepCopyObject\<close> of a list of policies: the same for the list with all its items.\<close>

lemma list_copy_isolated:
  assumes "lib_contract L V" and "heap_ok h"
    and "list_at V h (Some a) = Some (Some x)"
    and "HotSwapPolicyList_DeepCopyObject L h (Some a) = (h', obj)"
  shows "HotSwapPolicyList_DeepCopyObject L h None = (h, NilObject) \<and>
    (\<exists>q. obj = PolicyListObject (Some q) \<and> list_at V h' (Some q) = Some (Some x) \<and>
      (\<forall>b. b < next_addr h \<longrightarrow> cells h' b = cells h b) \<and>
      list_reach V h' (Some q) \<subseteq> {next_addr h..<next_addr h'} \<and>
      (\<forall>h''. agree (- list_reach V h' (Some q)) h' h'' \<longrightarrow> list_at V h'' (Some a) = Some (Some x)) \<and>
      (\<forall>h''. agree (- list_reach V h (Some a)) h' h'' \<longrightarrow> list_at V h'' (Some q) = Some (Some x)))"
proof -
  note d = PolicyList_ptr_copier [OF assms(1)]
  obtain q where obj: "obj = PolicyListObject (Some q)" and cp: "HotSwapPolicyList_DeepCopy L h (Some a) = (h', Some q)"
    using DeepCopyObject_PolicyList [OF assms(4,3)] by blast
  have nil: "HotSwapPolicyList_DeepCopyObject L h None = (h, NilObject)"
    by (simp add: HotSwapPolicyList_DeepCopyObject_def HotSwapPolicyList_DeepCopy_def copy_ptr_def)
  show ?thesis
    using nil obj deep_copier.copy [OF d assms(2,3) cp] assms(3)
      deep_copier.isolated(2,3) [OF d assms(2,3) cp]
    by (auto simp: copied_def extends_def agree_def)
qed

text \<open>
  C26: \<open>DeepCopyObject\<close> of a policy. If the library's copy functions are copiers, then the object
  returned for a policy with value \<open>x\<close> is a non-nil policy with the same value \<open>x\<close> (all of spec
  and status, nil and empty told apart), no cell that existed is written, the copy reaches only
  new cells, and afterwards the value of either one survives every write that spares its own
  cells: nothing written through the copy shows in the original or the other way round. Of a nil
  policy it is the nil interface, not an interface holding a nil pointer.
\<close>

theorem policy_copy_isolated:
  assumes "lib_contract L V" and "heap_ok h"
    and "policy_at V h (Some a) = Some (Some x)"
    and "HotSwapPolicy_DeepCopyObject L h (Some a) = (h', obj)"
  shows "HotSwapPolicy_DeepCopyObject L h None = (h, NilObject) \<and>
    (\<exists>q. obj = PolicyObject (Some q) \<and> policy_at V h' (Some q) = Some (Some x) \<and>
      (\<forall>b. b < next_addr h \<longrightarrow> cells h' b = cells h b) \<and>
      policy_reach V h' (Some q) \<subseteq> {next_addr h..<next_addr h'} \<and>
      (\<forall>h''. agree (- policy_reach V h' (Some q)) h' h'' \<longrightarrow> policy_at V h'' (Some a) = Some (Some x)) \<and>
      (\<forall>h''. agree (- policy_reach V h (Some a)) h' h'' \<longrightarrow> policy_at V h'' (Some q) = Some (Some x)))"
proof -
  note d = Policy_ptr_copier [OF assms(1)]
  obtain q where obj: "obj = PolicyObject (Some q)" and cp: "HotSwapPolicy_DeepCopy L h (Some a) = (h', Some q)"
    using DeepCopyObject_Policy [OF assms(4,3)] by blast
  have nil: "HotSwapPolicy_DeepCopyObject L h None = (h, NilObject)"
    by (simp add: HotSwapPolicy_DeepCopyObject_def HotSwapPolicy_DeepCopy_def copy_ptr_def)
  show ?thesis
    using nil obj deep_copier.copy [OF d assms(2,3) cp] assms(3)
      deep_copier.isolated(2,3) [OF d assms(2,3) cp]
    by (auto simp: copied_def extends_def agree_def)
qed

theorem policy_copy_isolated_witness:
  "\<exists>h' q. HotSwapPolicy_DeepCopyObject exCopyLib exMemory (Some 0) = (h', PolicyObject (Some q)) \<and> q \<ge> 6 \<and>
     policy_at exLibView h' (Some q) = Some (Some exVPolicy) \<and>
     policy_at exLibView (put q (BoolCell False) h') (Some 0) = Some (Some exVPolicy) \<and>
     policy_at exLibView (put 1 (BoolCell False) h') (Some q) = Some (Some exVPolicy)"
proof -
  obtain h' obj where cp: "HotSwapPolicy_DeepCopyObject exCopyLib exMemory (Some 0) = (h', obj)"
    by (cases "HotSwapPolicy_DeepCopyObject exCopyLib exMemory (Some 0)")
  obtain q where q: "obj = PolicyObject (Some q)" "policy_at exLibView h' (Some q) = Some (Some exVPolicy)"
    and new: "policy_reach exLibView h' (Some q) \<subseteq> {next_addr exMemory..<next_addr h'}"
    and orig: "\<And>h''. agree (- policy_reach exLibView h' (Some q)) h' h'' \<Longrightarrow> policy_at exLibView h'' (Some 0) = Some (Some exVPolicy)"
    and copy: "\<And>h''. agree (- policy_reach exLibView exMemory (Some 0)) h' h'' \<Longrightarrow> policy_at exLibView h'' (Some q) = Some (Some exVPolicy)"
    using policy_copy_isolated [OF exCopyLib_contract exMemory_ok view_exMemory(1) cp] by blast
  have "q \<in> policy_reach exLibView h' (Some q)" by (simp add: ft_ptr_def)
  moreover have "1 \<in> policy_reach exLibView exMemory (Some 0)"
    by (simp add: ft_ptr_def load_def exMemory_def ft_Policy_def ft_pair_def policy_fields_def ft_Spec_def
        ft_RemediationSpec_def exMPolicy_def exMSpec_def)
  ultimately have "policy_at exLibView (put q (BoolCell False) h') (Some 0) = Some (Some exVPolicy)"
    "policy_at exLibView (put 1 (BoolCell False) h') (Some q) = Some (Some exVPolicy)" "q \<ge> 6"
    using new by (auto simp: agree_def intro!: orig copy)
  then show ?thesis using cp q by (intro exI conjI) simp_all
qed

end
