(* ===== verification/Wiring.thy ===== *)
theory Wiring
  imports Watch
begin

text \<open>
  \<open>SetupWithManager\<close> of \<open>internal/controller/hotswappolicy_controller.go\<close>: the defaults for a
  missing clock and recorder, and the calls by which it has controller-runtime build the
  controller. What such a controller then does is a parameter with named laws, as is \<open>RealClock\<close>,
  Go's \<open>time.Now\<close>; recorders are named by their component.
\<close>

section \<open>The fields the caller sets\<close>

text \<open>The struct \<open>main\<close> fills in; a nil clock or recorder is None.\<close>

record ('w, 'p) SetupFields =
  sf_Client :: "'w Client"
  sf_Prober :: "'p ProbeSource"
  sf_Clock :: "('w \<Rightarrow> gotime \<times> 'w) option"
  sf_Recorder :: "string option"
  sf_lib :: K8sLib

section \<open>The calls of the builder\<close>

datatype watched_kind = KindHotSwapPolicy | KindDeployment | KindPod

text \<open>The handlers of controller-runtime that the code constructs.\<close>

datatype ('w, 'p) handler =
    EnqueueRequestForObject
  | EnqueueRequestsFromMapFunc "watched \<Rightarrow> ('w, 'p, NamespacedName list) action"

text \<open>
  A channel is the function that reads its contents off the prober. The call chain from
  \<open>NewControllerManagedBy\<close> on is the list of its calls; the last one, \<open>Complete\<close>, hands over the
  reconciler.
\<close>

datatype ('w, 'p) builder_call =
    For watched_kind
  | Watches watched_kind "('w, 'p) handler"
  | WatchesRawSource "'p \<Rightarrow> NamespacedName list" "('w, 'p) handler"
  | Named string

record ('w, 'p) Controller =
  ct_Calls :: "('w, 'p) builder_call list"
  ct_Reconciler :: "('w, 'p) HotSwapPolicyReconciler"
  ct_Recorder :: string

definition SetupWithManager ::
  "('w \<Rightarrow> gotime \<times> 'w) \<Rightarrow> ('w, 'p) SetupFields \<Rightarrow> ('w, 'p) Controller" where
  "SetupWithManager realClock f =
     (let clock = (case sf_Clock f of None \<Rightarrow> realClock | Some c \<Rightarrow> c);
          recorder = (case sf_Recorder f of None \<Rightarrow> ''hotswap'' | Some name \<Rightarrow> name);
          r = \<lparr>r_Client = sf_Client f, r_Prober = sf_Prober f, r_Now = clock, r_lib = sf_lib f\<rparr>
      in \<lparr>ct_Calls =
            [For KindHotSwapPolicy,
             Watches KindDeployment (EnqueueRequestsFromMapFunc (policiesForDeployment r)),
             Watches KindPod (EnqueueRequestsFromMapFunc (policiesForPod r)),
             WatchesRawSource (ps_Events (r_Prober r)) EnqueueRequestForObject,
             Named ''hotswappolicy''],
          ct_Reconciler = r, ct_Recorder = recorder\<rparr>)"

text \<open>The event of a probe loop (\<open>probeOnce\<close>): a \<open>PartialObjectMetadata\<close> with the policy's name.\<close>

definition probe_event :: "NamespacedName \<Rightarrow> watched" where
  "probe_event nn = OtherObject (nn_Namespace nn) (nn_Name nn)"

section \<open>What controller-runtime promises\<close>

text \<open>
  What an object asks for: one that changed, of a watched kind, or one that came through a
  channel. \<open>rt_Handle\<close> is what a handler enqueues for an object, \<open>rt_Requests\<close> what a controller
  built by the given calls enqueues.
\<close>

datatype 'p occasion = ChangeOf watched_kind | CameThrough "'p \<Rightarrow> NamespacedName list"

record ('w, 'p) ControllerRuntime =
  rt_Handle :: "('w, 'p) handler \<Rightarrow> watched \<Rightarrow> ('w, 'p, NamespacedName list) action"
  rt_Requests :: "('w, 'p) builder_call list \<Rightarrow> 'p occasion \<Rightarrow> watched \<Rightarrow> ('w, 'p, NamespacedName list) action"

fun concerns :: "'p occasion \<Rightarrow> ('w, 'p) builder_call \<Rightarrow> bool" where
  "concerns (ChangeOf kind) (For k) = (k = kind)"
| "concerns (ChangeOf kind) (Watches k _) = (k = kind)"
| "concerns (CameThrough ch) (WatchesRawSource ch' _) = (ch' = ch)"
| "concerns _ _ = False"

text \<open>
  The documented behaviour: \<open>EnqueueRequestForObject\<close> enqueues the name of the object,
  \<open>EnqueueRequestsFromMapFunc\<close> what the function returns; \<open>For\<close> reconciles the changed object
  itself, \<open>Watches\<close> and \<open>WatchesRawSource\<close> run their handler. Said of occasions that a single call
  concerns.
\<close>

definition runtime_laws :: "('w, 'p) ControllerRuntime \<Rightarrow> bool" where
  "runtime_laws rt \<longleftrightarrow>
     (\<forall>obj. rt_Handle rt EnqueueRequestForObject obj =
        State_Monad.return [\<lparr>nn_Namespace = obj_Namespace obj, nn_Name = obj_Name obj\<rparr>]) \<and>
     (\<forall>f obj. rt_Handle rt (EnqueueRequestsFromMapFunc f) obj = f obj) \<and>
     (\<forall>calls k obj. filter (concerns (ChangeOf k)) calls = [For k] \<longrightarrow>
        rt_Requests rt calls (ChangeOf k) obj = rt_Handle rt EnqueueRequestForObject obj) \<and>
     (\<forall>calls k h obj. filter (concerns (ChangeOf k)) calls = [Watches k h] \<longrightarrow>
        rt_Requests rt calls (ChangeOf k) obj = rt_Handle rt h obj) \<and>
     (\<forall>calls ch h obj. filter (concerns (CameThrough ch)) calls = [WatchesRawSource ch h] \<longrightarrow>
        rt_Requests rt calls (CameThrough ch) obj = rt_Handle rt h obj)"

text \<open>What the controller of \<open>SetupWithManager\<close> enqueues under these laws.\<close>

lemma SetupWithManager_fields [simp]:
  "r_Client (ct_Reconciler (SetupWithManager rc f)) = sf_Client f"
  "r_Prober (ct_Reconciler (SetupWithManager rc f)) = sf_Prober f"
  "r_lib (ct_Reconciler (SetupWithManager rc f)) = sf_lib f"
  by (simp_all add: SetupWithManager_def Let_def)

lemma SetupWithManager_requests:
  assumes "runtime_laws rt"
  shows "rt_Requests rt (ct_Calls (SetupWithManager rc f)) (ChangeOf KindHotSwapPolicy) obj =
      State_Monad.return [\<lparr>nn_Namespace = obj_Namespace obj, nn_Name = obj_Name obj\<rparr>]"
    and "rt_Requests rt (ct_Calls (SetupWithManager rc f)) (ChangeOf KindDeployment) obj =
      policiesForDeployment (ct_Reconciler (SetupWithManager rc f)) obj"
    and "rt_Requests rt (ct_Calls (SetupWithManager rc f)) (ChangeOf KindPod) obj =
      policiesForPod (ct_Reconciler (SetupWithManager rc f)) obj"
    and "rt_Requests rt (ct_Calls (SetupWithManager rc f)) (CameThrough (ps_Events (sf_Prober f))) obj =
      State_Monad.return [\<lparr>nn_Namespace = obj_Namespace obj, nn_Name = obj_Name obj\<rparr>]"
  using assms by (simp_all add: runtime_laws_def SetupWithManager_def Let_def)

end
