(* ===== verification/EventProps.thy ===== *)
theory EventProps
  imports LoopProps ReconcileSpec "HOL-Library.Multiset"
begin

text \<open>
  What becomes of every change of a pod's health: the accounts of the probe loops' events over
  all interleavings, kept as multisets of policy names.
\<close>

section \<open>Observing a step\<close>

fun is_recording :: "pc \<Rightarrow> bool" where
  "is_recording (Recording _ _ _ _) = True"
| "is_recording _ = False"

fun is_sending :: "pc \<Rightarrow> bool" where
  "is_sending (Sending _) = True"
| "is_sending _ = False"

text \<open>
  What can be seen of a step from its two ends: the loops that record a transition, those that
  give one up, the event the controller reads; and in a state, the loops about to report.
\<close>

definition transitions :: "system \<Rightarrow> system \<Rightarrow> goroutine list" where
  "transitions s t =
     filter (\<lambda>g. is_recording (loops s (g_ctx g)) \<and> is_sending (loops t (g_ctx g))) (spawned (sm s))"

definition given_up :: "system \<Rightarrow> system \<Rightarrow> goroutine list" where
  "given_up s t =
     (if events (sm t) = events (sm s)
      then filter (\<lambda>g. is_sending (loops s (g_ctx g)) \<and> \<not> is_sending (loops t (g_ctx g))) (spawned (sm s))
      else [])"

definition received :: "system \<Rightarrow> system \<Rightarrow> NamespacedName list" where
  "received s t = (if length (events (sm t)) < length (events (sm s)) then [hd (events (sm s))] else [])"

definition reporting :: "system \<Rightarrow> goroutine list" where
  "reporting s = filter (\<lambda>g. is_sending (loops s (g_ctx g))) (spawned (sm s))"

inductive observed ::
  "(NamespacedName \<Rightarrow> string) \<Rightarrow> system \<Rightarrow> NamespacedName list \<Rightarrow> NamespacedName list \<Rightarrow>
   NamespacedName list \<Rightarrow> bool"
  for K :: "NamespacedName \<Rightarrow> string" where
  start: "observed K initial_system [] [] []"
| more: "observed K s ts ds rs \<Longrightarrow> step K s t \<Longrightarrow>
    observed K t (ts @ map g_nn (transitions s t)) (ds @ map g_nn (given_up s t)) (rs @ received s t)"

lemma observed_reachable: "observed K s ts ds rs \<Longrightarrow> reachable K s"
  by (induction rule: observed.induct) (auto intro: reachable.intros)

section \<open>One loop moves\<close>

lemma filter_one:
  "distinct xs \<Longrightarrow> g \<in> set xs \<Longrightarrow> (\<And>x. x \<in> set xs \<Longrightarrow> x \<noteq> g \<Longrightarrow> \<not> Q x) \<Longrightarrow>
   filter Q xs = (if Q g then [g] else [])"
proof (induction xs)
  case (Cons x xs)
  show ?case
  proof (cases "x = g")
    case True
    with Cons.prems have "filter Q xs = []" by (auto simp: filter_empty_conv)
    with True show ?thesis by simp
  next
    case False
    with Cons show ?thesis by auto
  qed
qed simp

lemma mset_filter_one:
  "distinct xs \<Longrightarrow> g \<in> set xs \<Longrightarrow> (\<And>x. x \<in> set xs \<Longrightarrow> x \<noteq> g \<Longrightarrow> Q x = Q' x) \<Longrightarrow>
   mset (filter Q' xs) + (if Q g then {#g#} else {#}) = mset (filter Q xs) + (if Q' g then {#g#} else {#})"
proof (induction xs)
  case (Cons x xs)
  show ?case
  proof (cases "x = g")
    case True
    with Cons.prems have "filter Q xs = filter Q' xs" by (auto intro!: filter_cong)
    with True show ?thesis by simp
  next
    case False
    with Cons have "mset (filter Q' xs) + (if Q g then {#g#} else {#}) =
        mset (filter Q xs) + (if Q' g then {#g#} else {#})" by auto
    with False Cons.prems(3) [of x] show ?thesis by auto
  qed
qed simp

lemma wf_spawned_distinct:
  assumes "wf_manager K m"
  shows "distinct (spawned m)" and "g \<in> set (spawned m) \<Longrightarrow> x \<in> set (spawned m) \<Longrightarrow> x \<noteq> g \<Longrightarrow> g_ctx x \<noteq> g_ctx g"
proof -
  have "distinct (map g_ctx (spawned m))" using wf_spawned [OF assms] by simp
  then show "distinct (spawned m)" by (simp add: distinct_map)
  show "g_ctx x \<noteq> g_ctx g" if "g \<in> set (spawned m)" "x \<in> set (spawned m)" "x \<noteq> g"
    using wf_ctx_inj [OF assms that(2,1)] that(3) by blast
qed

lemma move_observed:
  assumes wf: "wf_manager K (sm s)" and g: "at s g p"
    and t: "loops t = (loops s)(g_ctx g := q)" "spawned (sm t) = spawned (sm s)"
  shows "transitions s t = (if is_recording p \<and> is_sending q then [g] else [])"
    and "given_up s t = (if events (sm t) = events (sm s) \<and> is_sending p \<and> \<not> is_sending q then [g] else [])"
    and "mset (reporting t) + (if is_sending p then {#g#} else {#}) =
      mset (reporting s) + (if is_sending q then {#g#} else {#})"
proof -
  have in_s: "g \<in> set (spawned (sm s))" and p: "loops s (g_ctx g) = p" using g by (simp_all add: at_def)
  note other = wf_spawned_distinct(2) [OF wf in_s]
  have no: "is_recording r \<Longrightarrow> \<not> is_sending r" for r by (cases r) simp_all
  show "transitions s t = (if is_recording p \<and> is_sending q then [g] else [])"
    unfolding transitions_def
    by (subst filter_one [OF wf_spawned_distinct(1) [OF wf] in_s]) (use other no in \<open>auto simp: t p\<close>)
  show "given_up s t = (if events (sm t) = events (sm s) \<and> is_sending p \<and> \<not> is_sending q then [g] else [])"
    unfolding given_up_def
    by (subst filter_one [OF wf_spawned_distinct(1) [OF wf] in_s]) (use other in \<open>auto simp: t p\<close>)
  have "mset (filter (\<lambda>g. is_sending (loops t (g_ctx g))) (spawned (sm s))) +
        (if is_sending (loops s (g_ctx g)) then {#g#} else {#}) =
      mset (filter (\<lambda>g. is_sending (loops s (g_ctx g))) (spawned (sm s))) +
        (if is_sending (loops t (g_ctx g)) then {#g#} else {#})"
    by (rule mset_filter_one [OF wf_spawned_distinct(1) [OF wf] in_s]) (simp add: t(1) other)
  moreover have "loops t (g_ctx g) = q" by (simp add: t(1))
  ultimately show "mset (reporting t) + (if is_sending p then {#g#} else {#}) =
      mset (reporting s) + (if is_sending q then {#g#} else {#})"
    by (simp only: reporting_def t(2) p)
qed

text \<open>A step of anyone else, which can only start loops.\<close>

lemma still_observed:
  assumes inv: "system_inv K s" and t: "loops t = loops s"
    and new: "\<exists>gs. spawned (sm t) = spawned (sm s) @ gs \<and> (\<forall>g \<in> set gs. nextCtx (sm s) \<le> g_ctx g)"
  shows "transitions s t = []" "given_up s t = []" "reporting t = reporting s"
proof -
  obtain gs where gs: "spawned (sm t) = spawned (sm s) @ gs" "\<forall>g \<in> set gs. nextCtx (sm s) \<le> g_ctx g"
    using new by blast
  have no: "is_recording r \<Longrightarrow> \<not> is_sending r" for r by (cases r) simp_all
  show "transitions s t = []" "given_up s t = []"
    using no by (auto simp: transitions_def given_up_def t filter_empty_conv)
  have "loops s (g_ctx g) = Entering" if "g \<in> set gs" for g
    using inv gs(2) that by (simp add: system_inv_def)
  then show "reporting t = reporting s" by (simp add: reporting_def gs(1) t filter_empty_conv)
qed


section \<open>The accounts of a step\<close>

definition waiting_events :: "system \<Rightarrow> NamespacedName multiset" where
  "waiting_events s = mset (events (sm s)) + mset (map g_nn (reporting s))"

lemma move_balance:
  assumes wf: "wf_manager K (sm s)" and g: "at s g p"
    and t: "loops t = (loops s)(g_ctx g := q)" "spawned (sm t) = spawned (sm s)"
    and ev: "events (sm t) = events (sm s) @ new" and new: "new = [] \<or> new = [g_nn g] \<and> is_sending p \<and> \<not> is_sending q"
    and enter: "is_sending q \<Longrightarrow> is_recording p"
  shows "waiting_events s + mset (map g_nn (transitions s t)) =
    waiting_events t + mset (map g_nn (given_up s t)) + mset (received s t)"
proof -
  have no: "is_recording r \<Longrightarrow> \<not> is_sending r" for r by (cases r) simp_all
  note m = move_observed [OF wf g t]
  have "image_mset g_nn (mset (reporting t) + (if is_sending p then {#g#} else {#})) =
      image_mset g_nn (mset (reporting s) + (if is_sending q then {#g#} else {#}))"
    by (simp only: m(3))
  then show ?thesis
    using new enter no [of p] by (cases "is_sending p"; cases "is_sending q")
      (auto simp: waiting_events_def m(1,2) ev received_def)
qed

lemma still_balance:
  assumes "system_inv K s" "loops t = loops s" "events (sm t) = events (sm s)"
    and "\<exists>gs. spawned (sm t) = spawned (sm s) @ gs \<and> (\<forall>g \<in> set gs. nextCtx (sm s) \<le> g_ctx g)"
  shows "waiting_events s + mset (map g_nn (transitions s t)) =
    waiting_events t + mset (map g_nn (given_up s t)) + mset (received s t)"
  using still_observed [OF assms(1,2,4)] by (simp add: waiting_events_def received_def assms(3))

lemma spawned_Sync_fresh:
  assumes "wf_manager K m"
  shows "\<exists>gs. spawned (Sync K ord nn cfg ts m) = spawned m @ gs \<and> (\<forall>g \<in> set gs. nextCtx m \<le> g_ctx g)"
proof -
  obtain gs where gs: "spawned (Sync K ord nn cfg ts m) = spawned m @ gs" using spawned_Sync by blast
  have "distinct (spawned m @ gs)" using wf_spawned_distinct(1) [OF wf_Sync [OF assms]] gs by metis
  moreover have "g \<in> set (spawned m) \<or> nextCtx m \<le> g_ctx g" if "g \<in> set gs" for g
    using spawned_Sync_new [OF assms, where g = g and ord = ord and nn = nn and cfg = cfg and ts = ts] gs that by simp
  ultimately show ?thesis using gs by auto
qed

lemma step_balance:
  assumes "step K s t" and inv: "system_inv K s"
  shows "waiting_events s + mset (map g_nn (transitions s t)) =
    waiting_events t + mset (map g_nn (given_up s t)) + mset (received s t)"
proof -
  have wf: "wf_manager K (sm s)" using inv by (simp add: system_inv_def)
  note move = move_balance [OF wf, where new = "[]"] and still = still_balance [OF inv]
  from assms(1) show ?thesis
  proof cases
    case (recorded g p cfg ok now tr m)
    then show ?thesis
      by (intro move [OF recorded(2), where q = "if tr then Sending p else Waiting p"])
        (simp_all add: probe_record_frame)
  next
    case (send g p)
    then show ?thesis
      by (intro move_balance [OF wf send(2), where q = "Waiting p" and new = "[g_nn g]"]) simp_all
  next
    case (sync ord nn cfg ts)
    then show ?thesis by (intro still) (simp_all add: Sync_frame spawned_Sync_fresh [OF wf])
  next
    case (receive e es)
    have "transitions s t = []" "given_up s t = []" "reporting t = reporting s"
      by (rule still_observed [OF inv]; simp add: receive)+
    then show ?thesis by (simp add: receive waiting_events_def received_def)
  next
    case (enter_gone g)
    then show ?thesis by (intro move [OF enter_gone(2), where q = "Returned"]) simp_all
  next
    case (enter_delay g d p)
    then show ?thesis by (intro move [OF enter_delay(2), where q = "Delaying p"]) simp_all
  next
    case (enter_probe g d p)
    then show ?thesis by (intro move [OF enter_probe(2), where q = "Probing p"]) simp_all
  next
    case (delay_over g p)
    then show ?thesis by (intro move [OF delay_over(2), where q = "Probing p"]) simp_all
  next
    case (delay_cancelled g p)
    then show ?thesis by (intro move [OF delay_cancelled(2), where q = "Returned"]) simp_all
  next
    case (read_gone g p)
    then show ?thesis by (intro move [OF read_gone(2), where q = "Waiting p"]) simp_all
  next
    case (read g p cfg ip)
    then show ?thesis by (intro move [OF read(2), where q = "Checking p cfg ip"]) simp_all
  next
    case (checked g p cfg ip ok now)
    then show ?thesis by (intro move [OF checked(2), where q = "Recording p cfg ok now"]) simp_all
  next
    case (send_cancelled g p)
    then show ?thesis by (intro move [OF send_cancelled(2), where q = "Waiting p"]) simp_all
  next
    case (tick g p)
    then show ?thesis by (intro move [OF tick(2), where q = "Probing p"]) simp_all
  next
    case (wait_cancelled g p)
    then show ?thesis by (intro move [OF wait_cancelled(2), where q = "Returned"]) simp_all
  next
    case (seen_ready nn u)
    then show ?thesis by (intro still) simp_all
  next
    case (forget ord nn)
    then show ?thesis by (intro still) simp_all
  next
    case shutdown
    then show ?thesis by (intro still) (simp_all add: Start_def)
  qed
qed


text \<open>Only a cancelled loop gives a transition up.\<close>

lemma step_given_up:
  assumes "step K s t" and "g \<in> set (given_up s t)"
  shows "ctxDone (sm s) (g_ctx g)"
  using assms(1)
proof cases
  case (recorded g' p cfg ok now tr m)
  with assms(2) show ?thesis by (auto simp: given_up_def at_def split: if_splits)
qed (use assms(2) in \<open>auto simp: given_up_def at_def split: if_splits\<close>)

section \<open>Transitions are changes of health\<close>

lemma probe_record_transition:
  "entry_at m (K nn) u = Some pod \<Longrightarrow> fst (probe_record K nn u cfg ok now m) = fst (record_probe pod cfg ok now)"
  by (auto simp: probe_record_def entry_at_def split: option.splits prod.splits)

lemma step_transitions:
  assumes "step K s t" and inv: "system_inv K s"
    and pod: "entry_at (sm s) k u = Some pod" "entry_at (sm t) k u = Some pod'"
  shows "Healthy pod \<noteq> Healthy pod' \<longleftrightarrow> (\<exists>g \<in> set (transitions s t). K (g_nn g) = k \<and> g_uid g = u)"
proof -
  have wf: "wf_manager K (sm s)" using inv by (simp add: system_inv_def)
  have quiet: ?thesis if "transitions s t = []" "Healthy pod' = Healthy pod" using that by simp
  have none: "transitions s t = []"
    if "\<And>g. g \<in> set (spawned (sm s)) \<Longrightarrow> is_recording (loops s (g_ctx g)) \<Longrightarrow> \<not> is_sending (loops t (g_ctx g))"
    using that by (auto simp: transitions_def filter_empty_conv)
  have no: "is_recording r \<Longrightarrow> \<not> is_sending r" for r by (cases r) simp_all
  from assms(1) show ?thesis
  proof cases
    case (recorded g p cfg ok now tr m)
    have m: "m = snd (probe_record K (g_nn g) (g_uid g) cfg ok now (sm s))"
      and tr: "tr = fst (probe_record K (g_nn g) (g_uid g) cfg ok now (sm s))" using recorded(3) by simp_all
    have "transitions s t = (if tr then [g] else [])"
      using move_observed(1) [OF wf recorded(2), of t "if tr then Sending p else Waiting p"] recorded(1,3)
      by (simp add: probe_record_frame)
    moreover have "entry_at (sm t) k u = (if k = K (g_nn g) \<and> u = g_uid g
        then map_option (\<lambda>pod. snd (record_probe pod cfg ok now)) (entry_at (sm s) k u) else entry_at (sm s) k u)"
      by (simp add: recorded(1) m entry_at_probe_record)
    ultimately show ?thesis
      using pod record_probe_transition [of pod cfg ok now, OF surjective_pairing]
        probe_record_transition [of "sm s" K "g_nn g" "g_uid g" pod cfg ok now]
      by (auto simp: tr split: if_splits)
  next
    case (sync ord nn cfg ts)
    show ?thesis
    proof (rule quiet)
      show "transitions s t = []" by (rule none) (simp add: sync no)
      show "Healthy pod' = Healthy pod"
        using entry_at_Sync [OF wf, where ord = ord and nn = nn and cfg = cfg and ts = ts and u = u] pod
          entry_at_Sync_other [where k = k and K = K and nn = nn and m = "sm s"]
        by (cases "k = K nn") (auto simp: sync synced_def split: option.splits)
    qed
  next
    case (seen_ready nn v)
    show ?thesis by (rule quiet [OF none]) (use pod in \<open>auto simp: seen_ready no entry_at_SetSeenReady split: if_splits\<close>)
  next
    case (forget ord nn)
    show ?thesis by (rule quiet [OF none]) (use pod in \<open>auto simp: forget no entry_at_Forget split: if_splits\<close>)
  qed (use pod in \<open>auto simp: transitions_def no entry_at_def at_def Start_def split: if_splits\<close>)
qed


section \<open>No transition is lost\<close>

lemma observed_balance:
  "observed K s ts ds rs \<Longrightarrow> mset ts = mset rs + mset ds + waiting_events s"
proof (induction rule: observed.induct)
  case start
  show ?case by (simp add: waiting_events_def reporting_def initial_system_def NewManager_def)
next
  case (more s ts ds rs t)
  from step_balance [OF more.hyps(2) reachable_inv [OF observed_reachable [OF more.hyps(1)]]] more.IH
  show ?case by (simp add: ac_simps)
qed

text \<open>
  C8: no change of health is lost on the way to the reconciler. Along every interleaving of probe
  loops, reconciler calls, reads and shutdown, let \<open>ts\<close> be the policies of the recorded
  transitions, \<open>rs\<close> those of the events the controller has read and \<open>ds\<close> those given up. A step
  records a transition for a pod exactly if it changes the health of that pod's entry; only a
  loop whose context is cancelled gives one up; and counted by policy every transition has been
  read, is in the channel, is about to be sent, or was given up so.
\<close>

theorem no_transition_lost:
  assumes "observed K s ts ds rs" and "step K s t"
  shows "mset ts = mset rs + mset ds + mset (events (sm s)) + mset (map g_nn (reporting s)) \<and>
    (\<forall>g \<in> set (given_up s t). ctxDone (sm s) (g_ctx g)) \<and>
    (\<forall>k u pod pod'. entry_at (sm s) k u = Some pod \<longrightarrow> entry_at (sm t) k u = Some pod' \<longrightarrow>
       (Healthy pod \<noteq> Healthy pod' \<longleftrightarrow> (\<exists>g \<in> set (transitions s t). K (g_nn g) = k \<and> g_uid g = u)))"
proof -
  have inv: "system_inv K s" by (rule reachable_inv [OF observed_reachable [OF assms(1)]])
  show ?thesis
    using observed_balance [OF assms(1)] step_given_up [OF assms(2)] step_transitions [OF assms(2) inv]
    by (simp add: waiting_events_def ac_simps)
qed

text \<open>The first failed check of the example, recorded.\<close>

definition exReporting :: system where
  "exReporting = (goto exFailed exLoop (Sending (5 * Second)))
     \<lparr>sm := snd (probe_record exString exNN ''u1'' exCfg False exNow (sm exFailed))\<rparr>"

lemma exReporting_entries:
  "entry_at (sm exFailed) ''shop/guard'' ''u1'' = Some ((new_podEntry exTarget)\<lparr>cancel := Some 0\<rparr>)"
  "entry_at (sm exReporting) ''shop/guard'' ''u1'' =
     Some (snd (record_probe ((new_podEntry exTarget)\<lparr>cancel := Some 0\<rparr>) exCfg False exNow))"
  by (simp_all add: exReporting_def exFailed_def exSystem_def exTracked_eval exString_def exNN_def
      entry_at_probe_record, simp_all add: entry_at_def)

lemma exReporting_step: "step exString exFailed exReporting"
proof -
  have "fst (probe_record exString exNN ''u1'' exCfg False exNow (sm exFailed))"
    using probe_record_transition [where m = "sm exFailed" and K = exString and nn = exNN and u = "''u1''"]
      exReporting_entries(1)
    by (simp add: exString_def exNN_def record_probe_def Let_def new_podEntry_def failure_of_def exCfg_def go_cmp)
  then show ?thesis
    unfolding exReporting_def
    by (intro step.recorded [where g = exLoop and p = "5 * Second" and cfg = exCfg and ok = False and now = exNow
          and transitioned = True, simplified])
      (simp_all add: at_def exFailed_def exSystem_def exTracked_eval prod_eq_iff)
qed

lemma reachable_observed: "reachable K s \<Longrightarrow> \<exists>ts ds rs. observed K s ts ds rs"
  by (induction rule: reachable.induct) (blast intro: observed.intros)+

theorem no_transition_lost_witness:
  "\<exists>g. g \<in> set (transitions exFailed exReporting) \<and> exString (g_nn g) = ''shop/guard'' \<and> g_uid g = ''u1''"
proof -
  obtain ts ds rs where "observed exString exFailed ts ds rs"
    using reachable_observed [OF exFailed_reachable] by blast
  note lost = no_transition_lost [OF this exReporting_step, THEN conjunct2, THEN conjunct2, rule_format]
  have "\<not> Healthy (snd (record_probe ((new_podEntry exTarget)\<lparr>cancel := Some 0\<rparr>) exCfg False exNow))"
    by (simp add: record_probe_def Let_def new_podEntry_def failure_of_def exCfg_def go_cmp)
  with lost [OF exReporting_entries] show ?thesis
    by (auto simp: new_podEntry_def)
qed

end
