(* ===== verification/WiringProps.thy ===== *)
theory WiringProps
  imports Wiring EventProps ReconcileSpec
begin

text \<open>
  From changes in the cluster and in the health of pods to reconciles: the probe loops, the
  controller of \<open>SetupWithManager\<close> and controller-runtime put together.
\<close>

section \<open>Whose transitions\<close>

text \<open>Every recorded transition is of a policy some loop was started for.\<close>

lemma observed_owned: "observed K s ts ds rs \<Longrightarrow> set ts \<subseteq> g_nn ` set (spawned (sm s))"
proof (induction rule: observed.induct)
  case (more s ts ds rs t)
  have "set (transitions s t) \<subseteq> set (spawned (sm s))" by (auto simp: transitions_def)
  with more.IH spawned_mono [OF more.hyps(2)] show ?case by auto
qed simp

section \<open>What a change asks for\<close>

text \<open>The requests a list of events from the channel leads to, handled one by one.\<close>

definition event_requests ::
  "('w, 'p) ControllerRuntime \<Rightarrow> ('w, 'p) Controller \<Rightarrow> ('p \<Rightarrow> NamespacedName list) \<Rightarrow> ('w, 'p) rstate \<Rightarrow>
   NamespacedName list \<Rightarrow> NamespacedName list" where
  "event_requests rt c channel t es =
     concat (map (\<lambda>e. fst (run_state (rt_Requests rt (ct_Calls c) (CameThrough channel) (probe_event e)) t)) es)"

lemma event_requests_SetupWithManager:
  "runtime_laws rt \<Longrightarrow> event_requests rt (SetupWithManager rc f) (ps_Events (sf_Prober f)) t es = es"
  by (induction es) (simp_all add: event_requests_def SetupWithManager_requests probe_event_def)


section \<open>A controller-runtime\<close>

text \<open>It runs the handlers of all calls that concern the occasion, in order.\<close>

fun exHandle :: "('w, 'p) handler \<Rightarrow> watched \<Rightarrow> ('w, 'p, NamespacedName list) action" where
  "exHandle EnqueueRequestForObject obj =
     State_Monad.return [\<lparr>nn_Namespace = obj_Namespace obj, nn_Name = obj_Name obj\<rparr>]"
| "exHandle (EnqueueRequestsFromMapFunc f) obj = f obj"

fun handler_of :: "('w, 'p) builder_call \<Rightarrow> ('w, 'p) handler" where
  "handler_of (Watches _ h) = h"
| "handler_of (WatchesRawSource _ h) = h"
| "handler_of _ = EnqueueRequestForObject"

fun exHandles :: "('w, 'p) builder_call list \<Rightarrow> watched \<Rightarrow> ('w, 'p, NamespacedName list) action" where
  "exHandles [] obj = State_Monad.return []"
| "exHandles (c # cs) obj = do {
     xs \<leftarrow> exHandle (handler_of c) obj;
     ys \<leftarrow> exHandles cs obj;
     State_Monad.return (xs @ ys) }"

definition exRuntime :: "('w, 'p) ControllerRuntime" where
  "exRuntime = \<lparr>rt_Handle = exHandle, rt_Requests = (\<lambda>calls occ. exHandles (filter (concerns occ) calls))\<rparr>"

lemma exRuntime_laws: "runtime_laws exRuntime"
  by (simp add: runtime_laws_def exRuntime_def)

text \<open>The loop of the example after its failed check was recorded and its transition sent and read.\<close>

lemma exSent:
  obtains s ts ds rs where "observed exString s ts ds (rs @ [exNN])" and "events (sm s) = []"
proof -
  have rep: "at exReporting exLoop (Sending (5 * Second))" "events (sm exReporting) = []"
    by (simp_all add: at_def exReporting_def exFailed_def exSystem_def exTracked_eval NewManager_def)
  let ?a = "(goto exReporting exLoop (Waiting (5 * Second)))
    \<lparr>sm := (sm exReporting)\<lparr>events := events (sm exReporting) @ [g_nn exLoop]\<rparr>\<rparr>"
  have "step exString exReporting ?a"
    by (rule step.send [OF rep(1)]) (simp add: rep eventsCap_def)
  then have "reachable exString ?a"
    using reachable.next_step [OF reachable.next_step [OF exFailed_reachable exReporting_step]] by blast
  then obtain ts ds rs where o: "observed exString ?a ts ds rs" using reachable_observed by blast
  let ?b = "?a\<lparr>sm := (sm ?a)\<lparr>events := []\<rparr>\<rparr>"
  have "step exString ?a ?b" by (rule step.receive [where e = exNN]) (simp add: rep)
  from observed.more [OF o this] have "observed exString ?b (ts @ map g_nn (transitions ?a ?b))
      (ds @ map g_nn (given_up ?a ?b)) (rs @ [exNN])" by (simp add: received_def rep)
  then show thesis by (rule that) simp
qed

definition exFields :: "HotSwapPolicy \<Rightarrow> (nat, scheduled) SetupFields" where
  "exFields policy =
     \<lparr>sf_Client = exClient policy (\<lambda>_. None), sf_Prober = managerSource exString ascending,
      sf_Clock = None, sf_Recorder = Some ''hotswap'', sf_lib = exLib\<rparr>"

abbreviation exController :: "(nat, scheduled) Controller" where
  "exController \<equiv> SetupWithManager (\<lambda>w. (exNow, w)) (exFields (exPolicy exSpec))"


end
