(* ===== verification/Flags.thy ===== *)
theory Flags
  imports Prelude
begin

text \<open>
  The command line of \<open>cmd/main.go\<close>: the flags \<open>main\<close> registers, with their defaults, and
  \<open>flag.Parse\<close> of Go's standard library, which fills them from the arguments. The flags that
  libraries register on the same command line (zap's \<open>BindFlags\<close>, controller-runtime's
  \<open>kubeconfig\<close>) are a parameter: by name, whether the flag is boolean and which values it takes.
\<close>

section \<open>The variables of \<open>main\<close>\<close>

record Flags =
  metricsAddr :: string
  probeAddr :: string
  enableLeaderElection :: bool
  secureMetrics :: bool
  webhookCertPath :: string
  webhookCertName :: string
  webhookCertKey :: string
  metricsCertPath :: string
  metricsCertName :: string
  metricsCertKey :: string
  enableHTTP2 :: bool

text \<open>The default each \<open>StringVar\<close> and \<open>BoolVar\<close> assigns.\<close>

definition default_flags :: Flags where
  "default_flags =
     \<lparr>metricsAddr = ''0'', probeAddr = '':8081'', enableLeaderElection = False, secureMetrics = True,
      webhookCertPath = '''', webhookCertName = ''tls.crt'', webhookCertKey = ''tls.key'',
      metricsCertPath = '''', metricsCertName = ''tls.crt'', metricsCertKey = ''tls.key'',
      enableHTTP2 = False\<rparr>"

datatype flag_var =
    StringVar "string \<Rightarrow> Flags \<Rightarrow> Flags"
  | BoolVar "bool \<Rightarrow> Flags \<Rightarrow> Flags"
  | LibraryVar bool "string \<Rightarrow> bool"

definition main_flags :: "(string \<times> flag_var) list" where
  "main_flags =
     [(''metrics-bind-address'', StringVar (\<lambda>v f. f\<lparr>metricsAddr := v\<rparr>)),
      (''health-probe-bind-address'', StringVar (\<lambda>v f. f\<lparr>probeAddr := v\<rparr>)),
      (''leader-elect'', BoolVar (\<lambda>v f. f\<lparr>enableLeaderElection := v\<rparr>)),
      (''metrics-secure'', BoolVar (\<lambda>v f. f\<lparr>secureMetrics := v\<rparr>)),
      (''webhook-cert-path'', StringVar (\<lambda>v f. f\<lparr>webhookCertPath := v\<rparr>)),
      (''webhook-cert-name'', StringVar (\<lambda>v f. f\<lparr>webhookCertName := v\<rparr>)),
      (''webhook-cert-key'', StringVar (\<lambda>v f. f\<lparr>webhookCertKey := v\<rparr>)),
      (''metrics-cert-path'', StringVar (\<lambda>v f. f\<lparr>metricsCertPath := v\<rparr>)),
      (''metrics-cert-name'', StringVar (\<lambda>v f. f\<lparr>metricsCertName := v\<rparr>)),
      (''metrics-cert-key'', StringVar (\<lambda>v f. f\<lparr>metricsCertKey := v\<rparr>)),
      (''enable-http2'', BoolVar (\<lambda>v f. f\<lparr>enableHTTP2 := v\<rparr>))]"

type_synonym library_flags = "string \<rightharpoonup> bool \<times> (string \<Rightarrow> bool)"

definition formal :: "library_flags \<Rightarrow> string \<Rightarrow> flag_var option" where
  "formal lib name =
     (case map_of main_flags name of
        Some v \<Rightarrow> Some v
      | None \<Rightarrow> map_option (\<lambda>(b, ok). LibraryVar b ok) (lib name))"

section \<open>\<open>flag.Parse\<close>\<close>

text \<open>\<open>strconv.ParseBool\<close>.\<close>

definition ParseBool :: "string \<Rightarrow> bool option" where
  "ParseBool s =
     (if s \<in> set [''1'', ''t'', ''T'', ''true'', ''TRUE'', ''True''] then Some True
      else if s \<in> set [''0'', ''f'', ''F'', ''false'', ''FALSE'', ''False''] then Some False
      else None)"

fun is_bool_flag :: "flag_var \<Rightarrow> bool" where
  "is_bool_flag (StringVar _) = False"
| "is_bool_flag (BoolVar _) = True"
| "is_bool_flag (LibraryVar b _) = b"

text \<open>\<open>Value.Set\<close>: None when the value is refused.\<close>

fun set_flag :: "flag_var \<Rightarrow> string \<Rightarrow> Flags \<Rightarrow> Flags option" where
  "set_flag (StringVar upd) s f = Some (upd s f)"
| "set_flag (BoolVar upd) s f = map_option (\<lambda>b. upd b f) (ParseBool s)"
| "set_flag (LibraryVar _ ok) s f = (if ok s then Some f else None)"

text \<open>The value after the first \<open>=\<close> of an argument, which cannot be its first character.\<close>

fun split_value :: "string \<Rightarrow> string \<times> string option" where
  "split_value [] = ([], None)"
| "split_value (c # cs) =
     (let n = takeWhile (\<lambda>d. d \<noteq> CHR ''='') cs
      in (c # n, if length n < length cs then Some (drop (Suc (length n)) cs) else None))"

text \<open>
  The loop of \<open>FlagSet.Parse\<close> over \<open>parseOne\<close>. The command line exits on errors: \<open>Inl\<close> is the exit
  code, 0 after \<open>-help\<close> and 2 after an error. Parsing stops at the first argument that is not a
  flag; \<open>main\<close> ignores what follows.
\<close>

fun parse_flags :: "library_flags \<Rightarrow> string list \<Rightarrow> Flags \<Rightarrow> nat + Flags" where
  "parse_flags lib [] f = Inr f"
| "parse_flags lib (s # args) f =
     (if length s < 2 \<or> s ! 0 \<noteq> CHR ''-'' then Inr f
      else if s = ''--'' then Inr f
      else
        let name = drop (if s ! 1 = CHR ''-'' then 2 else 1) s in
        if name = [] \<or> hd name = CHR ''-'' \<or> hd name = CHR ''='' then Inl 2
        else
          let (name, val) = split_value name in
          (case formal lib name of
             None \<Rightarrow> Inl (if name = ''help'' \<or> name = ''h'' then 0 else 2)
           | Some v \<Rightarrow>
               if is_bool_flag v then
                 (case set_flag v (case val of Some x \<Rightarrow> x | None \<Rightarrow> ''true'') f of
                    None \<Rightarrow> Inl 2
                  | Some f' \<Rightarrow> parse_flags lib args f')
               else
                 (case val of
                    Some x \<Rightarrow>
                      (case set_flag v x f of None \<Rightarrow> Inl 2 | Some f' \<Rightarrow> parse_flags lib args f')
                  | None \<Rightarrow>
                      (case args of
                         [] \<Rightarrow> Inl 2
                       | x # args' \<Rightarrow>
                           (case set_flag v x f of None \<Rightarrow> Inl 2 | Some f' \<Rightarrow> parse_flags lib args' f')))))"

definition Parse :: "library_flags \<Rightarrow> string list \<Rightarrow> nat + Flags" where
  "Parse lib args = parse_flags lib args default_flags"

section \<open>Writing a configuration as arguments\<close>

definition show_bool :: "bool \<Rightarrow> string" where
  "show_bool b = (if b then ''true'' else ''false'')"

lemma ParseBool_show_bool [simp]: "ParseBool (show_bool b) = Some b"
  by (simp add: ParseBool_def show_bool_def)

definition arg :: "string \<Rightarrow> string \<Rightarrow> string" where
  "arg name val = ''--'' @ name @ ''='' @ val"

definition render_flags :: "Flags \<Rightarrow> string list" where
  "render_flags f =
     [arg ''metrics-bind-address'' (metricsAddr f),
      arg ''health-probe-bind-address'' (probeAddr f),
      arg ''leader-elect'' (show_bool (enableLeaderElection f)),
      arg ''metrics-secure'' (show_bool (secureMetrics f)),
      arg ''webhook-cert-path'' (webhookCertPath f),
      arg ''webhook-cert-name'' (webhookCertName f),
      arg ''webhook-cert-key'' (webhookCertKey f),
      arg ''metrics-cert-path'' (metricsCertPath f),
      arg ''metrics-cert-name'' (metricsCertName f),
      arg ''metrics-cert-key'' (metricsCertKey f),
      arg ''enable-http2'' (show_bool (enableHTTP2 f))]"

text \<open>A name as flags have it: it does not begin with \<open>-\<close> and has no \<open>=\<close>.\<close>

definition flag_name :: "string \<Rightarrow> bool" where
  "flag_name name \<longleftrightarrow> name \<noteq> [] \<and> hd name \<noteq> CHR ''-'' \<and> CHR ''='' \<notin> set name"

lemma takeWhile_upto: "c \<notin> set xs \<Longrightarrow> takeWhile (\<lambda>d. d \<noteq> c) (xs @ c # ys) = xs"
  by (induction xs) auto

lemma split_value_arg:
  "flag_name name \<Longrightarrow> split_value (name @ ''='' @ v) = (name, Some v)"
  by (cases name) (simp_all add: flag_name_def takeWhile_upto)

text \<open>An argument with a value of its own sets its flag to that value, whatever characters it has.\<close>

lemma parse_arg:
  assumes n: "flag_name name" and v: "formal lib name = Some var" and s: "set_flag var x f = Some f'"
  shows "parse_flags lib (arg name x # args) f = parse_flags lib args f'"
proof -
  have "name @ ''='' @ x \<noteq> []" "hd (name @ ''='' @ x) \<noteq> CHR ''-''" "hd (name @ ''='' @ x) \<noteq> CHR ''=''"
    using n by (cases name; auto simp: flag_name_def)+
  moreover have "arg name x \<noteq> ''--''" "drop 2 (arg name x) = name @ ''='' @ x" "arg name x ! 1 = CHR ''-''"
    "arg name x ! 0 = CHR ''-''" "\<not> length (arg name x) < 2"
    by (simp_all add: arg_def)
  ultimately show ?thesis
    by (simp add: split_value_arg [OF n, simplified] v s del: append_is_Nil_conv hd_append)
qed


section \<open>Reading the configuration back\<close>

lemma formal_main: "map_of main_flags name = Some v \<Longrightarrow> formal lib name = Some v"
  by (simp add: formal_def)

text \<open>
  C39: every configuration can be given on the command line, and is read as it was meant: \<open>flag.Parse\<close>
  of the arguments \<open>--name=value\<close> for the eleven flags of \<open>main\<close>, whatever the strings hold
  (\<open>=\<close>, \<open>-\<close>, nothing at all) and whatever flags libraries have added, ends with exactly that
  configuration; arguments after a \<open>--\<close> do not change it.
\<close>

theorem flags_round_trip:
  "Parse lib (render_flags f) = Inr f \<and> Parse lib (render_flags f @ ''--'' # rest) = Inr f"
proof -
  have stop: "parse_flags lib (''--'' # rest) g = Inr g" for g by simp
  have "parse_flags lib (render_flags f @ args) g = parse_flags lib args f" for args g
    unfolding render_flags_def append.simps
    by (subst parse_arg, (simp add: flag_name_def; fail), (rule formal_main, simp add: main_flags_def; fail),
        (simp; fail))+ (cases f; cases g; simp)
  from this [of "[]"] this [of "''--'' # rest"] show ?thesis
    by (simp add: Parse_def stop del: parse_flags.simps(2))
qed

end
