(* ===== verification/SchemeReg.thy ===== *)
theory SchemeReg
  imports Prelude
begin

text \<open>
  The scheme registration of \<open>api/v1alpha1/groupversion_info.go\<close> and of the \<open>init\<close> functions of
  \<open>hotswappolicy_types.go\<close> and \<open>cmd/main.go\<close>. The scheme and the scheme builder of
  \<open>k8s.io/apimachinery\<close> are parameters, with what their documentation says as named laws.
\<close>

section \<open>The library\<close>

record GroupVersion =
  Group :: string
  Version :: string

text \<open>The Go types the package registers.\<close>

datatype GoType = HotSwapPolicyType | HotSwapPolicyListType

text \<open>A registration function changes the scheme it is given and may return an error.\<close>

type_synonym 's registration = "'s \<Rightarrow> 's \<times> string option"

record ('s, 'b) SchemeLib =
  NewScheme :: 's
  AddToGroupVersion :: "GroupVersion \<Rightarrow> 's \<Rightarrow> 's"
  AddKnownTypes :: "GroupVersion \<Rightarrow> GoType list \<Rightarrow> 's \<Rightarrow> 's"
  NewSchemeBuilder :: "'s registration list \<Rightarrow> 'b"
  Register :: "'b \<Rightarrow> 's registration list \<Rightarrow> 'b"
  BuilderAddToScheme :: "'b \<Rightarrow> 's registration"
  ClientGoAddToScheme :: "'s registration"

section \<open>Package \<open>v1alpha1\<close>\<close>

definition SchemeGroupVersion :: GroupVersion where
  "SchemeGroupVersion = \<lparr>Group = ''hotswap.io'', Version = ''v1alpha1''\<rparr>"

definition GroupVersion_alias :: GroupVersion where
  "GroupVersion_alias = SchemeGroupVersion"

text \<open>The initial value of the variable \<open>SchemeBuilder\<close>.\<close>

definition SchemeBuilder :: "('s, 'b) SchemeLib \<Rightarrow> 'b" where
  "SchemeBuilder lib =
     NewSchemeBuilder lib [\<lambda>scheme. (AddToGroupVersion lib SchemeGroupVersion scheme, None)]"

text \<open>\<open>init\<close> of \<open>hotswappolicy_types.go\<close>: the new value of the variable.\<close>

definition init_types :: "('s, 'b) SchemeLib \<Rightarrow> 'b \<Rightarrow> 'b" where
  "init_types lib builder =
     Register lib builder
       [\<lambda>s. (AddKnownTypes lib SchemeGroupVersion [HotSwapPolicyType, HotSwapPolicyListType] s, None)]"

text \<open>
  \<open>AddToScheme = SchemeBuilder.AddToScheme\<close>: a method value bound to the address of the variable,
  so a call runs the functions that are registered by then.
\<close>

definition AddToScheme :: "('s, 'b) SchemeLib \<Rightarrow> 'b \<Rightarrow> 's registration" where
  "AddToScheme lib builder = BuilderAddToScheme lib builder"

section \<open>\<open>init\<close> of \<open>cmd/main.go\<close>\<close>

text \<open>
  Imported packages are initialised first: their variables, then their \<open>init\<close>. Then main's
  variable \<open>scheme\<close> and main's \<open>init\<close>, which panics (\<open>utilruntime.Must\<close>) on an error.
\<close>

definition init_main :: "('s, 'b) SchemeLib \<Rightarrow> string + 's" where
  "init_main lib =
     (let builder = init_types lib (SchemeBuilder lib);
          (s, e) = ClientGoAddToScheme lib (NewScheme lib)
      in case e of
           Some msg \<Rightarrow> Inl msg
         | None \<Rightarrow>
             (let (s, e) = AddToScheme lib builder s
              in case e of Some msg \<Rightarrow> Inl msg | None \<Rightarrow> Inr s))"

section \<open>Laws\<close>

text \<open>Registration functions run in order until one fails.\<close>

fun run_registrations :: "'s registration list \<Rightarrow> 's registration" where
  "run_registrations [] s = (s, None)"
| "run_registrations (f # fs) s =
     (case f s of (s', Some e) \<Rightarrow> (s', Some e) | (s', None) \<Rightarrow> run_registrations fs s')"

text \<open>
  \<open>knows s gv t\<close>: the scheme \<open>s\<close> maps the Go type \<open>t\<close> to its kind in \<open>gv\<close>. A builder is the list
  of its functions; types become known by \<open>AddKnownTypes\<close> and stay known.
\<close>

definition scheme_laws :: "('s, 'b) SchemeLib \<Rightarrow> ('s \<Rightarrow> GroupVersion \<Rightarrow> GoType \<Rightarrow> bool) \<Rightarrow> bool" where
  "scheme_laws lib knows \<longleftrightarrow>
     (\<forall>fs gs s. BuilderAddToScheme lib (Register lib (NewSchemeBuilder lib fs) gs) s =
        run_registrations (fs @ gs) s) \<and>
     (\<forall>gv ts s gv' t. knows (AddKnownTypes lib gv ts s) gv' t \<longleftrightarrow>
        (gv' = gv \<and> t \<in> set ts) \<or> knows s gv' t)"

text \<open>The package's own registration cannot fail, and makes both types known.\<close>

lemma init_main_known:
  assumes "scheme_laws lib knows"
  shows "init_main lib =
      (case ClientGoAddToScheme lib (NewScheme lib) of
         (s, Some e) \<Rightarrow> Inl e
       | (s, None) \<Rightarrow> Inr (AddKnownTypes lib SchemeGroupVersion [HotSwapPolicyType, HotSwapPolicyListType]
           (AddToGroupVersion lib SchemeGroupVersion s)))"
    and "init_main lib = Inr s \<Longrightarrow> knows s SchemeGroupVersion t"
proof -
  have run: "BuilderAddToScheme lib (Register lib (NewSchemeBuilder lib fs) gs) s = run_registrations (fs @ gs) s"
    for fs gs s
    using assms by (simp add: scheme_laws_def)
  show eq: "init_main lib =
      (case ClientGoAddToScheme lib (NewScheme lib) of
         (s, Some e) \<Rightarrow> Inl e
       | (s, None) \<Rightarrow> Inr (AddKnownTypes lib SchemeGroupVersion [HotSwapPolicyType, HotSwapPolicyListType]
           (AddToGroupVersion lib SchemeGroupVersion s)))"
    by (simp add: init_main_def init_types_def SchemeBuilder_def AddToScheme_def run split: prod.split option.split)
  show "knows s SchemeGroupVersion t" if "init_main lib = Inr s"
    using assms that by (cases t) (auto simp: eq scheme_laws_def split: prod.splits option.splits)
qed

end
