(* ===== verification/HttpClient.thy ===== *)
theory HttpClient
  imports Checker
begin

text \<open>
  The client \<open>NewHTTPChecker\<close> of \<open>internal/prober/checker.go\<close> builds, and what \<open>Client.Do\<close> of
  Go's \<open>net/http\<close> makes of it: which requests go out for one check and which answer counts. The
  network itself is a parameter, as is the request a \<open>Location\<close> header leads to.
\<close>

section \<open>The client\<close>

datatype redirect_policy = FollowRedirects | UseLastResponse

record HTTPClient =
  InsecureSkipVerify :: bool
  DisableKeepAlives :: bool
  CheckRedirect :: redirect_policy
  ClientTimeout :: Duration

definition NewHTTPChecker :: HTTPClient where
  "NewHTTPChecker =
     \<lparr>InsecureSkipVerify = True, DisableKeepAlives = True, CheckRedirect = UseLastResponse, ClientTimeout = 0\<rparr>"

record Response =
  rs_Status :: int
  rs_Location :: string

text \<open>
  \<open>RoundTrip\<close>: one exchange with the options of the transport, None on any error (a refused
  connection, an expired timeout, a certificate that is checked and not accepted). \<open>Redirected\<close>:
  the request to the resolved \<open>Location\<close>, None if the header does not parse.
\<close>

record Network =
  RequestOk :: "string \<Rightarrow> bool"
  RoundTrip :: "HTTPClient \<Rightarrow> HTTPRequest \<Rightarrow> Response option"
  Redirected :: "HTTPRequest \<Rightarrow> string \<Rightarrow> HTTPRequest option"

definition redirect_status :: "int \<Rightarrow> bool" where
  "redirect_status s \<longleftrightarrow> s \<in> set [301, 302, 303, 307, 308]"

text \<open>
  The loop of \<open>Client.do\<close> for a request without body: the status it returns, and the requests
  it sent. \<open>hops\<close> are the redirects the default policy still follows.
\<close>

fun client_do :: "HTTPClient \<Rightarrow> Network \<Rightarrow> nat \<Rightarrow> HTTPRequest \<Rightarrow> int option \<times> HTTPRequest list" where
  "client_do c net hops req =
     (case RoundTrip net c req of
        None \<Rightarrow> (None, [req])
      | Some resp \<Rightarrow>
          if \<not> redirect_status (rs_Status resp) then (Some (rs_Status resp), [req])
          else if rs_Location resp = '''' then (Some (rs_Status resp), [req])
          else
            (case Redirected net req (rs_Location resp) of
               None \<Rightarrow> (None, [req])
             | Some req' \<Rightarrow>
                 (case CheckRedirect c of
                    UseLastResponse \<Rightarrow> (Some (rs_Status resp), [req])
                  | FollowRedirects \<Rightarrow>
                      (case hops of
                         0 \<Rightarrow> (None, [req])
                       | Suc n \<Rightarrow> (let (r, sent) = client_do c net n req' in (r, req # sent))))))"

declare client_do.simps [simp del]

text \<open>The client as the \<open>HTTPNet\<close> that \<open>HTTPProbe\<close> is defined over.\<close>

definition client_net :: "HTTPClient \<Rightarrow> Network \<Rightarrow> HTTPNet" where
  "client_net c net = \<lparr>url_ok = RequestOk net, Do = \<lambda>req. fst (client_do c net 9 req)\<rparr>"

section \<open>One check, one request\<close>

lemma client_do_last:
  "CheckRedirect c = UseLastResponse \<Longrightarrow>
   client_do c net hops req =
     (case RoundTrip net c req of
        None \<Rightarrow> None
      | Some resp \<Rightarrow>
          if redirect_status (rs_Status resp) \<and> rs_Location resp \<noteq> '''' \<and>
             Redirected net req (rs_Location resp) = None
          then None else Some (rs_Status resp), [req])"
  by (simp add: client_do.simps split: option.split)

definition probe_request :: "string range_order \<Rightarrow> string \<Rightarrow> ProbeConfig \<Rightarrow> HTTPRequest" where
  "probe_request ord ip cfg =
     \<lparr>rq_URL = probe_url ip cfg, rq_Timeout = probe_timeout cfg, rq_Headers = request_headers ord (Headers cfg)\<rparr>"

text \<open>
  C38: what the checker of \<open>NewHTTPChecker\<close> takes as healthy. It sends exactly one request, never
  follows a redirect, does not verify the pod's certificate, and reports the pod healthy exactly
  if that request is answered with a status from 200 to 399; a redirect (301, 302, 303, 307,
  308) with a \<open>Location\<close> header also needs that header to parse, since Go's client resolves it
  before asking whether to follow.
\<close>

theorem probe_sends_one_request:
  "InsecureSkipVerify NewHTTPChecker \<and>
   snd (client_do NewHTTPChecker net hops (probe_request ord ip cfg)) = [probe_request ord ip cfg] \<and>
   (HTTPProbe (client_net NewHTTPChecker net) ord ip cfg \<longleftrightarrow>
      ip \<noteq> '''' \<and> RequestOk net (probe_url ip cfg) \<and>
      (\<exists>resp. RoundTrip net NewHTTPChecker (probe_request ord ip cfg) = Some resp \<and>
         200 \<le> rs_Status resp \<and> rs_Status resp < 400 \<and>
         \<not> (redirect_status (rs_Status resp) \<and> rs_Location resp \<noteq> '''' \<and>
            Redirected net (probe_request ord ip cfg) (rs_Location resp) = None)))"
proof -
  have last: "CheckRedirect NewHTTPChecker = UseLastResponse" by (simp add: NewHTTPChecker_def)
  moreover have "InsecureSkipVerify NewHTTPChecker" by (simp add: NewHTTPChecker_def)
  ultimately show ?thesis
    by (auto simp: HTTPProbe_def Let_def client_net_def client_do_last [OF last] probe_request_def
        split: option.split if_split)
qed

end
