(* ===== verification/EntryPoint.thy ===== *)
theory EntryPoint
  imports Flags SchemeReg HttpClient Wiring Manager
begin

text \<open>
  \<open>cmd/main.go\<close>: from the command line to the running manager. The options of the servers and
  of the manager are functions of the flags; the calls into controller-runtime are a sequence
  in which the first failure ends the process. How a call answers is a parameter that may
  depend on all calls before it.
\<close>

section \<open>TLS\<close>

text \<open>Of \<open>tls.Config\<close> the program sets one field.\<close>

record TLSConfig =
  NextProtos :: "string list"

definition disableHTTP2 :: "'a TLSConfig_scheme \<Rightarrow> 'a TLSConfig_scheme" where
  "disableHTTP2 c = c\<lparr>NextProtos := [''http/1.1'']\<rparr>"

definition tlsOpts :: "Flags \<Rightarrow> (TLSConfig \<Rightarrow> TLSConfig) list" where
  "tlsOpts f = (if \<not> enableHTTP2 f then [] @ [disableHTTP2] else [])"

section \<open>Options of the servers and of the manager\<close>

record WebhookOptions =
  wo_TLSOpts :: "(TLSConfig \<Rightarrow> TLSConfig) list"
  wo_CertDir :: string
  wo_CertName :: string
  wo_KeyName :: string

definition webhookServerOptions :: "Flags \<Rightarrow> WebhookOptions" where
  "webhookServerOptions f =
     (let o1 = \<lparr>wo_TLSOpts = tlsOpts f, wo_CertDir = '''', wo_CertName = '''', wo_KeyName = ''''\<rparr>
      in if length (webhookCertPath f) > 0
         then o1\<lparr>wo_CertDir := webhookCertPath f, wo_CertName := webhookCertName f, wo_KeyName := webhookCertKey f\<rparr>
         else o1)"

datatype filter_provider = WithAuthenticationAndAuthorization

record MetricsServerOptions =
  mo_BindAddress :: string
  mo_SecureServing :: bool
  mo_TLSOpts :: "(TLSConfig \<Rightarrow> TLSConfig) list"
  mo_FilterProvider :: "filter_provider option"
  mo_CertDir :: string
  mo_CertName :: string
  mo_KeyName :: string

definition metricsServerOptions :: "Flags \<Rightarrow> MetricsServerOptions" where
  "metricsServerOptions f =
     (let o1 = \<lparr>mo_BindAddress = metricsAddr f, mo_SecureServing = secureMetrics f, mo_TLSOpts = tlsOpts f,
                mo_FilterProvider = None, mo_CertDir = '''', mo_CertName = '''', mo_KeyName = ''''\<rparr>;
          o2 = (if secureMetrics f then o1\<lparr>mo_FilterProvider := Some WithAuthenticationAndAuthorization\<rparr> else o1)
      in if length (metricsCertPath f) > 0
         then o2\<lparr>mo_CertDir := metricsCertPath f, mo_CertName := metricsCertName f, mo_KeyName := metricsCertKey f\<rparr>
         else o2)"

record 's ManagerOptions =
  op_Scheme :: 's
  op_Metrics :: MetricsServerOptions
  op_WebhookServer :: WebhookOptions
  op_HealthProbeBindAddress :: string
  op_LeaderElection :: bool
  op_LeaderElectionID :: string

definition managerOptions :: "'s \<Rightarrow> Flags \<Rightarrow> 's ManagerOptions" where
  "managerOptions scheme f =
     \<lparr>op_Scheme = scheme, op_Metrics = metricsServerOptions f, op_WebhookServer = webhookServerOptions f,
      op_HealthProbeBindAddress = probeAddr f, op_LeaderElection = enableLeaderElection f,
      op_LeaderElectionID = ''hotswap-operator.hotswap.io''\<rparr>"

section \<open>The prober and the reconciler \<open>main\<close> builds\<close>

text \<open>\<open>Manager.NeedLeaderElection\<close> of \<open>prober.go\<close>.\<close>

definition NeedLeaderElection :: bool where
  "NeedLeaderElection = True"

record ProberRunnable =
  pr_Checker :: HTTPClient
  pr_Store :: Manager
  pr_LeaderOnly :: bool

definition proberMgr :: ProberRunnable where
  "proberMgr = \<lparr>pr_Checker = NewHTTPChecker, pr_Store = NewManager, pr_LeaderOnly = NeedLeaderElection\<rparr>"

text \<open>What comes from outside: the manager's client, the prober's operations, the clock.\<close>

record ('w, 'p) Outside =
  mgr_Client :: "'w Client"
  prober_ops :: "'p ProbeSource"
  RealClock :: "'w \<Rightarrow> gotime \<times> 'w"
  helper_lib :: K8sLib

definition main_reconciler :: "('w, 'p) Outside \<Rightarrow> ('w, 'p) SetupFields" where
  "main_reconciler e =
     \<lparr>sf_Client = mgr_Client e, sf_Prober = prober_ops e, sf_Clock = Some (RealClock e),
      sf_Recorder = Some ''hotswap'', sf_lib = helper_lib e\<rparr>"

section \<open>\<open>main\<close>\<close>

datatype ('s, 'w, 'p) startup_call =
    GetConfigOrDie
  | CallNewManager "'s ManagerOptions"
  | AddRunnable ProberRunnable
  | CompleteController "('w, 'p) Controller"
  | AddHealthzCheck string
  | AddReadyzCheck string
  | StartManager

definition startup_calls :: "('w, 'p) Outside \<Rightarrow> 's \<Rightarrow> Flags \<Rightarrow> ('s, 'w, 'p) startup_call list" where
  "startup_calls e scheme f =
     [GetConfigOrDie, CallNewManager (managerOptions scheme f), AddRunnable proberMgr,
      CompleteController (SetupWithManager (RealClock e) (main_reconciler e)),
      AddHealthzCheck ''healthz'', AddReadyzCheck ''readyz'', StartManager]"

datatype outcome = Exited nat | Panicked string

text \<open>
  Each call is followed by \<open>if err != nil { log; os.Exit(1) }\<close>; \<open>fails\<close> tells from the calls
  already made whether the next one fails. \<open>main\<close> returns when \<open>Start\<close> does, after a signal.
\<close>

fun run_calls :: "('c list \<Rightarrow> 'c \<Rightarrow> bool) \<Rightarrow> 'c list \<Rightarrow> 'c list \<Rightarrow> outcome \<times> 'c list" where
  "run_calls fails done [] = (Exited 0, done)"
| "run_calls fails done (c # cs) =
     (if fails done c then (Exited 1, done @ [c]) else run_calls fails (done @ [c]) cs)"

definition main ::
  "('s, 'b) SchemeLib \<Rightarrow> library_flags \<Rightarrow> ('w, 'p) Outside \<Rightarrow>
   (('s, 'w, 'p) startup_call list \<Rightarrow> ('s, 'w, 'p) startup_call \<Rightarrow> bool) \<Rightarrow> string list \<Rightarrow>
   outcome \<times> ('s, 'w, 'p) startup_call list" where
  "main lib flags e fails args =
     (case init_main lib of
        Inl msg \<Rightarrow> (Panicked msg, [])
      | Inr scheme \<Rightarrow>
          (case Parse flags args of
             Inl code \<Rightarrow> (Exited code, [])
           | Inr f \<Rightarrow> run_calls fails [] (startup_calls e scheme f)))"

section \<open>Runs of calls\<close>

text \<open>
  The calls made are the planned ones up to the first that fails: with \<open>k\<close> the number of planned
  calls that were made and succeeded.
\<close>

lemma run_calls_prefix:
  assumes "run_calls fails done cs = (out, made)"
  shows "\<exists>k \<le> length cs.
    (\<forall>i<k. \<not> fails (done @ take i cs) (cs ! i)) \<and>
    (if k < length cs then fails (done @ take k cs) (cs ! k) \<and> out = Exited 1 \<and> made = done @ take (Suc k) cs
     else out = Exited 0 \<and> made = done @ cs)"
  using assms
proof (induction cs arbitrary: "done")
  case (Cons c cs)
  show ?case
  proof (cases "fails done c")
    case True
    with Cons.prems show ?thesis by (intro exI [of _ 0]) auto
  next
    case False
    with Cons.prems have "run_calls fails (done @ [c]) cs = (out, made)" by simp
    from Cons.IH [OF this] obtain k where k: "k \<le> length cs"
      "\<forall>i<k. \<not> fails ((done @ [c]) @ take i cs) (cs ! i)"
      "if k < length cs then fails ((done @ [c]) @ take k cs) (cs ! k) \<and> out = Exited 1 \<and>
          made = (done @ [c]) @ take (Suc k) cs
       else out = Exited 0 \<and> made = (done @ [c]) @ cs" by blast
    have "\<not> fails (done @ take i (c # cs)) ((c # cs) ! i)" if "i < Suc k" for i
      using that False k(2) by (cases i) auto
    then show ?thesis using k(1,3) by (intro exI [of _ "Suc k"]) auto
  qed
qed simp

end
