(* ===== verification/EntryPointProps.thy ===== *)
theory EntryPointProps
  imports EntryPoint Scenario
begin

text \<open>The start of the process and the options of its servers.\<close>

section \<open>Start-up\<close>

text \<open>The planned calls, run: \<open>Start\<close> comes last, and only after six that succeeded.\<close>

lemma run_startup_calls:
  assumes "run_calls fails [] (startup_calls e scheme f) = (out, made)"
  shows "if StartManager \<in> set made
    then made = startup_calls e scheme f \<and> (\<forall>i<6. \<not> fails (take i made) (made ! i)) \<and>
      out = Exited (if fails (take 6 made) StartManager then 1 else 0)
    else out = Exited 1"
proof -
  let ?cs = "startup_calls e scheme f"
  have len: "length ?cs = 7" and last: "?cs ! 6 = StartManager" by (simp_all add: startup_calls_def)
  have early: "StartManager \<notin> set (take (Suc k) ?cs)" if "k < 6" for k
    using that by (auto simp: startup_calls_def less_Suc_eq numeral_eq_Suc)
  from run_calls_prefix [OF assms] obtain k where k: "k \<le> 7" "\<forall>i<k. \<not> fails (take i ?cs) (?cs ! i)"
    and o: "if k < 7 then fails (take k ?cs) (?cs ! k) \<and> out = Exited 1 \<and> made = take (Suc k) ?cs
            else out = Exited 0 \<and> made = ?cs"
    unfolding len append_Nil by blast
  consider "k < 6" | "k = 6" | "k = 7" using k(1) by linarith
  then show ?thesis
  proof cases
    case 1
    then show ?thesis using o early by simp
  next
    case 2
    then have "made = ?cs" using o len by simp
    then show ?thesis using 2 k(2) o last by (auto simp: startup_calls_def)
  next
    case 3
    then have "made = ?cs" "out = Exited 0" using o by simp_all
    moreover have "\<not> fails (take 6 ?cs) StartManager" using k(2) [rule_format, of 6] 3 last by simp
    ultimately show ?thesis using 3 k(2) by (auto simp: startup_calls_def)
  qed
qed

text \<open>
  C37: nothing runs before everything is in place. The calls \<open>main\<close> makes are those of
  \<open>startup_calls\<close> in order. If the manager is started, the scheme it was given knows both types of
  \<open>hotswap.io/v1alpha1\<close>, and configuration, manager, prober (for the leader only), controller and
  both health checks were created without an error; the exit code is then 1 exactly if running
  the manager failed. If it is not started, the process ends with a panic or a non-zero code,
  except that asking for help is no error.
\<close>

theorem main_startup:
  assumes "scheme_laws lib knows" and "main lib flags e fails args = (out, made)"
  shows "(StartManager \<in> set made \<longrightarrow>
      (\<exists>scheme f. Parse flags args = Inr f \<and> knows scheme SchemeGroupVersion HotSwapPolicyType \<and>
        knows scheme SchemeGroupVersion HotSwapPolicyListType \<and> made = startup_calls e scheme f \<and>
        (\<forall>i<6. \<not> fails (take i made) (made ! i)) \<and>
        out = Exited (if fails (take 6 made) StartManager then 1 else 0))) \<and>
    (StartManager \<notin> set made \<longrightarrow> out = Exited 0 \<longrightarrow> made = [] \<and> Parse flags args = Inl 0)"
proof (cases "init_main lib")
  case (Inl msg)
  then have "out = Panicked msg" "made = []" using assms(2) by (simp_all add: main_def)
  then show ?thesis by simp
next
  case (Inr scheme)
  show ?thesis
  proof (cases "Parse flags args")
    case (Inl code)
    then have "out = Exited code" "made = []" using assms(2) by (simp_all add: main_def Inr)
    then show ?thesis by (simp add: Inl)
  next
    case P: (Inr f)
    have "run_calls fails [] (startup_calls e scheme f) = (out, made)"
      using assms(2) by (simp add: main_def Inr P)
    from run_startup_calls [OF this] show ?thesis
      using P init_main_known(2) [OF assms(1) Inr] by (auto split: if_splits)
  qed
qed

text \<open>A library whose schemes are sets of known types and whose builders are lists.\<close>

definition exSchemeLib ::
  "((GroupVersion \<times> GoType) set, (GroupVersion \<times> GoType) set registration list) SchemeLib" where
  "exSchemeLib =
     \<lparr>NewScheme = {}, AddToGroupVersion = (\<lambda>gv s. s), AddKnownTypes = (\<lambda>gv ts s. s \<union> Pair gv ` set ts),
      NewSchemeBuilder = (\<lambda>fs. fs), Register = (\<lambda>fs gs. fs @ gs), BuilderAddToScheme = run_registrations,
      ClientGoAddToScheme = (\<lambda>s. (s, None))\<rparr>"

lemma exSchemeLib_laws: "scheme_laws exSchemeLib (\<lambda>s gv t. (gv, t) \<in> s)"
  by (auto simp: scheme_laws_def exSchemeLib_def)

definition exOutside :: "(nat, scheduled) Outside" where
  "exOutside =
     \<lparr>mgr_Client = exClient (exPolicy exSpec) (\<lambda>_. None), prober_ops = managerSource exString ascending,
      RealClock = (\<lambda>w. (exNow, w)), helper_lib = exLib\<rparr>"

theorem main_startup_witness:
  "\<exists>made. main exSchemeLib Map.empty exOutside (\<lambda>_ _. False) [''--leader-elect''] = (Exited 0, made) \<and>
     length made = 7 \<and> StartManager \<in> set made"
proof -
  let ?fails = "\<lambda>_ _. False"
  obtain out made where m: "main exSchemeLib Map.empty exOutside ?fails [''--leader-elect''] = (out, made)"
    by fastforce
  note all = main_startup [OF exSchemeLib_laws m]
  have p: "Parse Map.empty [''--leader-elect''] = Inr (default_flags\<lparr>enableLeaderElection := True\<rparr>)"
    by (simp add: Parse_def formal_def main_flags_def ParseBool_def Let_def)
  have i: "init_main exSchemeLib = Inr {(SchemeGroupVersion, HotSwapPolicyType), (SchemeGroupVersion, HotSwapPolicyListType)}"
    by (auto simp: init_main_def init_types_def SchemeBuilder_def AddToScheme_def exSchemeLib_def)
  have "StartManager \<in> set made" using m by (auto simp: main_def p i startup_calls_def)
  with all obtain s f where "made = startup_calls exOutside s f" "out = Exited 0" by auto
  then show ?thesis using m by (intro exI [of _ made]) (simp add: startup_calls_def)
qed

section \<open>The servers\<close>

text \<open>What the options make of a server's TLS configuration: they are applied in order.\<close>

definition apply_tls :: "(TLSConfig \<Rightarrow> TLSConfig) list \<Rightarrow> TLSConfig \<Rightarrow> TLSConfig" where
  "apply_tls opts c = fold (\<lambda>opt c. opt c) opts c"

text \<open>
  C40: the servers are safe unless the flags say otherwise. Whatever the library starts from, both
  servers offer HTTP/1.1 only unless \<open>--enable-http2\<close> is given; metrics requests are authenticated
  and authorised exactly when the metrics are served over TLS; a certificate directory is passed
  on together with its file names, or none of the three is. Without any argument HTTP/2 is off,
  the metrics endpoint disabled, and no leader elected.
\<close>

theorem servers_safe_by_default:
  "NextProtos (apply_tls (wo_TLSOpts (webhookServerOptions f)) c) =
     (if enableHTTP2 f then NextProtos c else [''http/1.1'']) \<and>
   NextProtos (apply_tls (mo_TLSOpts (metricsServerOptions f)) c) =
     (if enableHTTP2 f then NextProtos c else [''http/1.1'']) \<and>
   (mo_FilterProvider (metricsServerOptions f) = Some WithAuthenticationAndAuthorization
      \<longleftrightarrow> mo_SecureServing (metricsServerOptions f)) \<and>
   (mo_CertDir (metricsServerOptions f), mo_CertName (metricsServerOptions f), mo_KeyName (metricsServerOptions f)) =
     (if metricsCertPath f = '''' then ('''', '''', '''')
      else (metricsCertPath f, metricsCertName f, metricsCertKey f)) \<and>
   (wo_CertDir (webhookServerOptions f), wo_CertName (webhookServerOptions f), wo_KeyName (webhookServerOptions f)) =
     (if webhookCertPath f = '''' then ('''', '''', '''')
      else (webhookCertPath f, webhookCertName f, webhookCertKey f)) \<and>
   (\<exists>g. Parse flags [] = Inr g \<and> \<not> enableHTTP2 g \<and> mo_SecureServing (metricsServerOptions g) \<and>
     mo_BindAddress (metricsServerOptions g) = ''0'' \<and> \<not> op_LeaderElection (managerOptions s g))"
  by (auto simp: webhookServerOptions_def metricsServerOptions_def managerOptions_def tlsOpts_def disableHTTP2_def
      apply_tls_def Let_def Parse_def default_flags_def)

end
