(* ===== verification/Rfc3339.thy ===== *)
theory Rfc3339
  imports GoStd
begin

text \<open>
  Reading back the RFC 3339 stamps of \<open>GoStd\<close>: the calendar date determines the day, the padded
  decimals determine their numbers, so a stamp determines the second it was made in. Stamps
  are what the restart annotation holds and how the API encodes \<open>metav1.Time\<close>.
\<close>

section \<open>Decimals\<close>

text \<open>The number a string of decimal digits denotes.\<close>

definition num_of :: "string \<Rightarrow> int" where
  "num_of s = foldl (\<lambda>n c. 10 * n + (int (of_char c) - 48)) 0 s"

lemma of_char_digit: "n < 10 \<Longrightarrow> (of_char (digit n) :: nat) = 48 + n"
  by (simp add: digit_def of_char_of)

lemma num_of_append_digit: "n < 10 \<Longrightarrow> num_of (s @ [digit n]) = 10 * num_of s + int n"
  by (simp add: num_of_def of_char_digit)

lemma num_of_itoa_nat: "num_of (itoa_nat n) = int n"
proof (induction n rule: itoa_nat.induct)
  case (1 n)
  show ?case
  proof (cases "n < 10")
    case True
    then show ?thesis by (simp add: itoa_nat.simps [of n] num_of_def of_char_digit)
  next
    case False
    then have "num_of (itoa_nat n) = 10 * int (n div 10) + int (n mod 10)"
      using 1 by (simp add: itoa_nat.simps [of n] num_of_append_digit)
    also have "\<dots> = int (10 * (n div 10) + n mod 10)" by (simp only: of_nat_add of_nat_mult of_nat_numeral)
    finally show ?thesis by simp
  qed
qed

lemma length_itoa_nat: "n < 10 ^ w \<Longrightarrow> 0 < w \<Longrightarrow> length (itoa_nat n) \<le> w"
proof (induction w arbitrary: n)
  case (Suc w)
  show ?case
  proof (cases "n < 10")
    case True
    then show ?thesis by (simp add: itoa_nat.simps [of n])
  next
    case False
    with Suc.prems have "0 < w" by (cases w) auto
    moreover have "n div 10 < 10 ^ w" using Suc.prems by (simp add: less_mult_imp_div_less mult.commute)
    ultimately show ?thesis using Suc.IH False by (simp add: itoa_nat.simps [of n])
  qed
qed simp

lemma num_of_zeros: "num_of (replicate k (CHR ''0'') @ s) = num_of s"
  by (induction k) (simp_all add: num_of_def)

lemma num_of_pad: "0 \<le> i \<Longrightarrow> num_of (pad w i) = i"
  by (simp add: pad_def Let_def num_of_zeros itoa_def num_of_itoa_nat)

lemma length_pad:
  assumes "0 \<le> i" "i < 10 ^ w" "0 < w"
  shows "length (pad w i) = w"
proof -
  have "nat i < 10 ^ w" using assms by (simp add: nat_less_iff)
  then show ?thesis using length_itoa_nat assms by (simp add: pad_def Let_def itoa_def)
qed

section \<open>Dates\<close>

text \<open>The days before January 1 of a year, and before a month of a year.\<close>

definition days_before_year :: "int \<Rightarrow> int" where
  "days_before_year y = 365 * (y - 1) + (y - 1) div 4 - (y - 1) div 100 + (y - 1) div 400"

definition day_number :: "int \<times> int \<times> int \<Rightarrow> int" where
  "day_number = (\<lambda>(y, m, md).
     days_before_year y + sum_list (take (nat (m - 1)) (month_lengths (is_leap y))) + md - 1)"

definition valid_date :: "int \<times> int \<times> int \<Rightarrow> bool" where
  "valid_date = (\<lambda>(y, m, md).
     1 \<le> m \<and> m \<le> 12 \<and> 1 \<le> md \<and> md \<le> month_lengths (is_leap y) ! nat (m - 1))"

text \<open>The cycles of \<open>year_of\<close>, with the remainders they leave.\<close>

lemma year_of_split:
  obtains a b c n where
    "year_of d = (400 * a + 100 * b + 4 * c + n + 1, d - (146097 * a + 36524 * b + 1461 * c + 365 * n))"
    "0 \<le> b" "b \<le> 3" "0 \<le> c" "c \<le> 24" "0 \<le> n" "n \<le> 3"
    "146097 * a + 36524 * b + 1461 * c + 365 * n \<le> d"
    "d - (146097 * a + 36524 * b + 1461 * c + 365 * n) < 365 \<or>
     d - (146097 * a + 36524 * b + 1461 * c + 365 * n) = 365 \<and> n = 3 \<and> (c = 24 \<longrightarrow> b = 3)"
proof -
  define a d1 where 1: "a = d div 146097" "d1 = d mod 146097"
  define b where b: "b = min 3 (d1 div 36524)"
  define d2 where 2: "d2 = d1 - b * 36524"
  define c d3 where 3: "c = d2 div 1461" "d3 = d2 mod 1461"
  define n where n: "n = min 3 (d3 div 365)"
  have e1: "d = 146097 * a + d1" "0 \<le> d1" "d1 < 146097" by (simp_all add: 1)
  have "0 \<le> d1 div 36524" using e1 by (simp add: pos_imp_zdiv_nonneg_iff)
  then have e2: "0 \<le> b" "b \<le> 3" "0 \<le> d2" "d2 < 36524 \<or> d2 = 36524 \<and> b = 3"
    using e1 unfolding b 2 min_def by (auto split: if_splits; linarith)+
  have e3: "d2 = 1461 * c + d3" "0 \<le> d3" "d3 < 1461" by (simp_all add: 3)
  then have e4: "0 \<le> c" "c \<le> 24" using e2 by linarith+
  have "0 \<le> d3 div 365" using e3 by (simp add: pos_imp_zdiv_nonneg_iff)
  then have e5: "0 \<le> n" "n \<le> 3" "0 \<le> d3 - 365 * n" "d3 - 365 * n < 365 \<or> d3 = 1460 \<and> n = 3"
    using e3 unfolding n min_def by (auto split: if_splits; linarith)+
  have yd: "d3 - 365 * n = d - (146097 * a + 36524 * b + 1461 * c + 365 * n)"
    using e1(1) e3(1) 2 by linarith
  show thesis
  proof (rule that [of a b c n])
    show "year_of d = (400 * a + 100 * b + 4 * c + n + 1, d - (146097 * a + 36524 * b + 1461 * c + 365 * n))"
      unfolding yd [symmetric] year_of_def Let_def
      unfolding 1 [symmetric] unfolding b [symmetric] unfolding 2 [symmetric] unfolding 3 [symmetric]
      unfolding n [symmetric] by simp
    show "146097 * a + 36524 * b + 1461 * c + 365 * n \<le> d" using yd e5 by simp
    show "d - (146097 * a + 36524 * b + 1461 * c + 365 * n) < 365 \<or>
     d - (146097 * a + 36524 * b + 1461 * c + 365 * n) = 365 \<and> n = 3 \<and> (c = 24 \<longrightarrow> b = 3)"
      unfolding yd [symmetric] using e5 e3 e2 by auto
  qed (use e2 e4 e5 in auto)
qed


lemma leap_cycle:
  assumes "0 \<le> b" "b \<le> 3" "0 \<le> c" "c \<le> (24 :: int)"
  shows "is_leap (400 * a + 100 * b + 4 * c + 3 + 1) \<longleftrightarrow> (c = 24 \<longrightarrow> b = 3)"
proof -
  have top: "k mod m = 0 \<longleftrightarrow> k = m" if "0 < k" "k \<le> m" for k m :: int
    using that by (cases "k = m") (simp_all add: mod_pos_pos_trivial)
  have 1: "400 * a + 100 * b + 4 * c + 3 + 1 = 0 + (100 * a + 25 * b + c + 1) * 4"
    and 2: "400 * a + 100 * b + 4 * c + 3 + 1 = (4 * c + 4) + (4 * a + b) * 100"
    and 3: "400 * a + 100 * b + 4 * c + 3 + 1 = (100 * b + 4 * c + 4) + a * 400" by simp_all
  have "(400 * a + 100 * b + 4 * c + 3 + 1) mod 4 = 0"
    unfolding 1 mod_mult_self1 by simp
  moreover have "(4 * c + 4) mod 100 = 0 \<longleftrightarrow> 4 * c + 4 = 100" by (rule top) (use assms in simp_all)
  then have "(400 * a + 100 * b + 4 * c + 3 + 1) mod 100 = 0 \<longleftrightarrow> c = 24"
    unfolding 2 mod_mult_self1 by linarith
  moreover have "(100 * b + 4 * c + 4) mod 400 = 0 \<longleftrightarrow> 100 * b + 4 * c + 4 = 400"
    by (rule top) (use assms in simp_all)
  then have "(400 * a + 100 * b + 4 * c + 3 + 1) mod 400 = 0 \<longleftrightarrow> c = 24 \<and> b = 3"
    unfolding 3 mod_mult_self1 using assms by linarith
  ultimately show ?thesis by (auto simp: is_leap_def)
qed

lemma days_before_cycle:
  assumes "0 \<le> b" "b \<le> 3" "0 \<le> c" "c \<le> 24" "0 \<le> n" "n \<le> (3 :: int)"
  shows "days_before_year (400 * a + 100 * b + 4 * c + n + 1) = 146097 * a + 36524 * b + 1461 * c + 365 * n"
proof -
  let ?y = "400 * a + 100 * b + 4 * c + n"
  have "?y div 4 = 100 * a + 25 * b + c" using assms by linarith
  moreover have "?y div 100 = 4 * a + b" using assms by linarith
  moreover have "?y div 400 = a" using assms by linarith
  ultimately show ?thesis by (simp add: days_before_year_def)
qed

lemma month_day_inverse:
  assumes "month_day ls m d = (m', md)" and "0 \<le> d" and "d < sum_list ls"
  shows "m \<le> m' \<and> m' < m + int (length ls) \<and> 1 \<le> md \<and> md \<le> ls ! nat (m' - m) \<and>
    sum_list (take (nat (m' - m)) ls) + md - 1 = d"
  using assms
proof (induction ls arbitrary: m d)
  case (Cons l ls)
  show ?case
  proof (cases "d < l")
    case True
    with Cons.prems show ?thesis by auto
  next
    case False
    with Cons.prems have "month_day ls (m + 1) (d - l) = (m', md)" "0 \<le> d - l" "d - l < sum_list ls" by auto
    from Cons.IH [OF this] have ih: "m + 1 \<le> m'" "m' < m + 1 + int (length ls)" "1 \<le> md"
      "md \<le> ls ! nat (m' - (m + 1))" "sum_list (take (nat (m' - (m + 1))) ls) + md - 1 = d - l" by auto
    have "nat (m' - m) = Suc (nat (m' - (m + 1)))" using ih(1) by simp
    then show ?thesis using ih by simp
  qed
qed simp

lemma sum_month_lengths: "sum_list (month_lengths leap) = (if leap then 366 else 365)"
  by (simp add: month_lengths_def)

text \<open>Every day has a valid date, and the date determines the day.\<close>

lemma civil_valid: "valid_date (civil d)" and day_number_civil: "day_number (civil d) = d"
proof -
  obtain a b c n where y: "year_of d = (400 * a + 100 * b + 4 * c + n + 1, d - (146097 * a + 36524 * b + 1461 * c + 365 * n))"
    and r: "0 \<le> b" "b \<le> 3" "0 \<le> c" "c \<le> 24" "0 \<le> n" "n \<le> 3"
    and lo: "146097 * a + 36524 * b + 1461 * c + 365 * n \<le> d"
    and hi: "d - (146097 * a + 36524 * b + 1461 * c + 365 * n) < 365 \<or>
     d - (146097 * a + 36524 * b + 1461 * c + 365 * n) = 365 \<and> n = 3 \<and> (c = 24 \<longrightarrow> b = 3)"
    by (rule year_of_split [of d])
  define yy yd where yy: "yy = 400 * a + 100 * b + 4 * c + n + 1"
    and yd: "yd = d - (146097 * a + 36524 * b + 1461 * c + 365 * n)"
  obtain m md where md: "month_day (month_lengths (is_leap yy)) 1 yd = (m, md)" by fastforce
  have "yd < (if is_leap yy then 366 else 365)"
    using hi leap_cycle [OF r(1-4), of a] unfolding yy yd by auto
  then have ok: "1 \<le> m" "m < 13" "1 \<le> md" "md \<le> month_lengths (is_leap yy) ! nat (m - 1)"
    "sum_list (take (nat (m - 1)) (month_lengths (is_leap yy))) + md - 1 = yd"
    using month_day_inverse [OF md] lo by (auto simp: sum_month_lengths yd) (auto simp: month_lengths_def)
  have c: "civil d = (yy, m, md)"
    using md by (simp add: civil_def y yy yd)
  show "valid_date (civil d)" using ok by (simp add: c valid_date_def)
  show "day_number (civil d) = d"
    using ok(5) days_before_cycle [OF r, of a] by (simp add: c day_number_def yd yy)
qed


lemma civil_range:
  assumes "0 \<le> d" "d < 3652059" "civil d = (y, m, md)"
  shows "1 \<le> y" "y \<le> 9999" "1 \<le> m" "m \<le> 12" "1 \<le> md" "md \<le> 31"
proof -
  obtain a b c n where y: "year_of d = (400 * a + 100 * b + 4 * c + n + 1, d - (146097 * a + 36524 * b + 1461 * c + 365 * n))"
    and r: "0 \<le> b" "b \<le> 3" "0 \<le> c" "c \<le> 24" "0 \<le> n" "n \<le> 3"
    and lo: "146097 * a + 36524 * b + 1461 * c + 365 * n \<le> d"
    and hi: "d - (146097 * a + 36524 * b + 1461 * c + 365 * n) \<le> 365"
    by (rule year_of_split [of d]) fastforce
  have "y = 400 * a + 100 * b + 4 * c + n + 1"
    using assms(3) by (simp add: civil_def y split: prod.splits)
  moreover have "0 \<le> a" using r lo hi assms(1) by linarith
  moreover have "a \<le> 24" using r lo assms(2) by linarith
  ultimately show "1 \<le> y" "y \<le> 9999" using r lo assms(2) by linarith+
  have v: "1 \<le> m" "m \<le> 12" "1 \<le> md" "md \<le> month_lengths (is_leap y) ! nat (m - 1)"
    using civil_valid [of d] by (simp_all add: assms(3) valid_date_def)
  have "\<forall>l \<in> set (month_lengths (is_leap y)). l \<le> 31" by (simp add: month_lengths_def)
  moreover have "nat (m - 1) < length (month_lengths (is_leap y))" using v by (simp add: month_lengths_def)
  ultimately have "month_lengths (is_leap y) ! nat (m - 1) \<le> 31" by (meson nth_mem)
  with v show "1 \<le> m" "m \<le> 12" "1 \<le> md" "md \<le> 31" by simp_all
qed

section \<open>Stamps\<close>

text \<open>The seconds since January 1 of year 1 that a stamp names, by the positions of its fields.\<close>

definition stamp_seconds :: "string \<Rightarrow> int" where
  "stamp_seconds s =
     86400 * day_number (num_of (take 4 s), num_of (take 2 (drop 5 s)), num_of (take 2 (drop 8 s))) +
     3600 * num_of (take 2 (drop 11 s)) + 60 * num_of (take 2 (drop 14 s)) + num_of (take 2 (drop 17 s))"

text \<open>The first instant of the year 10000.\<close>

definition year10000 :: gotime where
  "year10000 = 3652059 * 86400 * 1000000000"

lemma fields_of:
  assumes "length y = 4" "length m = 2" "length d = 2" "length hh = 2" "length mm = 2" "length ss = 2"
  shows "take 4 (y @ ''-'' @ m @ ''-'' @ d @ ''T'' @ hh @ '':'' @ mm @ '':'' @ ss @ ''Z'') = y"
    and "take 2 (drop 5 (y @ ''-'' @ m @ ''-'' @ d @ ''T'' @ hh @ '':'' @ mm @ '':'' @ ss @ ''Z'')) = m"
    and "take 2 (drop 8 (y @ ''-'' @ m @ ''-'' @ d @ ''T'' @ hh @ '':'' @ mm @ '':'' @ ss @ ''Z'')) = d"
    and "take 2 (drop 11 (y @ ''-'' @ m @ ''-'' @ d @ ''T'' @ hh @ '':'' @ mm @ '':'' @ ss @ ''Z'')) = hh"
    and "take 2 (drop 14 (y @ ''-'' @ m @ ''-'' @ d @ ''T'' @ hh @ '':'' @ mm @ '':'' @ ss @ ''Z'')) = mm"
    and "take 2 (drop 17 (y @ ''-'' @ m @ ''-'' @ d @ ''T'' @ hh @ '':'' @ mm @ '':'' @ ss @ ''Z'')) = ss"
  using assms by simp_all

lemma stamp_round_trip:
  assumes "0 \<le> t" "t < year10000"
  shows "stamp_seconds (FormatRFC3339 t) = t div 1000000000" and "length (FormatRFC3339 t) = 20"
proof -
  define s d r where s: "s = t div 1000000000" and d: "d = s div 86400" and r: "r = s mod 86400"
  obtain y m md where c: "civil d = (y, m, md)" by (cases "civil d")
  have "0 \<le> s" "s < 3652059 * 86400" using assms unfolding s year10000_def by linarith+
  then have "0 \<le> d" "d < 3652059" unfolding d by linarith+
  note range = civil_range [OF this c]
  have hundred: "(10 :: int) ^ 2 = 100" by simp
  have r3: "0 \<le> r" "r < 86400" by (simp_all add: r)
  have "0 \<le> r mod 3600" "r mod 3600 < 3600" "0 \<le> r mod 60" "r mod 60 < 60" by simp_all
  then have "0 \<le> r div 3600" "r div 3600 < 100" "0 \<le> r mod 3600 div 60" "r mod 3600 div 60 < 100"
    "0 \<le> r mod 60" "r mod 60 < 100"
    using r3 by linarith+
  then have hms: "0 \<le> r div 3600" "r div 3600 < 10 ^ 2" "0 \<le> r mod 3600 div 60" "r mod 3600 div 60 < 10 ^ 2"
    "0 \<le> r mod 60" "r mod 60 < 10 ^ 2"
    unfolding hundred .
  have F: "FormatRFC3339 t = pad 4 y @ ''-'' @ pad 2 m @ ''-'' @ pad 2 md @ ''T'' @
      pad 2 (r div 3600) @ '':'' @ pad 2 (r mod 3600 div 60) @ '':'' @ pad 2 (r mod 60) @ ''Z''"
    using c unfolding FormatRFC3339_def Let_def s d r by (simp only: prod.case)
  have len: "length (pad 4 y) = 4" "length (pad 2 m) = 2" "length (pad 2 md) = 2" "length (pad 2 (r div 3600)) = 2"
    "length (pad 2 (r mod 3600 div 60)) = 2" "length (pad 2 (r mod 60)) = 2"
  proof -
    have "y < 10 ^ 4" "m < 10 ^ 2" "md < 10 ^ 2" using range by simp_all
    then show "length (pad 4 y) = 4" "length (pad 2 m) = 2" "length (pad 2 md) = 2"
      "length (pad 2 (r div 3600)) = 2" "length (pad 2 (r mod 3600 div 60)) = 2" "length (pad 2 (r mod 60)) = 2"
      using range hms by (simp_all only: length_pad)
  qed
  show "length (FormatRFC3339 t) = 20" by (simp add: F len)
  have "3600 * (r div 3600) + 60 * (r mod 3600 div 60) + r mod 60 = r"
  proof -
    have "r mod 60 = r mod 3600 mod 60" by (simp add: mod_mod_cancel)
    moreover have "60 * (r mod 3600 div 60) + r mod 3600 mod 60 = r mod 3600" by (rule mult_div_mod_eq)
    moreover have "3600 * (r div 3600) + r mod 3600 = r" by (rule mult_div_mod_eq)
    ultimately show ?thesis by (simp only: add.assoc)
  qed
  moreover have "s = 86400 * d + r" by (simp add: d r)
  moreover have n: "num_of (pad 4 y) = y" "num_of (pad 2 m) = m" "num_of (pad 2 md) = md"
    "num_of (pad 2 (r div 3600)) = r div 3600" "num_of (pad 2 (r mod 3600 div 60)) = r mod 3600 div 60"
    "num_of (pad 2 (r mod 60)) = r mod 60"
    using range hms by (simp_all only: num_of_pad)
  moreover have "stamp_seconds (FormatRFC3339 t) =
      86400 * day_number (y, m, md) + 3600 * (r div 3600) + 60 * (r mod 3600 div 60) + r mod 60"
    unfolding stamp_seconds_def F fields_of [OF len] n by (rule refl)
  ultimately show "stamp_seconds (FormatRFC3339 t) = t div 1000000000"
    using day_number_civil [of d] unfolding c s by linarith
qed

text \<open>A stamp has no character that \<open>%q\<close> would escape.\<close>

lemma itoa_nat_chars: "c \<in> set (itoa_nat n) \<Longrightarrow> of_char c \<in> {48..57::nat}"
proof (induction n rule: itoa_nat.induct)
  case (1 n)
  then show ?case
    by (cases "n < 10") (auto simp: itoa_nat.simps [of n] of_char_digit)
qed

lemma pad_chars: "0 \<le> i \<Longrightarrow> c \<in> set (pad w i) \<Longrightarrow> of_char c \<in> {48..57::nat}"
  using itoa_nat_chars by (auto simp: pad_def Let_def itoa_def split: if_splits)

lemma quote_plain:
  assumes "\<forall>c \<in> set s. of_char c \<in> {32..126::nat} - {34, 92}"
  shows "quote s = dquote # s @ [dquote]"
proof -
  have "quote_char c = [c]" if "c \<in> set s" for c
    using assms that by (auto simp: quote_char_def Let_def)
  then have "concat (map quote_char s) = s" by (induction s) simp_all
  then show ?thesis by (simp add: quote_def)
qed

end
