(* ===== verification/MergePatch.thy ===== *)
theory MergePatch
  imports GoStd "HOL-Library.AList" "HOL-Library.Sublist"
begin

text \<open>
  What a JSON merge patch does to a document: the text of a document as it is sent, and the
  application of a patch as RFC 7386 defines it. The API server applies the patch that
  \<open>rolloutRestart\<close> sends with this algorithm.
\<close>

section \<open>Documents\<close>

text \<open>A leaf is any number, boolean or array, which a merge replaces as a whole, by its text.\<close>

datatype json =
    JNull
  | JLeaf string
  | JString string
  | JObject "(string \<times> json) list"

definition json_char :: "char \<Rightarrow> string" where
  "json_char c =
     (let n = of_char c :: nat in
      if n = 34 \<or> n = 92 then [char_of (92::nat), c]
      else if n < 32 then char_of (92::nat) # ''u00'' @ [hexdigit (n div 16), hexdigit (n mod 16)]
      else [c])"

definition json_string :: "string \<Rightarrow> string" where
  "json_string s = dquote # concat (map json_char s) @ [dquote]"

text \<open>The compact text of a document.\<close>

fun render :: "json \<Rightarrow> string" and render_members :: "(string \<times> json) list \<Rightarrow> string" where
  "render JNull = ''null''"
| "render (JLeaf s) = s"
| "render (JString s) = json_string s"
| "render (JObject ms) = [CHR ''{''] @ render_members ms @ [CHR ''}'']"
| "render_members [] = []"
| "render_members [(k, v)] = json_string k @ '':'' @ render v"
| "render_members ((k, v) # m # ms) = json_string k @ '':'' @ render v @ '','' @ render_members (m # ms)"

text \<open>Where Go's \<open>%q\<close> and JSON write the same string literal.\<close>

lemma json_string_quote:
  assumes "\<forall>c \<in> set s. of_char c \<in> {32..126::nat} - {34, 92}"
  shows "json_string s = quote s"
proof -
  have "json_char c = quote_char c" if "c \<in> set s" for c
    using assms that by (auto simp: json_char_def quote_char_def Let_def)
  then have "map json_char s = map quote_char s" by simp
  then show ?thesis by (simp only: json_string_def quote_def)
qed

section \<open>Merging\<close>

fun members :: "json \<Rightarrow> (string \<times> json) list" where
  "members (JObject ms) = ms"
| "members _ = []"

definition member :: "json \<Rightarrow> string \<Rightarrow> json option" where
  "member j k = map_of (members j) k"

fun merge_patch :: "json \<Rightarrow> json \<Rightarrow> json" and merge_members :: "(string \<times> json) list \<Rightarrow> (string \<times> json) list \<Rightarrow> (string \<times> json) list"
  where
  "merge_patch target (JObject patch) = JObject (merge_members (members target) patch)"
| "merge_patch target JNull = JNull"
| "merge_patch target (JLeaf s) = JLeaf s"
| "merge_patch target (JString s) = JString s"
| "merge_members ms [] = ms"
| "merge_members ms ((k, JNull) # patch) = merge_members (AList.delete k ms) patch"
| "merge_members ms ((k, v) # patch) =
     merge_members (AList.update k (merge_patch (case map_of ms k of None \<Rightarrow> JNull | Some t \<Rightarrow> t) v) ms) patch"

text \<open>What a document has at a path of member names.\<close>

fun at_path :: "json \<Rightarrow> string list \<Rightarrow> json option" where
  "at_path j [] = Some j"
| "at_path j (k # ks) = (case member j k of None \<Rightarrow> None | Some v \<Rightarrow> at_path v ks)"

lemma at_path_JNull: "ks \<noteq> [] \<Longrightarrow> at_path JNull ks = None"
  by (cases ks) (simp_all add: member_def)

text \<open>The document with nothing but a value at a path.\<close>

primrec nest :: "string list \<Rightarrow> json \<Rightarrow> json" where
  "nest [] v = v"
| "nest (k # ks) v = JObject [(k, nest ks v)]"

lemma nest_not_null: "nest ks (JString s) \<noteq> JNull"
  by (cases ks) simp_all

lemma member_merge_nest:
  "member (merge_patch target (nest (k # ks) (JString s))) k' =
     (if k' = k
      then Some (merge_patch (case member target k of None \<Rightarrow> JNull | Some t \<Rightarrow> t) (nest ks (JString s)))
      else member target k')"
  using nest_not_null [of ks s]
  by (cases "nest ks (JString s)") (simp_all add: member_def update_conv')

lemma merge_nest_sets: "at_path (merge_patch target (nest ks (JString s))) ks = Some (JString s)"
proof (induction ks arbitrary: target)
  case (Cons k ks)
  then show ?case by (simp only: at_path.simps member_merge_nest) simp
qed simp

lemma merge_nest_keeps:
  "\<not> prefix q ks \<Longrightarrow> \<not> prefix ks q \<Longrightarrow>
   at_path (merge_patch target (nest ks (JString s))) q = at_path target q"
proof (induction ks arbitrary: target q)
  case (Cons k ks)
  then obtain k' q' where q: "q = k' # q'" by (cases q) auto
  show ?case
  proof (cases "k' = k")
    case True
    with Cons.prems have p: "\<not> prefix q' ks" "\<not> prefix ks q'" by (simp_all add: q)
    then have "q' \<noteq> []" by auto
    with Cons.IH [OF p] True show ?thesis
      by (simp only: q at_path.simps member_merge_nest) (simp split: option.split add: at_path_JNull)
  next
    case False
    then show ?thesis by (simp only: q at_path.simps member_merge_nest) simp
  qed
qed simp

end
