(* ===== verification/StampProps.thy ===== *)
theory StampProps
  imports Rfc3339 MergePatch Reconciler Scenario
begin

text \<open>
  The annotation a rollout restart patches into the pod template: the document that is sent, what
  it changes and what its value says.
\<close>

lemma FormatRFC3339_cong: "t div 1000000000 = t' div 1000000000 \<Longrightarrow> FormatRFC3339 t = FormatRFC3339 t'"
  by (simp only: FormatRFC3339_def)

lemma FormatRFC3339_plain:
  assumes "0 \<le> t" "t < year10000" and c: "c \<in> set (FormatRFC3339 t)"
  shows "of_char c \<in> {32..126::nat} - {34, 92}"
proof -
  let ?s = "t div 1000000000"
  obtain y m md where d: "civil (?s div 86400) = (y, m, md)" by (cases "civil (?s div 86400)")
  have "0 \<le> ?s" "?s < 3652059 * 86400" using assms(1,2) unfolding year10000_def by linarith+
  then have "0 \<le> ?s div 86400" "?s div 86400 < 3652059" by linarith+
  note r = civil_range [OF this d]
  define h mi sec where h: "h = ?s mod 86400 div 3600" and mi: "mi = ?s mod 86400 mod 3600 div 60"
    and sec: "sec = ?s mod 86400 mod 60"
  have pos: "0 \<le> h" "0 \<le> mi" "0 \<le> sec" unfolding h mi sec by (simp_all add: pos_imp_zdiv_nonneg_iff)
  have nonneg: "0 \<le> y" "0 \<le> m" "0 \<le> md" using r by linarith+
  have F: "FormatRFC3339 t = pad 4 y @ ''-'' @ pad 2 m @ ''-'' @ pad 2 md @ ''T'' @
      pad 2 h @ '':'' @ pad 2 mi @ '':'' @ pad 2 sec @ ''Z''"
    using d unfolding FormatRFC3339_def Let_def h mi sec by (simp only: prod.case)
  have dig: "of_char c \<in> {48..57::nat} \<Longrightarrow> of_char c \<in> {32..126::nat} - {34, 92}" by auto
  from c consider "\<exists>w i. 0 \<le> i \<and> c \<in> set (pad w i)" | "c \<in> set ''-T:Z''"
    unfolding F using nonneg pos by auto
  then show ?thesis
  proof cases
    case 1
    then show ?thesis using pad_chars dig by blast
  next
    case 2
    then show ?thesis by auto
  qed
qed

lemma quote_stamp:
  assumes "0 \<le> t" "t < year10000"
  shows "quote (FormatRFC3339 t) = dquote # FormatRFC3339 t @ [dquote]"
  using FormatRFC3339_plain [OF assms] by (intro quote_plain) blast

section \<open>Stamps are RFC 3339 date-times\<close>

text \<open>
  The grammar of RFC 3339 for UTC and whole seconds: digits and separators in their places, a
  date of the calendar, a time of the day.
\<close>

definition rfc3339 :: "string \<Rightarrow> bool" where
  "rfc3339 s \<longleftrightarrow>
     list_all2 (\<lambda>p c. if p = CHR ''0'' then of_char c \<in> {48..57::nat} else c = p) ''0000-00-00T00:00:00Z'' s \<and>
     valid_date (num_of (take 4 s), num_of (take 2 (drop 5 s)), num_of (take 2 (drop 8 s))) \<and>
     num_of (take 2 (drop 11 s)) < 24 \<and> num_of (take 2 (drop 14 s)) < 60 \<and> num_of (take 2 (drop 17 s)) < 60"

lemma list_all2_digits:
  assumes "length s = n" and "\<forall>c \<in> set s. of_char c \<in> {48..57::nat}"
  shows "list_all2 (\<lambda>p c. if p = CHR ''0'' then of_char c \<in> {48..57::nat} else c = p) (replicate n CHR ''0'') s"
  using assms by (auto simp: list_all2_conv_all_nth)

lemma shape_append:
  "ps = ps1 @ ps2 \<Longrightarrow> list_all2 P ps1 s1 \<Longrightarrow> list_all2 P ps2 s2 \<Longrightarrow> list_all2 P ps (s1 @ s2)"
  by (simp add: list_all2_appendI)

lemma FormatRFC3339_rfc3339:
  assumes "0 \<le> t" "t < year10000"
  shows "rfc3339 (FormatRFC3339 t)"
proof -
  let ?P = "\<lambda>p c. if p = CHR ''0'' then of_char c \<in> {48..57::nat} else c = p"
  let ?s = "t div 1000000000"
  obtain y m md where d: "civil (?s div 86400) = (y, m, md)" by (cases "civil (?s div 86400)")
  have "0 \<le> ?s" "?s < 3652059 * 86400" using assms unfolding year10000_def by linarith+
  then have "0 \<le> ?s div 86400" "?s div 86400 < 3652059" by linarith+
  note r = civil_range [OF this d]
  define h mi sec where h: "h = ?s mod 86400 div 3600" and mi: "mi = ?s mod 86400 mod 3600 div 60"
    and sec: "sec = ?s mod 86400 mod 60"
  have "0 \<le> ?s mod 86400" "?s mod 86400 < 86400" "0 \<le> ?s mod 86400 mod 3600" "?s mod 86400 mod 3600 < 3600"
    by simp_all
  then have hms: "0 \<le> h" "h < 24" "0 \<le> mi" "mi < 60" "0 \<le> sec" "sec < 60"
    unfolding h mi sec by (simp_all add: pos_imp_zdiv_nonneg_iff)
  have F: "FormatRFC3339 t = pad 4 y @ ''-'' @ pad 2 m @ ''-'' @ pad 2 md @ ''T'' @
      pad 2 h @ '':'' @ pad 2 mi @ '':'' @ pad 2 sec @ ''Z''"
    using d unfolding FormatRFC3339_def Let_def h mi sec by (simp only: prod.case)
  have two: "length (pad 2 i) = 2" "list_all2 ?P ''00'' (pad 2 i)" if "0 \<le> i" "i < 100" for i
  proof -
    show len: "length (pad 2 i) = 2" using that by (intro length_pad) simp_all
    show "list_all2 ?P ''00'' (pad 2 i)"
      using list_all2_digits [OF len] pad_chars [OF that(1)] by (simp add: numeral_2_eq_2)
  qed
  have len4: "length (pad 4 y) = 4" using r by (intro length_pad) simp_all
  have four: "list_all2 ?P ''0000'' (pad 4 y)"
    using list_all2_digits [OF len4] pad_chars [of y] r(1) by (simp add: numeral_eq_Suc)
  have small: "m < 100" "md < 100" "h < 100" "mi < 100" "sec < 100" "0 \<le> m" "0 \<le> md" using r hms by linarith+
  have "list_all2 ?P ''0000-00-00T00:00:00Z'' (FormatRFC3339 t)"
    unfolding F
    by (rule shape_append [OF _ four], simp, rule shape_append [where ?ps1.0 = "''-''"], simp, simp,
        rule shape_append [OF _ two(2)], simp, rule small, rule small,
        rule shape_append [where ?ps1.0 = "''-''"], simp, simp,
        rule shape_append [OF _ two(2)], simp, rule small, rule small,
        rule shape_append [where ?ps1.0 = "''T''"], simp, simp,
        rule shape_append [OF _ two(2)], simp, rule hms, rule small,
        rule shape_append [where ?ps1.0 = "'':''"], simp, simp,
        rule shape_append [OF _ two(2)], simp, rule hms, rule small,
        rule shape_append [where ?ps1.0 = "'':''"], simp, simp,
        rule shape_append [OF _ two(2)], simp, rule hms, rule small, simp)
  moreover have "valid_date (y, m, md)" using civil_valid [of "?s div 86400"] by (simp only: d)
  moreover note fields_of [OF len4 two(1) [OF small(6,1)] two(1) [OF small(7,2)] two(1) [OF hms(1) small(3)]
      two(1) [OF hms(3) small(4)] two(1) [OF hms(5) small(5)]]
  moreover have "num_of (pad 4 y) = y" "num_of (pad 2 m) = m" "num_of (pad 2 md) = md"
    "num_of (pad 2 h) = h" "num_of (pad 2 mi) = mi" "num_of (pad 2 sec) = sec"
    using r hms by (simp_all add: num_of_pad)
  ultimately show ?thesis using hms unfolding rfc3339_def F by simp
qed

section \<open>The patch\<close>

lemma restart_patch_render:
  assumes "0 \<le> t" "t < year10000"
  shows "restart_patch t =
    render (nest [''spec'', ''template'', ''metadata'', ''annotations'', ''hotswap.io/restarted-at'']
      (JString (FormatRFC3339 t)))"
proof -
  have "json_string (FormatRFC3339 t) = quote (FormatRFC3339 t)"
    by (rule json_string_quote) (use FormatRFC3339_plain [OF assms] in blast)
  moreover have "json_string k = quote k"
    if "k \<in> {''spec'', ''template'', ''metadata'', ''annotations'', ''hotswap.io/restarted-at''}" for k
    by (rule json_string_quote) (use that in auto)
  ultimately show ?thesis by (simp add: restart_patch_def restartAnnotation_def)
qed

text \<open>
  C36: what a rollout restart sends. Until the year 10000 it is, byte for byte, the JSON document
  that has a string at \<open>spec.template.metadata.annotations\<close> under \<open>hotswap.io/restarted-at\<close> and
  nothing else; merged into any Deployment as RFC 7386 says, it sets that annotation of the pod
  template and leaves everything beside that path as it was. The string is an RFC 3339 date-time
  of a valid date that names the second of the restart; hence two restarts send the same patch
  exactly if they fall into the same second, and otherwise the pod template changes.
\<close>

theorem restart_stamp_exact:
  assumes "0 \<le> t" "t < year10000" and "0 \<le> t'" "t' < year10000"
    and "path = [''spec'', ''template'', ''metadata'', ''annotations'', ''hotswap.io/restarted-at'']"
  shows "\<exists>stamp.
    rolloutRestart r dep t = Patch r dep (render (nest path (JString stamp))) \<and>
    at_path (merge_patch target (nest path (JString stamp))) path = Some (JString stamp) \<and>
    (\<not> prefix q path \<and> \<not> prefix path q \<longrightarrow>
       at_path (merge_patch target (nest path (JString stamp))) q = at_path target q) \<and>
    rfc3339 stamp \<and> stamp_seconds stamp = t div 1000000000 \<and>
    (restart_patch t = restart_patch t' \<longleftrightarrow> t div 1000000000 = t' div 1000000000)"
proof -
  have "FormatRFC3339 t = FormatRFC3339 t'" if "restart_patch t = restart_patch t'"
  proof -
    have "quote (FormatRFC3339 t) = quote (FormatRFC3339 t')" using that by (simp add: restart_patch_def)
    then show ?thesis by (simp add: quote_stamp assms)
  qed
  moreover have "FormatRFC3339 t = FormatRFC3339 t' \<Longrightarrow> t div 1000000000 = t' div 1000000000"
    using stamp_round_trip(1) [OF assms(1,2)] stamp_round_trip(1) [OF assms(3,4)] by simp
  moreover have "restart_patch t = restart_patch t'" if "t div 1000000000 = t' div 1000000000"
    by (simp only: restart_patch_def FormatRFC3339_cong [OF that])
  moreover have "rolloutRestart r dep t = Patch r dep (render (nest path (JString (FormatRFC3339 t))))"
    by (simp only: rolloutRestart_def restart_patch_render [OF assms(1,2)] assms(5))
  ultimately show ?thesis
    using stamp_round_trip(1) [OF assms(1,2)] FormatRFC3339_rfc3339 [OF assms(1,2)] merge_nest_sets merge_nest_keeps
    by (intro exI [of _ "FormatRFC3339 t"]) blast
qed

text \<open>A Deployment with an annotation of Helm's and a replica count.\<close>

definition exDocument :: json where
  "exDocument = JObject [(''spec'', JObject [(''replicas'', JLeaf ''3''),
     (''template'', JObject [(''metadata'', JObject [(''annotations'', JObject [(''helm'', JString ''v1'')])])])])]"

theorem restart_stamp_exact_witness:
  "\<exists>path stamp. path = [''spec'', ''template'', ''metadata'', ''annotations'', ''hotswap.io/restarted-at''] \<and>
     at_path (merge_patch exDocument (nest path (JString stamp))) path = Some (JString stamp) \<and>
     at_path (merge_patch exDocument (nest path (JString stamp))) [''spec'', ''replicas''] = Some (JLeaf ''3'') \<and>
     rfc3339 stamp \<and> stamp_seconds stamp = 62136596800 \<and> restart_patch exNow \<noteq> restart_patch (exNow + 1000000000)"
proof -
  let ?path = "[''spec'', ''template'', ''metadata'', ''annotations'', ''hotswap.io/restarted-at'']"
  have t: "0 \<le> exNow" "exNow < year10000" "0 \<le> exNow + 1000000000" "exNow + 1000000000 < year10000"
    by (simp_all add: exNow_def Unix_def year10000_def)
  have q: "\<not> prefix [''spec'', ''replicas''] ?path \<and> \<not> prefix ?path [''spec'', ''replicas'']" by simp
  have "at_path exDocument [''spec'', ''replicas''] = Some (JLeaf ''3'')" by (simp add: exDocument_def member_def)
  then show ?thesis
    using restart_stamp_exact [OF t refl, of "exReconciler (exPolicy exSpec) (\<lambda>_. None)" exDep exDocument
        "[''spec'', ''replicas'']"] q
    by (simp add: exNow_def Unix_def) blast
qed

end
