(* ===== verification/Persist.thy ===== *)
theory Persist
  imports Remediation Decision

begin

text \<open>
  Sequences of reconciles. Between two calls the only memory of past remediations is the status
  the API server keeps, and it keeps times as RFC 3339 stamps, in whole seconds. What a server
  has to promise for that memory to work is stated as named laws; a calculus like that of
  \<open>Yields\<close>, for what happens to the stored status, shows how one \<open>Reconcile\<close> moves it.
\<close>

section \<open>The stored status\<close>

text \<open>A time as it comes back from the server: \<open>metav1.Time\<close> is encoded to the second.\<close>

definition stored_time :: "gotime \<Rightarrow> gotime" where
  "stored_time t = t div 1000000000 * 1000000000"

lemma stored_time_bounds: "stored_time t \<le> t" "t < stored_time t + 1000000000"
  using div_mult_mod_eq [of t 1000000000] pos_mod_bound [of 1000000000 t] pos_mod_sign [of 1000000000 t]
  by (simp_all add: stored_time_def; linarith)+

lemma stored_time_mono: "s \<le> t \<Longrightarrow> stored_time s \<le> stored_time t"
  by (simp add: stored_time_def zdiv_mono1)

definition persisted :: "HotSwapPolicyStatus \<Rightarrow> HotSwapPolicyStatus" where
  "persisted st =
     st\<lparr>Targets := map (\<lambda>t. t\<lparr>th_LastProbeTime := map_option stored_time (th_LastProbeTime t),
                               th_LastTransitionTime := map_option stored_time (th_LastTransitionTime t)\<rparr>) (Targets st),
        LastRemediation := map_option (\<lambda>l. l\<lparr>rr_Time := stored_time (rr_Time l)\<rparr>) (LastRemediation st)\<rparr>"

lemma LastRemediation_persisted [simp]:
  "LastRemediation (persisted st) = map_option (\<lambda>l. l\<lparr>rr_Time := stored_time (rr_Time l)\<rparr>) (LastRemediation st)"
  by (simp add: persisted_def)

section \<open>The API server\<close>

text \<open>
  What the server keeps of the policy, through one life of the object: \<open>versions w\<close> are the
  statuses of all its versions, oldest first, \<open>ver k\<close> is the resource version of the \<open>k\<close>-th.
  A version appended with the status of the one before it is an edit of something else.
\<close>

definition appended :: "'s list \<Rightarrow> 's \<Rightarrow> 's list \<Rightarrow> bool" where
  "appended L st L' \<longleftrightarrow> (\<exists>n. L' = L @ replicate n st \<and> (n = 0 \<longrightarrow> last L = st))"

definition grown :: "'s list \<Rightarrow> 's list \<Rightarrow> bool" where
  "grown L L' \<longleftrightarrow> appended L (last L) L'"

lemma grown_iff: "grown L L' \<longleftrightarrow> (\<exists>n. L' = L @ replicate n (last L))"
  by (auto simp: grown_def appended_def)

lemma grown_refl [simp, intro]: "grown L L"
  using replicate_0 by (fastforce simp: grown_iff)

lemma last_replicate_last [simp]: "last (L @ replicate n (last L)) = last L"
  by (cases n) simp_all

lemma grown_trans [trans]: "grown L L' \<Longrightarrow> grown L' L'' \<Longrightarrow> grown L L''"
  unfolding grown_iff by (auto simp: replicate_add [symmetric])

lemma grown_length: "grown L L' \<Longrightarrow> length L \<le> length L'"
  by (auto simp: grown_iff)

lemma grown_nth: "grown L L' \<Longrightarrow> k < length L \<Longrightarrow> L' ! k = L ! k"
  by (auto simp: grown_iff nth_append)

lemma grown_cut: "grown L L' \<Longrightarrow> length L' \<le> length L \<Longrightarrow> L' = L"
  by (auto simp: grown_iff)

text \<open>
  The laws, \<open>clock w\<close> being the time of the world. A read of the policy comes from a cache: it
  returns the status and the resource version of some version, not necessarily the newest, with a
  cooldown of at least \<open>c\<close> in its spec. Concurrency is optimistic: a status whose object carries
  a resource version is stored only if that is the newest one; it is stored if the call succeeds,
  and may be stored or not if it fails. During every call other actors may edit the policy, but
  not its status, and time does not run backwards.
\<close>

definition quiet :: "('w \<Rightarrow> 's list) \<Rightarrow> ('w \<Rightarrow> gotime) \<Rightarrow> ('w \<Rightarrow> 'a \<times> 'w) \<Rightarrow> bool" where
  "quiet versions clock f \<longleftrightarrow>
     (\<forall>w. grown (versions w) (versions (snd (f w))) \<and> clock w \<le> clock (snd (f w)))"

definition cache_read ::
  "('w \<Rightarrow> HotSwapPolicyStatus list) \<Rightarrow> (nat \<Rightarrow> string) \<Rightarrow> int \<Rightarrow> 'w \<Rightarrow> HotSwapPolicy \<Rightarrow> bool" where
  "cache_read versions ver c w p \<longleftrightarrow>
     (\<exists>i < length (versions w). pol_Status p = versions w ! i \<and> pol_ResourceVersion p = ver i) \<and>
     c \<le> cooldown_ns (Remediation (pol_Spec p))"

definition status_write ::
  "('w \<Rightarrow> HotSwapPolicyStatus list) \<Rightarrow> (nat \<Rightarrow> string) \<Rightarrow> ('w \<Rightarrow> gotime) \<Rightarrow> HotSwapPolicy \<Rightarrow> 'w \<Rightarrow>
   api_error option \<Rightarrow> 'w \<Rightarrow> bool" where
  "status_write versions ver clock p w e w' \<longleftrightarrow>
     clock w \<le> clock w' \<and>
     (pol_ResourceVersion p \<noteq> [] \<longrightarrow>
        (e \<noteq> None \<and> grown (versions w) (versions w')) \<or>
        (pol_ResourceVersion p = ver (length (versions w) - 1) \<and>
         appended (versions w) (persisted (pol_Status p)) (versions w')))"

definition status_server ::
  "('w, 'p) HotSwapPolicyReconciler \<Rightarrow> NamespacedName \<Rightarrow> ('w \<Rightarrow> HotSwapPolicyStatus list) \<Rightarrow> (nat \<Rightarrow> string) \<Rightarrow>
   ('w \<Rightarrow> gotime) \<Rightarrow> int \<Rightarrow> bool" where
  "status_server r nn versions ver clock c \<longleftrightarrow>
     inj ver \<and> (\<forall>i. ver i \<noteq> []) \<and>
     quiet versions clock (cl_GetPolicy (r_Client r) nn) \<and>
     (\<forall>w p w'. cl_GetPolicy (r_Client r) nn w = (Inr p, w') \<longrightarrow> cache_read versions ver c w' p) \<and>
     (\<forall>key. quiet versions clock (cl_GetDeployment (r_Client r) key)) \<and>
     (\<forall>ns. quiet versions clock (cl_ListPolicies (r_Client r) ns)) \<and>
     (\<forall>ns sel. quiet versions clock (cl_ListPods (r_Client r) ns sel)) \<and>
     (\<forall>p. quiet versions clock (cl_Update (r_Client r) p)) \<and>
     (\<forall>dep patch. quiet versions clock (cl_PatchDeployment (r_Client r) dep patch)) \<and>
     (\<forall>ns name. quiet versions clock (cl_DeletePod (r_Client r) ns name)) \<and>
     quiet versions clock (r_Now r) \<and>
     (\<forall>w. clock w \<le> fst (r_Now r w) \<and> fst (r_Now r w) \<le> clock (snd (r_Now r w))) \<and>
     (\<forall>p w e w'. cl_StatusUpdate (r_Client r) p w = (e, w') \<longrightarrow> status_write versions ver clock p w e w')"

text \<open>The times of the remediations that the status writes of a trace record.\<close>

fun recorded_time :: "effect \<Rightarrow> gotime option" where
  "recorded_time (StatusUpdate p _) = map_option rr_Time (LastRemediation (pol_Status p))"
| "recorded_time _ = None"

definition recorded_times :: "effect list \<Rightarrow> gotime list" where
  "recorded_times es = List.map_filter recorded_time es"

lemma recorded_times_simps [simp]:
  "recorded_times [] = []"
  "recorded_times (e # es) = (case recorded_time e of None \<Rightarrow> recorded_times es | Some t \<Rightarrow> t # recorded_times es)"
  "recorded_times (es @ es') = recorded_times es @ recorded_times es'"
  by (simp_all add: recorded_times_def map_filter_def split: option.split)

section \<open>A calculus of the world\<close>

text \<open>
  \<open>runs_to P m Q\<close>: from any state whose world satisfies \<open>P\<close>, the result of \<open>m\<close>, the world after
  it and the effects it appends to the trace satisfy \<open>Q\<close>.
\<close>

definition runs_to ::
  "('w \<Rightarrow> bool) \<Rightarrow> ('w, 'p, 'a) action \<Rightarrow> ('a \<Rightarrow> 'w \<Rightarrow> effect list \<Rightarrow> bool) \<Rightarrow> bool" where
  "runs_to P m Q \<longleftrightarrow>
     (\<forall>s. P (world s) \<longrightarrow>
        (case run_state m s of (x, s') \<Rightarrow> \<exists>es. trace s' = trace s @ es \<and> Q x (world s') es))"

lemma runs_toI:
  assumes "\<And>s x s'. P (world s) \<Longrightarrow> run_state m s = (x, s') \<Longrightarrow> \<exists>es. trace s' = trace s @ es \<and> Q x (world s') es"
  shows "runs_to P m Q"
  using assms unfolding runs_to_def by (auto split: prod.split)

lemma runs_toD:
  assumes "runs_to P m Q" and "P (world s)" and "run_state m s = (x, s')"
  obtains es where "trace s' = trace s @ es" and "Q x (world s') es"
  using assms unfolding runs_to_def by fastforce

lemma runs_to_bind:
  assumes "runs_to P m R" and "\<And>x es. runs_to (\<lambda>w. R x w es) (f x) (\<lambda>y w es'. Q y w (es @ es'))"
  shows "runs_to P (State_Monad.bind m f) Q"
proof (rule runs_toI)
  fix s y s'
  assume P: "P (world s)" and run: "run_state (State_Monad.bind m f) s = (y, s')"
  obtain x s1 where m: "run_state m s = (x, s1)" by fastforce
  with run have f: "run_state (f x) s1 = (y, s')" by simp
  obtain es where 1: "trace s1 = trace s @ es" "R x (world s1) es" by (rule runs_toD [OF assms(1) P m])
  obtain es' where "trace s' = trace s1 @ es'" "Q y (world s') (es @ es')"
    by (rule runs_toD [where P = "\<lambda>w. R x w es", OF assms(2) 1(2) f])
  then show "\<exists>es. trace s' = trace s @ es \<and> Q y (world s') es" using 1(1) by auto
qed

lemma runs_to_pre: "runs_to P m Q \<Longrightarrow> (\<And>w. P' w \<Longrightarrow> P w) \<Longrightarrow> runs_to P' m Q"
  by (simp add: runs_to_def)

lemma runs_to_mono: "runs_to P m Q \<Longrightarrow> (\<And>x w es. Q x w es \<Longrightarrow> Q' x w es) \<Longrightarrow> runs_to P m Q'"
  unfolding runs_to_def by (fastforce split: prod.splits)

lemma runs_to_False: "(\<And>w. \<not> P w) \<Longrightarrow> runs_to P m Q"
  by (simp add: runs_to_def)

lemma runs_to_if: "(b \<Longrightarrow> runs_to P m Q) \<Longrightarrow> (\<not> b \<Longrightarrow> runs_to P n Q) \<Longrightarrow> runs_to P (if b then m else n) Q"
  by simp

lemma runs_to_return: "(\<And>w. P w \<Longrightarrow> Q x w []) \<Longrightarrow> runs_to P (State_Monad.return x) Q"
  by (rule runs_toI) auto

lemma runs_to_ask: "(\<And>w. P w \<Longrightarrow> Q (fst (f w)) (snd (f w)) []) \<Longrightarrow> runs_to P (ask f) Q"
  by (rule runs_toI) (auto simp: ask_def split: prod.splits, metis fst_conv snd_conv)

lemma runs_to_emit: "(\<And>w. P w \<Longrightarrow> Q () w [e]) \<Longrightarrow> runs_to P (emit e) Q"
  by (rule runs_toI) (auto simp: emit_def)

lemma runs_to_on_prober: "(\<And>w. P w \<Longrightarrow> Q () w []) \<Longrightarrow> runs_to P (on_prober f) Q"
  by (rule runs_toI) (auto simp: on_prober_def)

lemma runs_to_read_prober: "(\<And>x w. P w \<Longrightarrow> Q x w []) \<Longrightarrow> runs_to P (read_prober f) Q"
  by (rule runs_toI) (auto simp: read_prober_def split: prod.splits)

section \<open>Steady actions\<close>

text \<open>
  They do not write the status, do not turn back the clock, and all their effects are of
  a given kind: \<open>unrecorded\<close> (no write of the status) or \<open>harmless\<close> (nor of the cluster).
\<close>

definition unrecorded :: "effect \<Rightarrow> bool" where "unrecorded e \<longleftrightarrow> recorded_time e = None"
definition harmless :: "effect \<Rightarrow> bool" where "harmless e \<longleftrightarrow> recorded_time e = None \<and> \<not> is_mutation e"

definition steady ::
  "('w \<Rightarrow> 's list) \<Rightarrow> ('w \<Rightarrow> gotime) \<Rightarrow> (effect \<Rightarrow> bool) \<Rightarrow> ('w, 'p, 'a) action \<Rightarrow> bool" where
  "steady versions clock ok m \<longleftrightarrow>
     (\<forall>L t. runs_to (\<lambda>w. grown L (versions w) \<and> t \<le> clock w) m
        (\<lambda>x w es. grown L (versions w) \<and> t \<le> clock w \<and> (\<forall>e \<in> set es. ok e)))"

named_theorems steady_intros \<open>steady actions\<close>

lemma recorded_times_unrecorded: "\<forall>e \<in> set es. unrecorded e \<Longrightarrow> recorded_times es = []"
  by (induction es) (simp_all add: unrecorded_def)

lemma harmless_unrecorded: "\<forall>e \<in> set es. harmless e \<Longrightarrow> \<forall>e \<in> set es. unrecorded e \<and> \<not> is_mutation e"
  by (simp add: harmless_def unrecorded_def)

lemma steadyD: "steady versions clock ok m \<Longrightarrow>
  runs_to (\<lambda>w. grown L (versions w) \<and> t \<le> clock w) m (\<lambda>x w es. grown L (versions w) \<and> t \<le> clock w \<and> (\<forall>e \<in> set es. ok e))"
  by (simp add: steady_def)

lemma steady_return [steady_intros]: "steady versions clock ok (State_Monad.return x)"
  unfolding steady_def by (intro allI runs_to_return) simp

lemma steady_bind [steady_intros]:
  assumes "steady versions clock ok m" and "\<And>x. steady versions clock ok (f x)"
  shows "steady versions clock ok (State_Monad.bind m f)"
  unfolding steady_def
proof (intro allI)
  fix L t
  show "runs_to (\<lambda>w. grown L (versions w) \<and> t \<le> clock w) (State_Monad.bind m f)
      (\<lambda>x w es. grown L (versions w) \<and> t \<le> clock w \<and> (\<forall>e \<in> set es. ok e))"
  proof (rule runs_to_bind [OF steadyD [OF assms(1)]])
    show "runs_to (\<lambda>w. grown L (versions w) \<and> t \<le> clock w \<and> (\<forall>e \<in> set es. ok e)) (f x)
        (\<lambda>y w es'. grown L (versions w) \<and> t \<le> clock w \<and> (\<forall>e \<in> set (es @ es'). ok e))" for x es
    proof (cases "\<forall>e \<in> set es. ok e")
      case True
      then show ?thesis using steadyD [OF assms(2) [of x], of L t] by (simp add: ball_Un)
    next
      case False
      then show ?thesis by (intro runs_to_False) blast
    qed
  qed
qed

text \<open>A steady action before one that ends the call.\<close>

lemma runs_to_steady:
  assumes "steady versions clock ok m"
    and "\<And>x es. \<forall>e \<in> set es. ok e \<Longrightarrow> runs_to (\<lambda>w. grown L (versions w) \<and> t \<le> clock w) (f x) (\<lambda>y w es'. Q y w (es @ es'))"
  shows "runs_to (\<lambda>w. grown L (versions w) \<and> t \<le> clock w) (State_Monad.bind m f) Q"
proof (rule runs_to_bind [OF steadyD [OF assms(1)]])
  show "runs_to (\<lambda>w. grown L (versions w) \<and> t \<le> clock w \<and> (\<forall>e \<in> set es. ok e)) (f x) (\<lambda>y w es'. Q y w (es @ es'))" for x es
  proof (cases "\<forall>e \<in> set es. ok e")
    case True
    then show ?thesis using assms(2) [OF True, of x] by simp
  next
    case False
    then show ?thesis by (intro runs_to_False) blast
  qed
qed

lemma steady_ask [steady_intros]: "quiet versions clock f \<Longrightarrow> steady versions clock ok (ask f)"
  unfolding steady_def quiet_def by (intro allI runs_to_ask) (auto intro: order_trans grown_trans)

lemma steady_emit [steady_intros]: "ok e \<Longrightarrow> steady versions clock ok (emit e)"
  unfolding steady_def by (intro allI runs_to_emit) simp

lemma steady_on_prober [steady_intros]: "steady versions clock ok (on_prober f)"
  unfolding steady_def by (intro allI runs_to_on_prober) simp

lemma steady_read_prober [steady_intros]: "steady versions clock ok (read_prober f)"
  unfolding steady_def by (intro allI runs_to_read_prober) simp

lemma steady_if [steady_intros]:
  "(b \<Longrightarrow> steady versions clock ok m) \<Longrightarrow> (\<not> b \<Longrightarrow> steady versions clock ok n) \<Longrightarrow>
   steady versions clock ok (if b then m else n)"
  by simp

lemma steady_case_option [steady_intros]:
  "steady versions clock ok m \<Longrightarrow> (\<And>a. steady versions clock ok (g a)) \<Longrightarrow>
   steady versions clock ok (case x of None \<Rightarrow> m | Some a \<Rightarrow> g a)"
  by (simp split: option.split)

lemma steady_Update [steady_intros]:
  "quiet versions clock (cl_Update (r_Client r) p) \<Longrightarrow> steady versions clock harmless (Update r p)"
  unfolding Update_def by (intro steady_intros) (simp_all add: harmless_def)

lemma steady_Patch [steady_intros]:
  "quiet versions clock (cl_PatchDeployment (r_Client r) dep patch) \<Longrightarrow> steady versions clock unrecorded (Patch r dep patch)"
  unfolding Patch_def by (intro steady_intros) (simp_all add: unrecorded_def)

lemma steady_Delete [steady_intros]:
  "quiet versions clock (cl_DeletePod (r_Client r) ns name) \<Longrightarrow> steady versions clock unrecorded (Delete r ns name)"
  unfolding Delete_def by (intro steady_intros) (simp_all add: unrecorded_def)

lemma steady_mark_ready [steady_intros]: "steady versions clock ok (mark_ready r nn pods)"
  by (induction pods) (auto intro!: steady_intros)

lemma steady_observe [steady_intros]: "steady versions clock ok (observe r nn cfg pods)"
  unfolding observe_def by (intro steady_intros)

lemma steady_delete_loop [steady_intros]:
  "(\<And>ns name. quiet versions clock (cl_DeletePod (r_Client r) ns name)) \<Longrightarrow>
   steady versions clock unrecorded (delete_loop r ns dryRun limit ss acted actedPod)"
  by (induction ss arbitrary: acted actedPod) (auto simp: deletePod_def intro!: steady_intros)

lemma steady_act [steady_intros]:
  "(\<And>ns name. quiet versions clock (cl_DeletePod (r_Client r) ns name)) \<Longrightarrow>
   (\<And>dep patch. quiet versions clock (cl_PatchDeployment (r_Client r) dep patch)) \<Longrightarrow>
   steady versions clock unrecorded (act r policy dep strategy unhealthy spec now)"
  unfolding act_def Let_def rolloutRestart_def by (intro steady_intros)

section \<open>How one call moves the stored status\<close>

text \<open>
  \<open>L\<close> are the versions at the time the policy was read, \<open>i\<close> is the one read, \<open>t\<close> an earlier
  time. A call that changes the cluster does so when the cooldown has passed for the status it
  read. Either no remediation is recorded: then every new version keeps the last one on record,
  and the cluster was left alone or the call failed. Or a remediation at \<open>now\<close>, within the time
  of the call, is recorded, the only one of the call, and the cooldown had passed since the last
  one on record.
\<close>

definition cooled :: "int \<Rightarrow> HotSwapPolicyStatus \<Rightarrow> gotime \<Rightarrow> bool" where
  "cooled c st now \<longleftrightarrow> (\<forall>l. LastRemediation st = Some l \<longrightarrow> 0 < c \<longrightarrow> c \<le> now - rr_Time l)"

definition moved ::
  "('w \<Rightarrow> HotSwapPolicyStatus list) \<Rightarrow> ('w \<Rightarrow> gotime) \<Rightarrow> int \<Rightarrow> HotSwapPolicyStatus list \<Rightarrow> nat \<Rightarrow> gotime \<Rightarrow>
   abort + 'a \<Rightarrow> 'w \<Rightarrow> effect list \<Rightarrow> bool" where
  "moved versions clock c L i t x w es \<longleftrightarrow>
     t \<le> clock w \<and>
     ((\<exists>e \<in> set es. is_mutation e) \<longrightarrow> (\<exists>now. t \<le> now \<and> now \<le> clock w \<and> cooled c (L ! i) now)) \<and>
     (\<exists>new. versions w = L @ new \<and>
        (((\<forall>e \<in> set es. \<not> is_mutation e) \<or> (\<exists>a. x = Inl a)) \<and>
           (\<forall>st \<in> set new. LastRemediation st = LastRemediation (last L)) \<or>
         (\<exists>now l. recorded_times es = [now] \<and> t \<le> now \<and> now \<le> clock w \<and> cooled c (last L) now \<and>
            rr_Time l = stored_time now \<and> LastRemediation (last (versions w)) = Some l \<and>
            (\<forall>st \<in> set new. LastRemediation st = Some l))))"

text \<open>Times on record are whole seconds.\<close>

definition whole :: "HotSwapPolicyStatus \<Rightarrow> bool" where
  "whole st \<longleftrightarrow> (\<forall>l. LastRemediation st = Some l \<longrightarrow> stored_time (rr_Time l) = rr_Time l)"

text \<open>What the policy in hand has in common with the version read.\<close>

definition in_hand :: "(nat \<Rightarrow> string) \<Rightarrow> HotSwapPolicyStatus list \<Rightarrow> nat \<Rightarrow> HotSwapPolicy \<Rightarrow> bool" where
  "in_hand ver L i p \<longleftrightarrow> i < length L \<and> whole (L ! i) \<and> pol_ResourceVersion p = ver i \<and>
     LastRemediation (pol_Status p) = LastRemediation (L ! i)"

lemma LastRemediation_whole: "whole st \<Longrightarrow> LastRemediation (persisted st) = LastRemediation st"
  by (cases "LastRemediation st") (simp_all add: whole_def)

lemma stored_time_idem [simp]: "stored_time (stored_time t) = stored_time t"
  by (simp add: stored_time_def)

lemma moved_kept:
  assumes "grown L (versions w)" and "t \<le> clock w"
    and "(\<forall>e \<in> set es. \<not> is_mutation e) \<or> (\<exists>a. x = Inl a)"
    and "(\<exists>e \<in> set es. is_mutation e) \<Longrightarrow> \<exists>now. t \<le> now \<and> now \<le> clock w \<and> cooled c (L ! i) now"
  shows "moved versions clock c L i t x w es"
proof -
  obtain n where n: "versions w = L @ replicate n (last L)" using assms(1) by (auto simp: grown_iff)
  have "\<forall>st \<in> set (replicate n (last L)). LastRemediation st = LastRemediation (last L)" by simp
  then show ?thesis unfolding moved_def using n assms(2-4) by blast
qed

lemma runs_to_finish:
  assumes "\<And>w e w'. P w \<Longrightarrow>
    cl_StatusUpdate (r_Client r) (policy\<lparr>pol_Status := (pol_Status policy)\<lparr>ObservedGeneration := pol_Generation policy\<rparr>\<rparr>) w = (e, w') \<Longrightarrow>
    Q (case e of Some err \<Rightarrow> Inl (Err err) | None \<Rightarrow> Inr res) w'
      [StatusUpdate (policy\<lparr>pol_Status := (pol_Status policy)\<lparr>ObservedGeneration := pol_Generation policy\<rparr>\<rparr>) e]"
  shows "runs_to P (finish r policy res) Q"
proof (rule runs_toI)
  fix s x s'
  let ?p = "policy\<lparr>pol_Status := (pol_Status policy)\<lparr>ObservedGeneration := pol_Generation policy\<rparr>\<rparr>"
  assume P: "P (world s)" and run: "run_state (finish r policy res) s = (x, s')"
  obtain e w' where c: "cl_StatusUpdate (r_Client r) ?p (world s) = (e, w')" by fastforce
  have "x = (case e of Some err \<Rightarrow> Inl (Err err) | None \<Rightarrow> Inr res)" "world s' = w'"
    "trace s' = trace s @ [StatusUpdate ?p e]"
    using run c by (auto simp: finish_def StatusUpdateCall_def ask_def emit_def Let_def)
  then show "\<exists>es. trace s' = trace s @ es \<and> Q x (world s') es"
    using assms [OF P c] by auto
qed

text \<open>
  A write of the status of a policy in hand that is stored has read the newest version.
\<close>

lemma commit:
  assumes S: "status_server r nn versions ver clock c" and call: "cl_StatusUpdate (r_Client r) p w = (e, w')"
    and rv: "pol_ResourceVersion p = ver i" and i: "i < length L" and g: "grown L (versions w)"
  shows "clock w \<le> clock w'"
    and "(e \<noteq> None \<and> grown L (versions w')) \<or>
      (L ! i = last L \<and> appended L (persisted (pol_Status p)) (versions w'))"
proof -
  have inj: "inj ver" and ne: "ver i \<noteq> []" and wr: "status_write versions ver clock p w e w'"
    using S call unfolding status_server_def by blast+
  show "clock w \<le> clock w'" using wr by (simp add: status_write_def)
  consider "e \<noteq> None" "grown (versions w) (versions w')"
    | "ver i = ver (length (versions w) - 1)" "appended (versions w) (persisted (pol_Status p)) (versions w')"
    using wr ne rv unfolding status_write_def by auto
  then show "(e \<noteq> None \<and> grown L (versions w')) \<or>
      (L ! i = last L \<and> appended L (persisted (pol_Status p)) (versions w'))"
  proof cases
    case 1
    then show ?thesis using grown_trans [OF g] by blast
  next
    case 2
    then have "i = length (versions w) - 1" using inj by (simp add: inj_eq)
    with i grown_length [OF g] have len: "length (versions w) \<le> length L" "i = length L - 1" by linarith+
    have eq: "versions w = L" by (rule grown_cut [OF g len(1)])
    have "L \<noteq> []" using i by auto
    then have "L ! i = last L" using len(2) by (simp add: last_conv_nth)
    with 2(2) eq show ?thesis by simp
  qed
qed

text \<open>A call that ends with a status whose last remediation is the one it read.\<close>

lemma finish_same:
  assumes S: "status_server r nn versions ver clock c" and p: "in_hand ver L i policy"
    and es: "\<forall>e \<in> set es. harmless e"
  shows "runs_to (\<lambda>w. grown L (versions w) \<and> t \<le> clock w) (finish r policy res)
    (\<lambda>x w es'. moved versions clock c L i t x w (es @ es'))"
proof (rule runs_to_finish)
  fix w e w'
  let ?p = "policy\<lparr>pol_Status := (pol_Status policy)\<lparr>ObservedGeneration := pol_Generation policy\<rparr>\<rparr>"
  let ?x = "case e of Some err \<Rightarrow> Inl (Err err) | None \<Rightarrow> Inr res"
  assume pre: "grown L (versions w) \<and> t \<le> clock w" and c: "cl_StatusUpdate (r_Client r) ?p w = (e, w')"
  have rv: "pol_ResourceVersion ?p = ver i" and i: "i < length L" using p by (simp_all add: in_hand_def)
  note commit = commit [OF S c rv i conjunct1 [OF pre]]
  have t: "t \<le> clock w'" using commit(1) pre by simp
  have no: "\<forall>e \<in> set (es @ [StatusUpdate ?p e]). \<not> is_mutation e" using es by (auto simp: harmless_def)
  show "moved versions clock c L i t ?x w' (es @ [StatusUpdate ?p e])"
    using commit(2)
  proof (elim disjE conjE)
    assume "grown L (versions w')"
    then show ?thesis using t no by (intro moved_kept) auto
  next
    assume "L ! i = last L" and "appended L (persisted (pol_Status ?p)) (versions w')"
    then obtain n where "versions w' = L @ replicate n (persisted (pol_Status ?p))" by (auto simp: appended_def)
    moreover have "LastRemediation (persisted (pol_Status ?p)) = LastRemediation (last L)"
      using p \<open>L ! i = last L\<close> LastRemediation_whole [of "last L"] by (simp add: in_hand_def)
    ultimately show ?thesis
      unfolding moved_def using t no
      by (intro conjI exI [of _ "replicate n (persisted (pol_Status ?p))"] disjI1) auto
  qed
qed

text \<open>A call that ends by recording a remediation at \<open>now\<close>.\<close>

lemma finish_new:
  assumes S: "status_server r nn versions ver clock c"
    and rv: "pol_ResourceVersion policy = ver i" and i: "i < length L"
    and new: "LastRemediation (pol_Status policy) = Some l" "rr_Time l = now"
    and es: "recorded_times es = []" and t: "t \<le> now" and cool: "cooled c (L ! i) now"
  shows "runs_to (\<lambda>w. grown L (versions w) \<and> now \<le> clock w) (finish r policy res)
    (\<lambda>x w es'. moved versions clock c L i t x w (es @ es'))"
proof (rule runs_to_finish)
  fix w e w'
  let ?p = "policy\<lparr>pol_Status := (pol_Status policy)\<lparr>ObservedGeneration := pol_Generation policy\<rparr>\<rparr>"
  let ?x = "case e of Some err \<Rightarrow> Inl (Err err) | None \<Rightarrow> Inr res"
  let ?l = "l\<lparr>rr_Time := stored_time now\<rparr>"
  assume pre: "grown L (versions w) \<and> now \<le> clock w" and c: "cl_StatusUpdate (r_Client r) ?p w = (e, w')"
  have rv': "pol_ResourceVersion ?p = ver i" using rv by simp
  note commit = commit [OF S c rv' i conjunct1 [OF pre]]
  have clk: "now \<le> clock w'" using commit(1) pre by simp
  have rec: "recorded_times (es @ [StatusUpdate ?p e]) = [now]" using new es by simp
  have put: "LastRemediation (persisted (pol_Status ?p)) = Some ?l" using new by simp
  show "moved versions clock c L i t ?x w' (es @ [StatusUpdate ?p e])"
    using commit(2)
  proof (elim disjE conjE)
    assume "e \<noteq> None" and "grown L (versions w')"
    then show ?thesis using clk t cool by (intro moved_kept) auto
  next
    assume eq: "L ! i = last L" and "appended L (persisted (pol_Status ?p)) (versions w')"
    then obtain n where n: "versions w' = L @ replicate n (persisted (pol_Status ?p))"
      and "n = 0 \<longrightarrow> last L = persisted (pol_Status ?p)" by (auto simp: appended_def)
    then have "last (versions w') = persisted (pol_Status ?p)" by (cases n) auto
    then show ?thesis
      unfolding moved_def using clk t cool eq rec put n
      by (intro conjI impI exI [of _ "replicate n (persisted (pol_Status ?p))"] disjI2 exI [of _ now] exI [of _ ?l])
        auto
  qed
qed

text \<open>Calls that end early have done nothing, or failed.\<close>

lemma return_moved:
  assumes "\<forall>e \<in> set es. \<not> is_mutation e"
  shows "runs_to (\<lambda>w. grown L (versions w) \<and> t \<le> clock w) (State_Monad.return x)
    (\<lambda>x w es'. moved versions clock c L i t x w (es @ es'))"
  using assms by (intro runs_to_return moved_kept) auto

lemma fail_moved:
  assumes "cooled c (L ! i) now" and "t \<le> now"
  shows "runs_to (\<lambda>w. grown L (versions w) \<and> now \<le> clock w) (State_Monad.return (Inl a))
    (\<lambda>x w es'. moved versions clock c L i t x w (es @ es'))"
  using assms by (intro runs_to_return moved_kept) auto

lemma harmless_quiet: "\<forall>e \<in> set es. harmless e \<Longrightarrow> \<forall>e \<in> set es. \<not> is_mutation e"
  by (simp add: harmless_def)

lemma set_conditions_keep [simp]:
  "LastRemediation (pol_Status (setDegraded r p reason msg)) = LastRemediation (pol_Status p)"
  "LastRemediation (pol_Status (setHealthy r p)) = LastRemediation (pol_Status p)"
  "LastRemediation (pol_Status (setRemediating r p msg)) = LastRemediation (pol_Status p)"
  "pol_ResourceVersion (setDegraded r p reason msg) = pol_ResourceVersion p"
  "pol_ResourceVersion (setHealthy r p) = pol_ResourceVersion p"
  "pol_ResourceVersion (setRemediating r p msg) = pol_ResourceVersion p"
  by (simp_all add: setDegraded_def setHealthy_def setRemediating_def Let_def)

lemma in_hand_set_conditions [simp]:
  "in_hand ver L i (setDegraded r p reason msg) = in_hand ver L i p"
  "in_hand ver L i (setHealthy r p) = in_hand ver L i p"
  "in_hand ver L i (setRemediating r p msg) = in_hand ver L i p"
  "in_hand ver L i (p\<lparr>pol_Status := (pol_Status p)\<lparr>Targets := ts\<rparr>\<rparr>) = in_hand ver L i p"
  "in_hand ver L i (p\<lparr>pol_Status := (pol_Status p)\<lparr>ConsecutiveAttempts := n\<rparr>\<rparr>) = in_hand ver L i p"
  by (simp_all add: in_hand_def)

text \<open>Harmless steps before the rest of the call.\<close>

lemma moved_after:
  assumes m: "steady versions clock harmless m" and es: "\<forall>e \<in> set es. harmless e"
    and rest: "\<And>x es'. \<forall>e \<in> set es'. harmless e \<Longrightarrow>
      runs_to (\<lambda>w. grown L (versions w) \<and> t \<le> clock w) (f x) (\<lambda>y w es''. moved versions clock c L i t y w (es' @ es''))"
  shows "runs_to (\<lambda>w. grown L (versions w) \<and> t \<le> clock w) (State_Monad.bind m f)
    (\<lambda>y w es'. moved versions clock c L i t y w (es @ es'))"
proof (rule runs_to_steady [OF m])
  fix x es' assume "\<forall>e \<in> set es'. harmless e"
  then have "\<forall>e \<in> set (es @ es'). harmless e" using es by auto
  from rest [OF this, of x]
  show "runs_to (\<lambda>w. grown L (versions w) \<and> t \<le> clock w) (f x)
      (\<lambda>y w es''. moved versions clock c L i t y w (es @ es' @ es''))"
    by simp
qed

lemma steady_report_remediation: "steady versions clock harmless (report_remediation r policy actedPod strategy dryRun now)"
  unfolding report_remediation_def Let_def by (intro steady_intros) (simp_all add: harmless_def)

lemma report_remediation_records:
  "runs_to P (report_remediation r policy actedPod strategy dryRun now)
     (\<lambda>p w es. P w \<and> (\<forall>e \<in> set es. harmless e) \<and>
       pol_ResourceVersion p = pol_ResourceVersion policy \<and>
       (\<exists>l. LastRemediation (pol_Status p) = Some l \<and> rr_Time l = now))"
  by (rule runs_toI)
    (auto simp: report_remediation_def record_remediation_def emit_def harmless_def Let_def split: if_splits)

lemma decide_moves:
  assumes S: "status_server r nn versions ver clock c" and p: "in_hand ver L i policy"
    and c: "c \<le> cooldown_ns (Remediation (pol_Spec policy))"
    and es: "\<forall>e \<in> set es. harmless e" and t: "t \<le> now"
  shows "runs_to (\<lambda>w. grown L (versions w) \<and> now \<le> clock w) (decide r nn' policy cfg dep snapshot now)
    (\<lambda>x w es'. moved versions clock c L i t x w (es @ es'))"
proof -
  have pre: "runs_to (\<lambda>w. grown L (versions w) \<and> now \<le> clock w) m Q"
    if "runs_to (\<lambda>w. grown L (versions w) \<and> t \<le> clock w) m Q" for m :: "('a, 'b, abort + Result) action" and Q
    by (rule runs_to_pre [OF that]) (use t in auto)
  have fin: "runs_to (\<lambda>w. grown L (versions w) \<and> t \<le> clock w) (finish r p res)
      (\<lambda>x w es'. moved versions clock c L i t x w (es'' @ es'))"
    if "in_hand ver L i p" "\<forall>e \<in> set es''. harmless e" for p res es''
    using finish_same [OF S that] .
  let ?spec = "Remediation (pol_Spec policy)"
  let ?strategy = "chooseStrategy (Strategy ?spec) (effectiveReplicas dep)"
  have remediation: "runs_to (\<lambda>w. grown L (versions w) \<and> now \<le> clock w)
      (State_Monad.bind (remediate r policy dep ?strategy (unhealthy_of snapshot) ?spec now)
         (\<lambda>done. case done of Inl a \<Rightarrow> State_Monad.return (Inl a) | Inr policy \<Rightarrow> finish r policy (after (Period cfg))))
      (\<lambda>x w es'. moved versions clock c L i t x w (es @ es'))"
    if cool: "\<not> cooldownActive (LastRemediation (pol_Status policy)) (int64_of (CooldownSeconds ?spec) * Second) now"
  proof -
    have i: "i < length L" and rv: "pol_ResourceVersion policy = ver i" using p by (simp_all add: in_hand_def)
    have cooled: "cooled c (L ! i) now"
      using cool c p unfolding cooldownActive_verdict within_cooldown_def in_hand_def cooled_def by auto
    note new = finish_new [OF S _ i _ _ _ t cooled]
    have a: "steady versions clock unrecorded (act r policy dep ?strategy (unhealthy_of snapshot) ?spec now)"
      using S by (intro steady_intros) (simp_all add: status_server_def)
    have "runs_to (\<lambda>w. grown L (versions w) \<and> now \<le> clock w)
        (State_Monad.bind (act r policy dep ?strategy (unhealthy_of snapshot) ?spec now)
          (\<lambda>done. case done of Inl a \<Rightarrow> State_Monad.return (Inl a)
            | Inr actedPod \<Rightarrow> State_Monad.bind (report_remediation r policy actedPod ?strategy (DryRun ?spec) now)
                (\<lambda>p. finish r p (after (Period cfg)))))
        (\<lambda>x w es'. moved versions clock c L i t x w (es @ es'))"
    proof (rule runs_to_steady [OF a])
      fix x es1 assume es1: "\<forall>e \<in> set es1. unrecorded e"
      show "runs_to (\<lambda>w. grown L (versions w) \<and> now \<le> clock w)
          (case x of Inl a \<Rightarrow> State_Monad.return (Inl a)
            | Inr actedPod \<Rightarrow> State_Monad.bind (report_remediation r policy actedPod ?strategy (DryRun ?spec) now)
                (\<lambda>p. finish r p (after (Period cfg))))
          (\<lambda>x w es'. moved versions clock c L i t x w (es @ es1 @ es'))"
      proof (cases x)
        case (Inl a)
        then show ?thesis using fail_moved [OF cooled t, of versions clock a "es @ es1"] by simp
      next
        case (Inr actedPod)
        have "runs_to (\<lambda>w. grown L (versions w) \<and> now \<le> clock w)
            (State_Monad.bind (report_remediation r policy actedPod ?strategy (DryRun ?spec) now)
                (\<lambda>p. finish r p (after (Period cfg))))
            (\<lambda>x w es'. moved versions clock c L i t x w ((es @ es1) @ es'))"
        proof (rule runs_to_bind [OF report_remediation_records [where policy = policy, unfolded rv]])
          fix p :: HotSwapPolicy and es2
          let ?new = "pol_ResourceVersion p = ver i \<and> (\<exists>l. LastRemediation (pol_Status p) = Some l \<and> rr_Time l = now)"
          show "runs_to (\<lambda>w. (grown L (versions w) \<and> now \<le> clock w) \<and> (\<forall>e \<in> set es2. harmless e) \<and> ?new)
              (finish r p (after (Period cfg))) (\<lambda>x w es'. moved versions clock c L i t x w ((es @ es1) @ es2 @ es'))"
          proof (cases "(\<forall>e \<in> set es2. harmless e) \<and> ?new")
            case True
            then obtain l where l: "pol_ResourceVersion p = ver i" "LastRemediation (pol_Status p) = Some l"
              "rr_Time l = now" by blast
            have "recorded_times ((es @ es1) @ es2) = []"
              using es es1 True by (intro recorded_times_unrecorded) (auto simp: harmless_def unrecorded_def)
            then have "runs_to (\<lambda>w. grown L (versions w) \<and> now \<le> clock w) (finish r p (after (Period cfg)))
                (\<lambda>x w es'. moved versions clock c L i t x w ((es @ es1) @ es2 @ es'))"
              using new [OF l, of "(es @ es1) @ es2"] by simp
            then show ?thesis by (rule runs_to_pre) simp
          next
            case False
            then show ?thesis by (intro runs_to_False) blast
          qed
        qed
        then show ?thesis by (simp add: Inr)
      qed
    qed
    moreover have eq: "State_Monad.bind (remediate r policy dep ?strategy (unhealthy_of snapshot) ?spec now) k =
        State_Monad.bind (act r policy dep ?strategy (unhealthy_of snapshot) ?spec now)
          (\<lambda>done. case done of Inl a \<Rightarrow> k (Inl a)
            | Inr actedPod \<Rightarrow> State_Monad.bind (report_remediation r policy actedPod ?strategy (DryRun ?spec) now)
                (\<lambda>p. k (Inr p)))" for k :: "abort + HotSwapPolicy \<Rightarrow> ('a, 'b, abort + Result) action"
      unfolding remediate_def
      by (simp, rule arg_cong [where f = "State_Monad.bind _"]) (auto simp: fun_eq_iff split: sum.split)
    ultimately show ?thesis unfolding eq sum.case by blast
  qed
  have leaf: "runs_to (\<lambda>w. grown L (versions w) \<and> now \<le> clock w) (finish r p res)
      (\<lambda>x w es'. moved versions clock c L i t x w (es @ es'))"
    if "in_hand ver L i p" for p res
    by (rule pre [OF fin [OF that es]])
  have emits1: "runs_to (\<lambda>w. grown L (versions w) \<and> now \<le> clock w)
      (State_Monad.bind (emit e) (\<lambda>_. finish r p res))
      (\<lambda>x w es'. moved versions clock c L i t x w (es @ es'))"
    if "harmless e" "in_hand ver L i p" for e p res
    by (rule pre, intro moved_after [OF steady_emit] fin that es; assumption?)
  have emits2: "runs_to (\<lambda>w. grown L (versions w) \<and> now \<le> clock w)
      (State_Monad.bind (emit e') (\<lambda>_. State_Monad.bind (emit e) (\<lambda>_. finish r p res)))
      (\<lambda>x w es'. moved versions clock c L i t x w (es @ es'))"
    if "harmless e" "harmless e'" "in_hand ver L i p" for e e' p res
    by (rule pre, intro moved_after [OF steady_emit] fin that es; assumption?)
  show ?thesis
    unfolding decide_def Let_def
    by (intro runs_to_if leaf emits2 emits1 remediation) (simp_all add: p harmless_def)
qed

section \<open>The whole call\<close>

lemma reconcilePods_moves:
  assumes S: "status_server r nn' versions ver clock c" and p: "in_hand ver L i policy"
    and c: "c \<le> cooldown_ns (Remediation (pol_Spec policy))"
    and es: "\<forall>e \<in> set es. harmless e"
  shows "runs_to (\<lambda>w. grown L (versions w) \<and> t \<le> clock w) (reconcilePods r nn policy cfg dep)
    (\<lambda>x w es'. moved versions clock c L i t x w (es @ es'))"
proof (cases "k_LabelSelectorAsSelector (r_lib r) (dep_Selector dep)")
  case (Inl err)
  then show ?thesis
    unfolding reconcilePods_def by (simp add: finish_same [OF S _ es] p)
next
  case (Inr sel)
  let ?P = "\<lambda>w. grown L (versions w) \<and> t \<le> clock w"
  have decide: "runs_to ?P (State_Monad.bind (ask (r_Now r)) (\<lambda>now. decide r nn (with_targets snapshot) cfg dep snapshot now))
      (\<lambda>x w es''. moved versions clock c L i t x w (es' @ es''))"
    if es': "\<forall>e \<in> set es'. harmless e"
      and with_targets: "in_hand ver L i (with_targets snapshot)"
        "pol_Spec (with_targets snapshot) = pol_Spec policy"
    for snapshot es' and with_targets :: "PodState list \<Rightarrow> HotSwapPolicy"
  proof (rule runs_to_bind [where R = "\<lambda>now w es. es = [] \<and> t \<le> now \<and> grown L (versions w) \<and> now \<le> clock w"])
    show "runs_to ?P (ask (r_Now r)) (\<lambda>now w es. es = [] \<and> t \<le> now \<and> grown L (versions w) \<and> now \<le> clock w)"
      using S by (intro runs_to_ask) (auto simp: status_server_def quiet_def intro: order_trans grown_trans)
    fix now and es1 :: "effect list"
    show "runs_to (\<lambda>w. es1 = [] \<and> t \<le> now \<and> grown L (versions w) \<and> now \<le> clock w)
        (decide r nn (with_targets snapshot) cfg dep snapshot now)
        (\<lambda>x w es''. moved versions clock c L i t x w (es' @ es1 @ es''))"
    proof (cases "es1 = [] \<and> t \<le> now")
      case True
      then show ?thesis
        using decide_moves [OF S with_targets(1) _ es', of t now nn cfg dep snapshot] c with_targets(2) by simp
    next
      case False
      then show ?thesis by (intro runs_to_False) blast
    qed
  qed
  have list: "steady versions clock harmless (ask (cl_ListPods (r_Client r) (nn_Namespace nn) sel))"
    using S by (intro steady_intros) (simp add: status_server_def)
  have rest: "runs_to ?P (do {
        snapshot \<leftarrow> observe r nn cfg pods;
        let policy = policy\<lparr>pol_Status := (pol_Status policy)\<lparr>Targets := toTargetHealth snapshot\<rparr>\<rparr>;
        _ \<leftarrow> emit (GaugeSet TargetsTotal [nn_Namespace nn, nn_Name nn] (int (length snapshot)));
        _ \<leftarrow> emit (GaugeSet TargetsHealthy [nn_Namespace nn, nn_Name nn] (int (healthy_count snapshot)));
        now \<leftarrow> ask (r_Now r);
        decide r nn policy cfg dep snapshot now })
      (\<lambda>x w es''. moved versions clock c L i t x w (es' @ es''))"
    if "\<forall>e \<in> set es'. harmless e" for pods es'
    unfolding Let_def
    by (intro moved_after [OF steady_observe that] moved_after [OF steady_emit]
        decide [where with_targets = "\<lambda>snapshot. policy\<lparr>pol_Status := (pol_Status policy)\<lparr>Targets := toTargetHealth snapshot\<rparr>\<rparr>"])
      (simp_all add: harmless_def p)
  show ?thesis
    unfolding reconcilePods_def Inr sum.case
  proof (rule moved_after [OF list es])
    fix listed es' assume es': "\<forall>e \<in> set es'. harmless e"
    show "runs_to ?P (case listed of Inl err \<Rightarrow> State_Monad.return (Inl (Err err)) | Inr pods \<Rightarrow> do {
        snapshot \<leftarrow> observe r nn cfg pods;
        let policy = policy\<lparr>pol_Status := (pol_Status policy)\<lparr>Targets := toTargetHealth snapshot\<rparr>\<rparr>;
        _ \<leftarrow> emit (GaugeSet TargetsTotal [nn_Namespace nn, nn_Name nn] (int (length snapshot)));
        _ \<leftarrow> emit (GaugeSet TargetsHealthy [nn_Namespace nn, nn_Name nn] (int (healthy_count snapshot)));
        now \<leftarrow> ask (r_Now r);
        decide r nn policy cfg dep snapshot now })
      (\<lambda>x w es''. moved versions clock c L i t x w (es' @ es''))"
    proof (cases listed)
      case (Inl err)
      show ?thesis unfolding Inl sum.case by (rule return_moved) (rule harmless_quiet [OF es'])
    next
      case (Inr pods)
      show ?thesis unfolding Inr sum.case by (rule rest [OF es'])
    qed
  qed
qed


lemma reconcileTarget_moves:
  assumes S: "status_server r nn' versions ver clock c" and p: "in_hand ver L i policy"
    and c: "c \<le> cooldown_ns (Remediation (pol_Spec policy))"
    and es: "\<forall>e \<in> set es. harmless e"
  shows "runs_to (\<lambda>w. grown L (versions w) \<and> t \<le> clock w) (reconcileTarget r nn policy cfg)
    (\<lambda>x w es'. moved versions clock c L i t x w (es @ es'))"
proof -
  let ?P = "\<lambda>w. grown L (versions w) \<and> t \<le> clock w"
  have degraded: "runs_to ?P (State_Monad.bind (on_prober f) (\<lambda>_. finish r (setDegraded r policy reason msg) res))
      (\<lambda>x w es''. moved versions clock c L i t x w (es' @ es''))"
    if "\<forall>e \<in> set es'. harmless e" for es' f reason msg res
    by (rule moved_after [OF steady_on_prober that]) (rule finish_same [OF S]; simp add: p)
  have get: "steady versions clock harmless (ask (cl_GetDeployment (r_Client r) key))" for key
    using S by (intro steady_intros) (simp add: status_server_def)
  have conflict: "steady versions clock harmless (conflictingPolicy r policy)"
    using S unfolding conflictingPolicy_def by (intro steady_intros) (simp add: status_server_def)
  show ?thesis
    unfolding reconcileTarget_def Let_def
  proof (rule moved_after [OF get es])
    fix got es1 assume es1: "\<forall>e \<in> set es1. harmless e"
    show "runs_to ?P (case got of
        Inl err \<Rightarrow>
          if IsNotFound err then do {
            _ \<leftarrow> on_prober (ps_Forget (r_Prober r) nn);
            finish r (setDegraded r policy ReasonTargetNotFound
                        (''deployment '' @ quote (tr_Name (TargetRef (pol_Spec policy))) @ '' not found''))
              (after (30 * Second)) }
          else State_Monad.return (Inl (Err err))
      | Inr dep \<Rightarrow> do {
          conflict \<leftarrow> conflictingPolicy r policy;
          (case conflict of
             Inl err \<Rightarrow> State_Monad.return (Inl (Err err))
           | Inr winner \<Rightarrow>
               if winner \<noteq> '''' then do {
                 _ \<leftarrow> on_prober (ps_Forget (r_Prober r) nn);
                 finish r (setDegraded r policy ReasonConflictingPolic
                             (''deployment '' @ quote (tr_Name (TargetRef (pol_Spec policy))) @ '' already guarded by HotSwapPolicy '' @
                              quote winner))
                   (after Minute) }
               else reconcilePods r nn policy cfg dep) })
      (\<lambda>x w es''. moved versions clock c L i t x w (es1 @ es''))"
    proof (cases got)
      case (Inl err)
      show ?thesis unfolding Inl sum.case
        by (intro runs_to_if degraded [OF es1] return_moved harmless_quiet [OF es1])
    next
      case (Inr dep)
      show ?thesis unfolding Inr sum.case
      proof (rule moved_after [OF conflict es1])
        fix conflict es2 assume es2: "\<forall>e \<in> set es2. harmless e"
        show "runs_to ?P (case conflict of
             Inl err \<Rightarrow> State_Monad.return (Inl (Err err))
           | Inr winner \<Rightarrow>
               if winner \<noteq> '''' then do {
                 _ \<leftarrow> on_prober (ps_Forget (r_Prober r) nn);
                 finish r (setDegraded r policy ReasonConflictingPolic
                             (''deployment '' @ quote (tr_Name (TargetRef (pol_Spec policy))) @ '' already guarded by HotSwapPolicy '' @
                              quote winner))
                   (after Minute) }
               else reconcilePods r nn policy cfg dep)
          (\<lambda>x w es''. moved versions clock c L i t x w (es2 @ es''))"
          by (cases conflict)
            (simp_all only: sum.case, rule return_moved, rule harmless_quiet [OF es2],
             intro runs_to_if degraded [OF es2] reconcilePods_moves [OF S p c es2])
      qed
    qed
  qed
qed

text \<open>The call from the policy on: \<open>L\<close> and \<open>t\<close> are the versions and the time once it is read.\<close>

definition reconcilePolicy ::
  "('w, 'p) HotSwapPolicyReconciler \<Rightarrow> NamespacedName \<Rightarrow> HotSwapPolicy \<Rightarrow> ('w, 'p, abort + Result) action" where
  "reconcilePolicy r nn policy =
     (if \<not> IsZeroPtr (pol_DeletionTimestamp policy) then reconcileDeletion r nn policy
      else if \<not> k_ContainsFinalizer (r_lib r) (pol_Finalizers policy) finalizerName then
        reconcileFinalizer r policy
      else
        (case normalizeProbe (HotswapProbe (pol_Spec policy)) of
           Inl err \<Rightarrow> finish r (setDegraded r policy ReasonInvalidProbe err) emptyResult
         | Inr cfg \<Rightarrow> reconcileTarget r nn policy cfg))"

lemma reconcilePolicy_moves:
  assumes S: "status_server r nn versions ver clock c" and p: "in_hand ver L i policy"
    and c: "c \<le> cooldown_ns (Remediation (pol_Spec policy))"
  shows "runs_to (\<lambda>w. grown L (versions w) \<and> t \<le> clock w) (reconcilePolicy r nn policy)
    (moved versions clock c L i t)"
proof -
  let ?P = "\<lambda>w. grown L (versions w) \<and> t \<le> clock w"
  have none: "\<forall>e \<in> set []. harmless e" by simp
  have update: "steady versions clock harmless (Update r p)" for p
    using S by (intro steady_intros) (simp add: status_server_def)
  have deletion: "runs_to ?P (reconcileDeletion r nn p) (\<lambda>x w es''. moved versions clock c L i t x w ([] @ es''))" for p
    unfolding reconcileDeletion_def Let_def
    by (intro runs_to_if moved_after [OF steady_on_prober] moved_after [OF update] return_moved)
      (auto simp: harmless_def)
  have finalizer: "runs_to ?P (reconcileFinalizer r p) (\<lambda>x w es''. moved versions clock c L i t x w ([] @ es''))" for p
    unfolding reconcileFinalizer_def Let_def
    by (intro moved_after [OF update] return_moved) (auto simp: harmless_def)
  have invalid: "runs_to ?P (finish r (setDegraded r policy reason msg) res)
      (\<lambda>x w es''. moved versions clock c L i t x w ([] @ es''))" for reason msg res
    by (rule finish_same [OF S _ none]) (simp add: p)
  have "runs_to ?P (reconcilePolicy r nn policy) (\<lambda>x w es''. moved versions clock c L i t x w ([] @ es''))"
    unfolding reconcilePolicy_def
    by (cases "normalizeProbe (HotswapProbe (pol_Spec policy))")
      (simp_all only: sum.case, (intro runs_to_if deletion finalizer invalid reconcileTarget_moves [OF S p c none])+)
  then show ?thesis by simp
qed

lemma run_Reconcile_read:
  "cl_GetPolicy (r_Client r) nn (world s) = (got, w1) \<Longrightarrow>
   run_state (Reconcile r nn) s =
     (case got of
        Inl err \<Rightarrow> (if IsNotFound err then Inr emptyResult else Inl (Err err), s\<lparr>world := w1\<rparr>)
      | Inr policy \<Rightarrow> run_state (reconcilePolicy r nn policy) (s\<lparr>world := w1\<rparr>))"
  by (simp add: Reconcile_def reconcilePolicy_def ask_def split: sum.split)

text \<open>
  How one call moves the versions from \<open>versions (world s)\<close> on: a policy read of version \<open>i\<close>
  governs the call, and a call that reads none leaves everything alone.
\<close>

lemma Reconcile_moves:
  assumes S: "status_server r nn versions ver clock c" and w: "\<forall>st \<in> set (versions (world s)). whole st"
    and ne: "versions (world s) \<noteq> []"
    and run: "run_state (Reconcile r nn) s = (x, s')" and es: "trace s' = trace s @ es"
  obtains L i where "grown (versions (world s)) L" and "i < length L"
    and "moved versions clock c L i (clock (world s)) x (world s') es"
    and "\<forall>p w1. cl_GetPolicy (r_Client r) nn (world s) = (Inr p, w1) \<longrightarrow> pol_ResourceVersion p = ver i"
proof -
  obtain got w1 where get: "cl_GetPolicy (r_Client r) nn (world s) = (got, w1)" by fastforce
  let ?L = "versions w1"
  have q: "grown (versions (world s)) ?L" "clock (world s) \<le> clock w1"
    using S get unfolding status_server_def quiet_def by (metis snd_conv)+
  show thesis
  proof (cases got)
    case (Inl err)
    then have "s' = s\<lparr>world := w1\<rparr>" using run run_Reconcile_read [OF get] by (simp split: if_splits)
    then have "moved versions clock c ?L 0 (clock (world s)) x (world s') es"
      using es q by (intro moved_kept) simp_all
    moreover have "0 < length ?L" using grown_length [OF q(1)] ne by (cases "versions (world s)") auto
    ultimately show thesis using that [of ?L 0] q(1) get Inl by simp
  next
    case (Inr p)
    then obtain i where i: "i < length ?L" "pol_Status p = ?L ! i" "pol_ResourceVersion p = ver i"
      and c: "c \<le> cooldown_ns (Remediation (pol_Spec p))"
      using S get unfolding status_server_def cache_read_def by blast
    have "\<forall>st \<in> set ?L. whole st"
      using w ne q(1) by (auto simp: grown_iff)
    then have "in_hand ver ?L i p" using i by (simp add: in_hand_def)
    note m = reconcilePolicy_moves [OF S this c, of "clock (world s)"]
    have "run_state (reconcilePolicy r nn p) (s\<lparr>world := w1\<rparr>) = (x, s')"
      using run run_Reconcile_read [OF get] Inr by simp
    moreover have "grown ?L (versions (world (s\<lparr>world := w1\<rparr>))) \<and> clock (world s) \<le> clock (world (s\<lparr>world := w1\<rparr>))"
      using q(2) by simp
    ultimately obtain es' where "trace s' = trace (s\<lparr>world := w1\<rparr>) @ es'"
      "moved versions clock c ?L i (clock (world s)) x (world s') es'"
      using runs_toD [OF m] by blast
    then show thesis using that [OF q(1) i(1)] es get Inr i(3) by simp
  qed
qed

end
