(* ===== verification/PersistProps.thy ===== *)
theory PersistProps
  imports Persist ReconcileSpec
begin

text \<open>The spacing of remediations over any history of reconciles, waits and restarts.\<close>

section \<open>Histories\<close>

text \<open>
  The states a policy goes through, and its recorded remediations: the time of each and the
  number of the version that was the newest when its call returned. A \<open>wait\<close> is anything that
  leaves the status alone: probes, edits of the policy by others, other policies' reconciles, even
  a restart of the operator, which loses the prober's state. A \<open>call\<close> is one \<open>Reconcile\<close>, with
  any outcome; it counts as a recorded remediation if it changed the cluster and returned without
  an error.
\<close>

definition recorded ::
  "('w \<Rightarrow> HotSwapPolicyStatus list) \<Rightarrow> abort + Result \<Rightarrow> 'w \<Rightarrow> effect list \<Rightarrow> (gotime \<times> nat) list" where
  "recorded versions x w es =
     (if (\<exists>e \<in> set es. is_mutation e) \<and> (\<exists>res. x = Inr res)
      then map (\<lambda>t. (t, length (versions w) - 1)) (recorded_times es) else [])"

inductive history ::
  "('w, 'p) HotSwapPolicyReconciler \<Rightarrow> NamespacedName \<Rightarrow> ('w \<Rightarrow> HotSwapPolicyStatus list) \<Rightarrow> ('w \<Rightarrow> gotime) \<Rightarrow>
   ('w, 'p) rstate \<Rightarrow> (gotime \<times> nat) list \<Rightarrow> bool"
  for r nn versions clock where
  start: "versions (world s) \<noteq> [] \<Longrightarrow> \<forall>st \<in> set (versions (world s)). whole st \<Longrightarrow>
    history r nn versions clock s []"
| wait: "history r nn versions clock s ts \<Longrightarrow> grown (versions (world s)) (versions (world s')) \<Longrightarrow>
    clock (world s) \<le> clock (world s') \<Longrightarrow> history r nn versions clock s' ts"
| call: "history r nn versions clock s ts \<Longrightarrow> run_state (Reconcile r nn) s = (x, s') \<Longrightarrow>
    trace s' = trace s @ es \<Longrightarrow> history r nn versions clock s' (ts @ recorded versions x (world s') es)"

text \<open>
  What holds all along: times on record are whole seconds, every recorded remediation lies in
  the past and from its version on each status shows it or a later one, and all are spaced.
\<close>

definition on_record :: "gotime \<Rightarrow> HotSwapPolicyStatus \<Rightarrow> bool" where
  "on_record t st \<longleftrightarrow> (\<exists>l. LastRemediation st = Some l \<and> stored_time t \<le> rr_Time l)"

definition spaced :: "int \<Rightarrow> HotSwapPolicyStatus list \<Rightarrow> gotime \<Rightarrow> (gotime \<times> nat) list \<Rightarrow> bool" where
  "spaced c V T ts \<longleftrightarrow>
     V \<noteq> [] \<and> (\<forall>st \<in> set V. whole st) \<and>
     (\<forall>(t, k) \<in> set ts. t \<le> T \<and> k < length V \<and> (\<forall>j. k \<le> j \<longrightarrow> j < length V \<longrightarrow> on_record t (V ! j))) \<and>
     sorted_wrt (\<lambda>(t, _) (t', _). c - 1000000000 < t' - t) ts"

lemma cooled_spaced:
  assumes "on_record t st" and "cooled c st now" and "0 < c"
  shows "c - 1000000000 < now - t"
proof -
  obtain l where "LastRemediation st = Some l" "stored_time t \<le> rr_Time l"
    using assms(1) by (auto simp: on_record_def)
  moreover from this assms(2,3) have "c \<le> now - rr_Time l" by (simp add: cooled_def)
  ultimately show ?thesis using stored_time_bounds(2) [of t] by linarith
qed

lemma on_record_same: "LastRemediation st = LastRemediation st' \<Longrightarrow> on_record t st = on_record t st'"
  by (simp add: on_record_def)

text \<open>New versions that show the last remediation on record, or a later one.\<close>

lemma spaced_append:
  assumes sp: "spaced c V T ts" and T: "T \<le> T'"
    and new: "\<And>st. st \<in> set new \<Longrightarrow> LastRemediation st = LastRemediation (last V) \<or>
      (\<exists>l now. LastRemediation st = Some l \<and> T \<le> now \<and> rr_Time l = stored_time now)"
  shows "spaced c (V @ new) T' ts"
proof -
  have ne: "V \<noteq> []" and last: "whole (last V)" using sp by (simp_all add: spaced_def)
  have "whole st" if "st \<in> set new" for st
    using new [OF that] last by (auto simp: whole_def)
  moreover have "on_record t ((V @ new) ! j)"
    if "(t, k) \<in> set ts" "k \<le> j" "j < length (V @ new)" for t k j
  proof (cases "j < length V")
    case True
    then show ?thesis using sp that by (auto simp: spaced_def nth_append)
  next
    case False
    then have st: "(V @ new) ! j \<in> set new" using that(3) by (simp add: nth_append)
    have t: "t \<le> T" and "k \<le> length V - 1" and "length V - 1 < length V"
      using sp that(1) by (auto simp: spaced_def)
    then have "on_record t (last V)"
      using sp that(1) ne unfolding spaced_def by (fastforce simp: last_conv_nth)
    moreover have "stored_time t \<le> stored_time now" if "T \<le> now" for now
      using t that by (intro stored_time_mono) simp
    ultimately show ?thesis using new [OF st] by (auto simp: on_record_def)
  qed
  ultimately show ?thesis using sp T unfolding spaced_def by fastforce
qed

lemma spaced_grown: "spaced c V T ts \<Longrightarrow> grown V V' \<Longrightarrow> T \<le> T' \<Longrightarrow> spaced c V' T' ts"
  by (auto simp: grown_iff intro!: spaced_append)

lemma spaced_snoc:
  assumes "spaced c V T ts" and "now \<le> T" and "on_record now (last V)"
    and "\<And>t k. (t, k) \<in> set ts \<Longrightarrow> c - 1000000000 < now - t"
  shows "spaced c V T (ts @ [(now, length V - 1)])"
proof -
  have "on_record now (V ! j)" if "length V - 1 \<le> j" "j < length V" for j
  proof -
    have "j = length V - 1" "V \<noteq> []" using that by auto
    then show ?thesis using assms(3) by (simp add: last_conv_nth)
  qed
  then show ?thesis using assms unfolding spaced_def by (fastforce simp: sorted_wrt_append)
qed

text \<open>One call: what it adds to the record, and when it may change the cluster.\<close>

lemma spaced_moved:
  assumes sp: "spaced c L T ts" and c: "0 < c" and m: "moved versions clock c L i T x w es"
  shows "spaced c (versions w) (clock w) (ts @ recorded versions x w es)"
proof -
  obtain new where w: "T \<le> clock w" "versions w = L @ new" using m by (auto simp: moved_def)
  from m w(2) consider
      (same) "(\<forall>e \<in> set es. \<not> is_mutation e) \<or> (\<exists>a. x = Inl a)"
        "\<And>st. st \<in> set new \<Longrightarrow> LastRemediation st = LastRemediation (last L)"
    | (new) now l where "recorded_times es = [now]" "T \<le> now" "now \<le> clock w" "cooled c (last L) now"
        "rr_Time l = stored_time now" "LastRemediation (last (versions w)) = Some l"
        "\<And>st. st \<in> set new \<Longrightarrow> LastRemediation st = Some l"
    unfolding moved_def by auto
  then show ?thesis
  proof cases
    case same
    have "recorded versions x w es = []" using same(1) by (auto simp: recorded_def)
    moreover have "spaced c (L @ new) (clock w) ts"
      by (rule spaced_append [OF sp w(1)]) (simp add: same(2))
    ultimately show ?thesis by (simp add: w(2))
  next
    case new
    have kept: "spaced c (versions w) (clock w) ts"
      unfolding w(2) by (rule spaced_append [OF sp w(1)]) (use new(2,5,7) in blast)
    have "c - 1000000000 < now - t" if "(t, k) \<in> set ts" for t k
    proof (rule cooled_spaced [OF _ new(4) c])
      have "k \<le> length L - 1" "length L - 1 < length L" "L \<noteq> []" using sp that by (auto simp: spaced_def)
      then show "on_record t (last L)" using sp that unfolding spaced_def by (fastforce simp: last_conv_nth)
    qed
    moreover have "on_record now (last (versions w))" using new(5,6) by (simp add: on_record_def)
    ultimately have "spaced c (versions w) (clock w) (ts @ [(now, length (versions w) - 1)])"
      by (intro spaced_snoc kept new(3))
    then show ?thesis using kept by (simp add: recorded_def new(1))
  qed
qed

lemma spaced_change:
  assumes sp: "spaced c L T ts" and c: "0 < c" and m: "moved versions clock c L i T x w es" and i: "i < length L"
    and "\<exists>e \<in> set es. is_mutation e"
  shows "\<exists>now. T \<le> now \<and> now \<le> clock w \<and> (\<forall>(t, k) \<in> set ts. k \<le> i \<longrightarrow> c - 1000000000 < now - t)"
proof -
  obtain now where now: "T \<le> now" "now \<le> clock w" "cooled c (L ! i) now"
    using m assms(5) unfolding moved_def by blast
  have "c - 1000000000 < now - t" if "(t, k) \<in> set ts" "k \<le> i" for t k
    using sp that i by (intro cooled_spaced [OF _ now(3) c]) (auto simp: spaced_def)
  then show ?thesis using now(1,2) by blast
qed

lemma history_spaced:
  assumes S: "status_server r nn versions ver clock c" and c: "0 < c" and h: "history r nn versions clock s ts"
  shows "spaced c (versions (world s)) (clock (world s)) ts"
  using h
proof induction
  case (start s)
  then show ?case by (simp add: spaced_def)
next
  case (wait s ts s')
  then show ?case by (blast intro: spaced_grown)
next
  case (call s ts x s' es)
  have w: "\<forall>st \<in> set (versions (world s)). whole st" "versions (world s) \<noteq> []"
    using call.IH by (simp_all add: spaced_def)
  obtain L i where L: "grown (versions (world s)) L" "i < length L"
      "moved versions clock c L i (clock (world s)) x (world s') es"
    by (rule Reconcile_moves [OF S w call.hyps(2,3)])
  show ?case by (rule spaced_moved [OF spaced_grown [OF call.IH L(1) order_refl] c L(3)])
qed


section \<open>A server that keeps the status\<close>

text \<open>
  It serves reads from a cache that shows the version \<open>w_view\<close> (or the newest, if that does not
  exist yet), and rejects a write that is not based on the newest version.
\<close>

record exWorld =
  w_versions :: "HotSwapPolicyStatus list"
  w_view :: nat
  w_clock :: gotime

definition exVer :: "nat \<Rightarrow> string" where "exVer n = CHR ''v'' # replicate n CHR ''i''"

definition exStored :: "HotSwapPolicyStatus list \<Rightarrow> nat \<Rightarrow> HotSwapPolicy" where
  "exStored V n = (exPolicy exSpec)\<lparr>pol_ResourceVersion := exVer n, pol_Status := V ! n\<rparr>"

definition exView :: "exWorld \<Rightarrow> nat" where "exView w = min (w_view w) (length (w_versions w) - 1)"

definition exServer :: "(exWorld, scheduled) HotSwapPolicyReconciler" where
  "exServer =
     \<lparr>r_Client =
       \<lparr>cl_GetPolicy = (\<lambda>nn w. (if w_versions w = [] then Inl NotFound else Inr (exStored (w_versions w) (exView w)), w)),
        cl_GetDeployment = (\<lambda>nn w. (Inr exDep, w)),
        cl_GetReplicaSet = (\<lambda>nn w. (Inl NotFound, w)),
        cl_ListPolicies = (\<lambda>ns w. (Inr [exStored (w_versions w) (exView w)], w)),
        cl_ListPods = (\<lambda>ns sel w. (Inr [exPod], w)),
        cl_Update = (\<lambda>p w. (None, w)),
        cl_StatusUpdate = (\<lambda>p w.
          if pol_ResourceVersion p = exVer (length (w_versions w) - 1)
          then (None, w\<lparr>w_versions := w_versions w @ [persisted (pol_Status p)]\<rparr>)
          else (Some (APIError ''conflict''), w)),
        cl_PatchDeployment = (\<lambda>d patch w. (None, w)),
        cl_DeletePod = (\<lambda>ns name w. (None, w))\<rparr>,
      r_Prober = managerSource exString ascending, r_Now = (\<lambda>w. (w_clock w, w)), r_lib = exLib\<rparr>"

definition exMoment :: "HotSwapPolicyStatus list \<Rightarrow> nat \<Rightarrow> gotime \<Rightarrow> (exWorld, scheduled) rstate" where
  "exMoment V n t = \<lparr>world = \<lparr>w_versions = V, w_view = n, w_clock = t\<rparr>, prober = \<lparr>mgr = exManager, sched = []\<rparr>, trace = []\<rparr>"

lemma exServer_simps [simp]:
  "w_versions w \<noteq> [] \<Longrightarrow> cl_GetPolicy (r_Client exServer) nn w = (Inr (exStored (w_versions w) (exView w)), w)"
  "cl_GetDeployment (r_Client exServer) nn w = (Inr exDep, w)"
  "cl_ListPolicies (r_Client exServer) ns w = (Inr [exStored (w_versions w) (exView w)], w)"
  "cl_ListPods (r_Client exServer) ns sel w = (Inr [exPod], w)"
  "cl_StatusUpdate (r_Client exServer) p w =
     (if pol_ResourceVersion p = exVer (length (w_versions w) - 1)
      then (None, w\<lparr>w_versions := w_versions w @ [persisted (pol_Status p)]\<rparr>)
      else (Some (APIError ''conflict''), w))"
  "cl_DeletePod (r_Client exServer) ns name w = (None, w)"
  "r_Now exServer w = (w_clock w, w)" "r_lib exServer = exLib"
  by (simp_all add: exServer_def)

lemma exStored_simps [simp]:
  "pol_DeletionTimestamp (exStored V n) = None" "pol_Finalizers (exStored V n) = [finalizerName]"
  "HotswapProbe (pol_Spec (exStored V n)) = exProbe" "pol_Namespace (exStored V n) = ''shop''"
  "pol_Name (exStored V n) = ''guard''" "target_of (exStored V n) = ''web''"
  "Remediation (pol_Spec (exStored V n)) = exSpec" "pol_Status (exStored V n) = V ! n"
  "pol_ResourceVersion (exStored V n) = exVer n"
  by (simp_all add: exStored_def exPolicy_def target_of_def)

lemma exMoment_simps [simp]:
  "world (exMoment V n t) = \<lparr>w_versions = V, w_view = n, w_clock = t\<rparr>" "trace (exMoment V n t) = []"
  by (simp_all add: exMoment_def)

lemma exVer_eq [simp]: "exVer n = exVer m \<longleftrightarrow> n = m"
  by (auto simp: exVer_def dest: arg_cong [where f = length])

lemma exServer_laws: "status_server exServer exNN w_versions exVer w_clock 600000000000"
proof -
  have "inj exVer" and "\<forall>i. exVer i \<noteq> []" by (simp_all add: inj_def) (simp add: exVer_def)
  moreover have "cache_read w_versions exVer 600000000000 w' p"
    if "cl_GetPolicy (r_Client exServer) exNN w = (Inr p, w')" for w p w'
  proof -
    from that have w: "w_versions w' \<noteq> []" "p = exStored (w_versions w') (exView w')"
      by (auto simp: exServer_def split: if_splits)
    then have "exView w' < length (w_versions w')"
      by (cases "w_versions w'") (simp_all add: exView_def min_def)
    with w show ?thesis by (auto simp: cache_read_def cooldown_ns_def exSpec_def)
  qed
  moreover have "status_write w_versions exVer w_clock p w e w'"
    if "cl_StatusUpdate (r_Client exServer) p w = (e, w')" for p w e w'
  proof -
    have "appended (w_versions w) (persisted (pol_Status p)) (w_versions w @ [persisted (pol_Status p)])"
      unfolding appended_def by (rule exI [of _ 1]) simp
    then show ?thesis using that by (auto simp: status_write_def split: if_splits)
  qed
  ultimately show ?thesis
    unfolding status_server_def by (intro conjI allI impI) (simp_all add: quiet_def exServer_def)
qed

abbreviation exMoment_seen :: "HotSwapPolicyStatus list \<Rightarrow> nat \<Rightarrow> gotime \<Rightarrow> (exWorld, scheduled) rstate" where
  "exMoment_seen V n t \<equiv> (exMoment V n t)\<lparr>prober := \<lparr>mgr = exManagerSeen, sched = []\<rparr>\<rparr>"

lemma exServer_observe:
  "run_state (observe exServer exNN exCfg [exPod]) (exMoment V n t) = (exSnapshot, exMoment_seen V n t)"
  by (simp add: run_observe ready_marks_def exServer_def exMoment_def exManager_eval interfere_def
      probe_targets_def IsZeroPtr_def exPod_def pod_target_def exManagerSeen_def exSeen_def exEntry_def
      Let_def isPodReady_def Sync_def NewManager_def desired_map_def exString_def exNN_def add_pod_def
      stop_pod_def SetSeenReady_def map_filter_simps PodState.truncate_def exSnapshot_def Snapshot_def)

lemma exServer_verdict:
  assumes "\<not> within_cooldown exSpec (V ! n) t"
  shows "verdict_of (exStored V n) exDep exSnapshot t = Remediate StrategyDeletePod"
  using assms
  by (simp add: verdict_of_def Let_def ex_unhealthy exStored_def)
    (simp add: exPolicy_def exSpec_def exDep_def exSnapshot_def systemic_def deploymentStable_def
      progressDeadlineExceeded_def chooseStrategy_def)

lemma exServer_act:
  "run_state (act exServer p exDep StrategyDeletePod (unhealthy_of exSnapshot) exSpec t) s =
     (Inr ''web-1'', s\<lparr>trace := trace s @ [PodDelete (pol_Namespace p) ''web-1'' None]\<rparr>)"
  unfolding ex_unhealthy
  by (simp add: act_def run_simps deletePod_def go_cmp exSnapshot_def exSeen_def exEntry_def Let_def)

lemma exServer_remediation:
  assumes "pol_Namespace p = ''shop''" and "Remediation (pol_Spec p) = exSpec"
  obtains q l gs where "pol_ResourceVersion q = pol_ResourceVersion p"
    and "LastRemediation (pol_Status q) = Some l" and "rr_Time l = t"
    and "recorded_times gs = []" and "PodDelete ''shop'' ''web-1'' None \<in> set gs"
    and "run_state (perform exServer exNN p exCfg exDep exSnapshot t (Remediate StrategyDeletePod)) s =
      (case cl_StatusUpdate (r_Client exServer) q (world s) of
         (e, w) \<Rightarrow> (case e of Some err \<Rightarrow> Inl (Err err) | None \<Rightarrow> Inr (after (Period exCfg)),
                   s\<lparr>world := w, trace := trace s @ gs @ [StatusUpdate q e]\<rparr>))"
proof -
  let ?p = "record_remediation p ''web-1'' StrategyDeletePod False t"
  let ?msg = "remediation_msg ''remediated'' ''web-1'' StrategyDeletePod (ConsecutiveAttempts (pol_Status ?p))"
  let ?q = "setRemediating exServer ?p ?msg"
  let ?gs = "[PodDelete ''shop'' ''web-1'' None,
     CounterInc RemediationsTotal [pol_Namespace p, pol_Name p, StrategyDeletePod],
     RecorderEvent EventTypeNormal ReasonRemediating ?msg]"
  show thesis
    by (rule that [of "?q\<lparr>pol_Status := (pol_Status ?q)\<lparr>ObservedGeneration := pol_Generation ?q\<rparr>\<rparr>"
          "\<lparr>rr_PodName = ''web-1'', rr_Strategy = StrategyDeletePod, rr_Time = t, rr_Reason = remediation_reason False\<rparr>" ?gs])
      (simp_all add: perform_def Let_def run_remediate exServer_act run_report_remediation run_finish
        assms record_remediation_def del: exServer_simps)
qed

text \<open>
  A call whose read shows no cooldown deletes the pod. The write that follows is stored if the
  read was of the newest version.
\<close>

lemma exServer_call:
  assumes cool: "\<not> within_cooldown exSpec (V ! n) t" and n: "n < length V"
  obtains s' x es st l where "run_state (Reconcile exServer exNN) (exMoment V n t) = (x, s')"
    and "trace s' = trace (exMoment V n t) @ es" and "PodDelete ''shop'' ''web-1'' None \<in> set es"
    and "recorded_times es = [t]" and "LastRemediation st = Some l" and "rr_Time l = stored_time t"
    and "w_clock (world s') = t"
    and "n = length V - 1 \<Longrightarrow> (\<exists>res. x = Inr res) \<and> w_versions (world s') = V @ [st]"
    and "n \<noteq> length V - 1 \<Longrightarrow> (\<exists>a. x = Inl a) \<and> w_versions (world s') = V"
proof -
  let ?p = "exStored V n" and ?w = "\<lparr>w_versions = V, w_view = n, w_clock = t\<rparr>"
  have V: "V \<noteq> []" using n by auto
  have view: "exView ?w = n" using n by (simp add: exView_def min_def)
  have run: "run_state (Reconcile exServer exNN) (exMoment V n t) =
      run_state (perform exServer exNN (with_targets ?p exSnapshot) exCfg exDep exSnapshot t
          (verdict_of ?p exDep exSnapshot t))
        ((exMoment_seen V n t)\<lparr>trace := trace (exMoment V n t) @ target_gauges exNN exSnapshot, world := ?w\<rparr>)"
  proof (rule run_Reconcile_main [where items = "[?p]" and pods = "[exPod]" and sel = "\<lambda>labels. dep_Selector exDep \<noteq> None"
        and ?w1.0 = ?w and ?w2.0 = ?w and ?w3.0 = ?w and ?w4.0 = ?w])
    show "conflicting_winner ?p [?p] = ''''" by (simp add: conflicting_winner_def)
    show "run_state (observe exServer exNN exCfg [exPod]) ((exMoment V n t)\<lparr>world := ?w\<rparr>) = (exSnapshot, exMoment_seen V n t)"
      using exServer_observe [of V n t] by (simp add: exMoment_def)
  qed (simp_all add: IsZeroPtr_def normalize_exProbe V view)
  let ?s = "(exMoment_seen V n t)\<lparr>trace := trace (exMoment V n t) @ target_gauges exNN exSnapshot, world := ?w\<rparr>"
  obtain q l gs where q: "pol_ResourceVersion q = pol_ResourceVersion (with_targets ?p exSnapshot)"
      "LastRemediation (pol_Status q) = Some l" "rr_Time l = t"
    and gs: "recorded_times gs = []" "PodDelete ''shop'' ''web-1'' None \<in> set gs"
    and did: "run_state (perform exServer exNN (with_targets ?p exSnapshot) exCfg exDep exSnapshot t
        (Remediate StrategyDeletePod)) ?s =
      (case cl_StatusUpdate (r_Client exServer) q (world ?s) of
         (e, w) \<Rightarrow> (case e of Some err \<Rightarrow> Inl (Err err) | None \<Rightarrow> Inr (after (Period exCfg)),
                   ?s\<lparr>world := w, trace := trace ?s @ gs @ [StatusUpdate q e]\<rparr>))"
    by (rule exServer_remediation [where p = "with_targets ?p exSnapshot" and t = t and s = ?s]) simp_all
  have rv: "pol_ResourceVersion q = exVer n" using q(1) by (simp add: with_targets_def)
  note eq = run [unfolded exServer_verdict [OF cool] did]
  have tg: "recorded_times (target_gauges exNN exSnapshot) = []" by (simp add: target_gauges_def)
  show thesis
  proof (cases "n = length V - 1")
    case True
    then have n: "length V - Suc 0 = n" by simp
    show thesis
      by (rule that [of "Inr (after (Period exCfg))"
            "(exMoment_seen V n t)\<lparr>world := ?w\<lparr>w_versions := V @ [persisted (pol_Status q)]\<rparr>,
               trace := target_gauges exNN exSnapshot @ gs @ [StatusUpdate q None]\<rparr>"
            "target_gauges exNN exSnapshot @ gs @ [StatusUpdate q None]"
            "persisted (pol_Status q)" "l\<lparr>rr_Time := stored_time t\<rparr>"])
        (use q(2,3) rv gs tg in \<open>simp_all add: eq n\<close>)
  next
    case False
    show thesis
      by (rule that [of "Inl (Err (APIError ''conflict''))"
            "(exMoment_seen V n t)\<lparr>world := ?w,
               trace := target_gauges exNN exSnapshot @ gs @ [StatusUpdate q (Some (APIError ''conflict''))]\<rparr>"
            "target_gauges exNN exSnapshot @ gs @ [StatusUpdate q (Some (APIError ''conflict''))]"
            "persisted (pol_Status q)" "l\<lparr>rr_Time := stored_time t\<rparr>"])
        (use False q(2,3) rv gs tg in \<open>simp_all add: eq\<close>)
  qed
qed

text \<open>
  C4: remediations are spaced. Take any history of a policy: reconciles with any outcome, waits,
  restarts of the operator, with reads from a cache that may lag behind, a server that accepts a
  status write only on top of the newest version and keeps times in whole seconds, and a spec
  whose cooldown is never below \<open>c\<close>. Then any two recorded remediations (calls that changed the
  cluster and returned without an error) are more than \<open>c\<close> minus one second apart; and any call
  that changes the cluster, also one that fails afterwards, acts more than \<open>c\<close> minus one second
  after every recorded remediation that the version it read can know of. The second is lost
  because the time of the last remediation comes back truncated; what remains are unrecorded
  remediations (calls that fail after the change) and reads that lag behind.
\<close>

theorem remediations_spaced:
  assumes "status_server r nn versions ver clock c" and "0 < c" and "history r nn versions clock s ts"
  shows "sorted_wrt (\<lambda>(t, _) (t', _). c - 1000000000 < t' - t) ts \<and>
    (\<forall>x s' es p w i.
       run_state (Reconcile r nn) s = (x, s') \<longrightarrow> trace s' = trace s @ es \<longrightarrow> (\<exists>e \<in> set es. is_mutation e) \<longrightarrow>
       cl_GetPolicy (r_Client r) nn (world s) = (Inr p, w) \<longrightarrow> pol_ResourceVersion p = ver i \<longrightarrow>
       (\<exists>now. clock (world s) \<le> now \<and> now \<le> clock (world s') \<and>
          (\<forall>(t, k) \<in> set ts. k \<le> i \<longrightarrow> c - 1000000000 < now - t)))"
proof (intro conjI allI impI)
  have sp: "spaced c (versions (world s)) (clock (world s)) ts" by (rule history_spaced [OF assms])
  then show "sorted_wrt (\<lambda>(t, _) (t', _). c - 1000000000 < t' - t) ts" by (simp add: spaced_def)
  fix x s' es p w i
  assume run: "run_state (Reconcile r nn) s = (x, s')" and es: "trace s' = trace s @ es"
    and mut: "\<exists>e \<in> set es. is_mutation e" and get: "cl_GetPolicy (r_Client r) nn (world s) = (Inr p, w)"
    and i: "pol_ResourceVersion p = ver i"
  have v: "\<forall>st \<in> set (versions (world s)). whole st" "versions (world s) \<noteq> []" using sp by (simp_all add: spaced_def)
  obtain L k where
    L: "grown (versions (world s)) L" "k < length L" "moved versions clock c L k (clock (world s)) x (world s') es"
    and "\<forall>p w. cl_GetPolicy (r_Client r) nn (world s) = (Inr p, w) \<longrightarrow> pol_ResourceVersion p = ver k"
    by (rule Reconcile_moves [OF assms(1) v run es])
  then have k: "pol_ResourceVersion p = ver k" using get by blast
  have "inj ver" using assms(1) by (simp add: status_server_def)
  then have ik: "k = i" using i k by (simp add: inj_eq)
  have "spaced c L (clock (world s)) ts" by (rule spaced_grown [OF sp L(1)]) simp
  from spaced_change [OF this assms(2) L(3,2) mut]
  show "\<exists>now. clock (world s) \<le> now \<and> now \<le> clock (world s') \<and>
      (\<forall>(t, k) \<in> set ts. k \<le> i \<longrightarrow> c - 1000000000 < now - t)" by (simp only: ik)
qed

text \<open>
  Two remediations under a cooldown of 600 seconds, one nanosecond more than 599 seconds apart:
  the history of the first, then of both.
\<close>

lemma exHistory1:
  obtains s st l where "history exServer exNN w_versions w_clock s [(exNow + 999999999, 1)]"
    and "w_versions (world s) = [exStatus, st]" and "LastRemediation st = Some l" and "rr_Time l = exNow"
    and "w_clock (world s) = exNow + 999999999"
proof -
  let ?t = "exNow + 999999999"
  have st: "stored_time ?t = exNow" by (simp add: stored_time_def exNow_def Unix_def)
  have h: "history exServer exNN w_versions w_clock (exMoment [exStatus] 0 ?t) []"
    by (rule history.start) (simp_all add: whole_def exStatus_def)
  have "\<not> within_cooldown exSpec ([exStatus] ! 0) ?t" by (simp add: within_cooldown_def exStatus_def)
  then obtain s x es st l where
    run: "run_state (Reconcile exServer exNN) (exMoment [exStatus] 0 ?t) = (x, s)"
      "trace s = trace (exMoment [exStatus] 0 ?t) @ es"
    and es: "PodDelete ''shop'' ''web-1'' None \<in> set es" "recorded_times es = [?t]"
    and l: "LastRemediation st = Some l" "rr_Time l = stored_time ?t" "w_clock (world s) = ?t"
    and new: "0 = length [exStatus] - 1 \<Longrightarrow> (\<exists>res. x = Inr res) \<and> w_versions (world s) = [exStatus] @ [st]"
    by (rule exServer_call) simp_all
  have "recorded w_versions x (world s) es = [(?t, 1)]" using es new by (force simp: recorded_def)
  then have "history exServer exNN w_versions w_clock s [(?t, 1)]" using history.call [OF h run] by simp
  then show thesis using that l st new by simp
qed

lemma exHistory2:
  obtains s st st' l where
    "history exServer exNN w_versions w_clock s [(exNow + 999999999, 1), (exNow + 600000000000, 2)]"
    and "w_versions (world s) = [exStatus, st, st']" and "LastRemediation st' = Some l"
    and "rr_Time l = exNow + 600000000000" and "w_clock (world s) = exNow + 600000000000"
proof -
  let ?t = "exNow + 600000000000"
  have st: "stored_time ?t = ?t" by (simp add: stored_time_def exNow_def Unix_def)
  obtain s st l where h: "history exServer exNN w_versions w_clock s [(exNow + 999999999, 1)]"
    and V: "w_versions (world s) = [exStatus, st]" and l: "LastRemediation st = Some l" "rr_Time l = exNow"
    and clk: "w_clock (world s) = exNow + 999999999" by (rule exHistory1)
  let ?s = "exMoment [exStatus, st] 1 ?t"
  have h': "history exServer exNN w_versions w_clock ?s [(exNow + 999999999, 1)]"
    by (rule history.wait [OF h]) (simp_all add: clk V)
  have "\<not> within_cooldown exSpec ([exStatus, st] ! 1) ?t"
    using l by (simp add: within_cooldown_def cooldown_ns_def exSpec_def)
  then obtain s' x es st' l' where run: "run_state (Reconcile exServer exNN) ?s = (x, s')" "trace s' = trace ?s @ es"
    and es: "PodDelete ''shop'' ''web-1'' None \<in> set es" "recorded_times es = [?t]"
    and l': "LastRemediation st' = Some l'" "rr_Time l' = stored_time ?t" "w_clock (world s') = ?t"
    and new: "1 = length [exStatus, st] - 1 \<Longrightarrow> (\<exists>res. x = Inr res) \<and> w_versions (world s') = [exStatus, st] @ [st']"
    by (rule exServer_call) simp_all
  have "recorded w_versions x (world s') es = [(?t, 2)]" using es new by (force simp: recorded_def)
  then have "history exServer exNN w_versions w_clock s' [(exNow + 999999999, 1), (?t, 2)]"
    using history.call [OF h' run] by simp
  then show thesis using that l' st new by simp
qed

theorem remediations_spaced_witness:
  "\<exists>s x s' es.
     history exServer exNN w_versions w_clock s [(exNow + 999999999, 1), (exNow + 600000000000, 2)] \<and>
     sorted_wrt (\<lambda>(t, _) (t', _). 600000000000 - 1000000000 < t' - t)
       [(exNow + 999999999, 1 :: nat), (exNow + 600000000000, 2)] \<and>
     run_state (Reconcile exServer exNN) s = (x, s') \<and> trace s' = trace s @ es \<and>
     PodDelete ''shop'' ''web-1'' None \<in> set es \<and>
     (\<exists>now. w_clock (world s) \<le> now \<and> now \<le> w_clock (world s') \<and>
        600000000000 - 1000000000 < now - (exNow + 600000000000))"
proof -
  let ?t = "exNow + 1200000000000" and ?ts = "[(exNow + 999999999, 1), (exNow + 600000000000, 2 :: nat)]"
  obtain s st st' l where h: "history exServer exNN w_versions w_clock s ?ts"
    and V: "w_versions (world s) = [exStatus, st, st']" and l: "LastRemediation st' = Some l"
      "rr_Time l = exNow + 600000000000" and clk: "w_clock (world s) = exNow + 600000000000" by (rule exHistory2)
  let ?s = "exMoment [exStatus, st, st'] 2 ?t"
  have h': "history exServer exNN w_versions w_clock ?s ?ts"
    by (rule history.wait [OF h]) (simp_all add: clk V)
  have "\<not> within_cooldown exSpec ([exStatus, st, st'] ! 2) ?t"
    using l by (simp add: within_cooldown_def cooldown_ns_def exSpec_def)
  then obtain s' x es where run: "run_state (Reconcile exServer exNN) ?s = (x, s')" "trace s' = trace ?s @ es"
    and del: "PodDelete ''shop'' ''web-1'' None \<in> set es"
    by (rule exServer_call) simp_all
  have mut: "\<exists>e \<in> set es. is_mutation e" using del by (intro bexI [OF _ del]) simp
  have get: "cl_GetPolicy (r_Client exServer) exNN (world ?s) = (Inr (exStored [exStatus, st, st'] 2), world ?s)"
    by (simp add: exView_def numeral_2_eq_2)
  show ?thesis
    using remediations_spaced [OF exServer_laws _ h'] run del mut get h' by (intro exI conjI) fastforce+
qed

text \<open>
  What the bound on the version read is for: with a read that lags behind, a call deletes a pod
  again one second after a recorded remediation, under a cooldown of 600 seconds; only the write
  of its status is then rejected.
\<close>

lemma stale_read_remediates:
  "\<exists>s a s' es t. history exServer exNN w_versions w_clock s [(t, 1)] \<and>
     run_state (Reconcile exServer exNN) s = (Inl a, s') \<and> trace s' = trace s @ es \<and>
     PodDelete ''shop'' ''web-1'' None \<in> set es \<and> w_clock (world s') - t = 1000000000"
proof -
  let ?t = "exNow + 1999999999"
  obtain s st l where h: "history exServer exNN w_versions w_clock s [(exNow + 999999999, 1)]"
    and V: "w_versions (world s) = [exStatus, st]" and clk: "w_clock (world s) = exNow + 999999999"
    by (rule exHistory1)
  let ?s = "exMoment [exStatus, st] 0 ?t"
  have h': "history exServer exNN w_versions w_clock ?s [(exNow + 999999999, 1)]"
    by (rule history.wait [OF h]) (simp_all add: clk V)
  have "\<not> within_cooldown exSpec ([exStatus, st] ! 0) ?t" by (simp add: within_cooldown_def exStatus_def)
  then obtain s' x es where run: "run_state (Reconcile exServer exNN) ?s = (x, s')" "trace s' = trace ?s @ es"
    and del: "PodDelete ''shop'' ''web-1'' None \<in> set es" and t: "w_clock (world s') = ?t"
    and "0 \<noteq> length [exStatus, st] - 1 \<Longrightarrow> (\<exists>a. x = Inl a) \<and> w_versions (world s') = [exStatus, st]"
    by (rule exServer_call) simp_all
  then obtain a where "x = Inl a" by auto
  with h' run del t show ?thesis
    by (intro exI [of _ ?s] exI [of _ a] exI [of _ s'] exI [of _ es] exI [of _ "exNow + 999999999"]) simp
qed

end
