(* ===== verification/StatusTypes.thy ===== *)
theory StatusTypes
  imports ControllerProps DecisionProps
begin

text \<open>
  The status a \<open>Reconcile\<close> writes against the schema the types declare: the list-map keys
  (\<open>+listMapKey=podName\<close>, \<open>+listMapKey=type\<close>) are unique, the enumeration of strategies is kept,
  and no condition lacks the reason the API requires. A write that broke one of these would be
  refused by the API server, and the call would fail for ever.
\<close>

section \<open>Well-typed statuses\<close>

definition typed_conditions :: "Condition list \<Rightarrow> bool" where
  "typed_conditions cs \<longleftrightarrow> distinct (map c_Type cs) \<and> (\<forall>c \<in> set cs. c_Reason c \<noteq> '''')"

definition typed_status :: "HotSwapPolicyStatus \<Rightarrow> bool" where
  "typed_status st \<longleftrightarrow>
     typed_conditions (Conditions st) \<and> distinct (map th_PodName (Targets st)) \<and>
     (\<forall>l. LastRemediation st = Some l \<longrightarrow>
        rr_Strategy l \<in> {StrategyAuto, StrategyRolloutRestart, StrategyDeletePod})"

text \<open>The API server only hands out well-typed policies, and no two pods of one name.\<close>

definition typed_api :: "('w, 'p) HotSwapPolicyReconciler \<Rightarrow> NamespacedName \<Rightarrow> bool" where
  "typed_api r nn \<longleftrightarrow>
     (\<forall>w p. fst (cl_GetPolicy (r_Client r) nn w) = Inr p \<longrightarrow> typed_status (pol_Status p)) \<and>
     (\<forall>ns sel w pods. fst (cl_ListPods (r_Client r) ns sel w) = Inr pods \<longrightarrow> distinct (map pod_Name pods))"

lemma typed_conditions_says:
  "typed_conditions cs \<longleftrightarrow> distinct (map c_Type cs) \<and> (\<forall>ty. \<forall>x \<in> set (says ty cs). fst (snd x) \<noteq> '''')"
  by (auto simp: typed_conditions_def says_def)

lemma typed_Set:
  assumes "condition_functions k" "typed_conditions cs" "c_Reason c \<noteq> ''''"
  shows "typed_conditions (k_SetStatusCondition k c cs)"
  using assms unfolding condition_functions_def typed_conditions_says by auto

lemma typed_Remove:
  assumes "condition_functions k" "typed_conditions cs"
  shows "typed_conditions (k_RemoveStatusCondition k ty cs)"
  using assms unfolding condition_functions_def typed_conditions_says by auto

lemma typed_helpers:
  assumes k: "condition_functions (r_lib r)" and p: "typed_status (pol_Status p)"
  shows "typed_status (pol_Status (setHealthy r p))"
    and "typed_status (pol_Status (setRemediating r p msg))"
    and "reason \<noteq> '''' \<Longrightarrow> typed_status (pol_Status (setDegraded r p reason msg))"
  using p
  by (auto simp: typed_status_def setHealthy_def setRemediating_def setDegraded_def newCondition_def Let_def
      Reason_defs intro!: typed_Set typed_Remove k)

lemma distinct_names:
  assumes sn: "snapshot_of_pods pods snapshot" and d: "distinct (map pod_Name pods)"
  shows "distinct (map th_PodName (toTargetHealth snapshot))"
proof -
  have "inj_on PodName (set snapshot)"
  proof (rule inj_onI)
    fix s s' assume s: "s \<in> set snapshot" "s' \<in> set snapshot" "PodName s = PodName s'"
    obtain p where p: "p \<in> set pods" "pod_UID p = PodUID s" "pod_Name p = PodName s"
      using sn s(1) unfolding snapshot_of_pods_def by blast
    obtain p' where p': "p' \<in> set pods" "pod_UID p' = PodUID s'" "pod_Name p' = PodName s'"
      using sn s(2) unfolding snapshot_of_pods_def by blast
    have "inj_on pod_Name (set pods)" using d by (simp add: distinct_map)
    then have "p = p'" by (rule inj_onD) (use p p' s(3) in simp_all)
    then have u: "PodUID s = PodUID s'" using p p' by simp
    have "inj_on PodUID (set snapshot)" using sn by (simp add: snapshot_of_pods_def distinct_map)
    then show "s = s'" by (rule inj_onD) (use u s in simp_all)
  qed
  moreover have "distinct snapshot" using sn by (simp add: snapshot_of_pods_def distinct_map)
  ultimately have "distinct (map PodName snapshot)" by (simp add: distinct_map)
  moreover have "map th_PodName (toTargetHealth snapshot) = map PodName snapshot"
    by (simp add: toTargetHealth_def target_health_def)
  ultimately show ?thesis by simp
qed

section \<open>What a call writes\<close>

definition typed_writes :: "effect list \<Rightarrow> bool" where
  "typed_writes es \<longleftrightarrow> (\<forall>p e. StatusUpdate p e \<in> set es \<longrightarrow> typed_status (pol_Status p))"

lemma typed_writes_simps [simp]:
  "typed_writes []"
  "typed_writes (e # es) \<longleftrightarrow> (case e of StatusUpdate p _ \<Rightarrow> typed_status (pol_Status p) | _ \<Rightarrow> True) \<and> typed_writes es"
  "typed_writes (es @ es') \<longleftrightarrow> typed_writes es \<and> typed_writes es'"
  by (auto simp: typed_writes_def split: effect.splits)

lemma typed_generation [simp]:
  "typed_status (st\<lparr>ObservedGeneration := g\<rparr>) = typed_status st"
  "typed_status (st\<lparr>ConsecutiveAttempts := n\<rparr>) = typed_status st"
  by (simp_all add: typed_status_def)

lemma finish_typed: "typed_status (pol_Status p) \<Longrightarrow> yields I (finish r p res) (\<lambda>x es. typed_writes es)"
  by (auto intro!: emits_intros)

lemma act_typed: "yields I (act r policy dep strategy unhealthy spec now) (\<lambda>x es. typed_writes es)"
proof -
  have loop: "yields I (delete_loop r ns dryRun limit ss acted ap) (\<lambda>x es. typed_writes es)"
    for ns dryRun limit ss acted ap
    by (induction ss arbitrary: acted ap)
      (auto simp: deletePod_def intro!: emits_intros split: option.split)
  show ?thesis
    unfolding act_def Let_def rolloutRestart_def
    by (intro emits_intros loop) (auto intro!: emits_intros)
qed

lemma report_typed:
  assumes "condition_functions (r_lib r)" and "typed_status (pol_Status policy)"
    and "strategy \<in> {StrategyAuto, StrategyRolloutRestart, StrategyDeletePod}"
  shows "yields I (report_remediation r policy actedPod strategy dryRun now)
    (\<lambda>p es. typed_writes es \<and> typed_status (pol_Status p))"
proof -
  have "typed_status (pol_Status (record_remediation policy actedPod strategy dryRun now))"
    using assms(2,3) by (simp add: record_remediation_def typed_status_def)
  from typed_helpers(2) [OF assms(1) this] show ?thesis
    unfolding report_remediation_def Let_def by (auto intro!: emits_intros)
qed

lemma decide_typed:
  assumes k: "condition_functions (r_lib r)" and p: "typed_status (pol_Status policy)"
  shows "yields I (decide r nn policy cfg dep snapshot now) (\<lambda>x es. typed_writes es)"
proof -
  let ?strategy = "chooseStrategy (Strategy (Remediation (pol_Spec policy))) (effectiveReplicas dep)"
  have s: "?strategy \<in> {StrategyAuto, StrategyRolloutRestart, StrategyDeletePod}"
    using chooseStrategy_cases by auto
  have fin: "yields I (finish r q res) (\<lambda>x es'. typed_writes (es @ es'))"
    if "typed_writes es" "typed_status (pol_Status q)" for q res es
    using that by (auto intro!: yields_mono [OF finish_typed])
  have rem: "yields I (remediate r policy dep ?strategy unhealthy spec now)
      (\<lambda>x es. typed_writes es \<and> (\<forall>q. x = Inr q \<longrightarrow> typed_status (pol_Status q)))" for unhealthy spec
    unfolding remediate_def
    by (rule yields_bind, rule yields_mono [OF act_typed])
      (auto intro!: emits_intros yields_mono [OF report_typed [OF k p s]])
  have healthy: "typed_status (pol_Status (policy\<lparr>pol_Status := (pol_Status policy)\<lparr>ConsecutiveAttempts := 0\<rparr>\<rparr>))"
    using p by simp
  note helpers = typed_helpers(1) [OF k healthy] typed_helpers(2) [OF k p] typed_helpers(3) [OF k p]
  show ?thesis
    unfolding decide_def Let_def
    by (intro yields_if finish_typed helpers yields_bind yields_emit yields_mono [OF rem] fin)
      (auto simp: Reason_defs intro!: yields_mono [OF fin] emits_intros helpers split: sum.split)
qed


context probe_source
begin

lemma reconcilePods_typed:
  assumes ps: "r_Prober r = ps" and k: "condition_functions (r_lib r)" and api: "typed_api r nn"
    and p: "typed_status (pol_Status policy)"
  shows "yields inv (reconcilePods r nn policy cfg dep) (\<lambda>x es. typed_writes es)"
proof -
  have degraded: "typed_status (pol_Status (setDegraded r policy ReasonTargetNotFound msg))" for msg
    by (rule typed_helpers(3) [OF k p]) (simp add: Reason_defs)
  have targets: "typed_status (pol_Status (policy\<lparr>pol_Status := (pol_Status policy)\<lparr>Targets := toTargetHealth snapshot\<rparr>\<rparr>))"
    if "snapshot_of_pods pods snapshot" and "fst (cl_ListPods (r_Client r) ns sel w) = Inr pods" for pods snapshot ns sel w
  proof -
    have "distinct (map pod_Name pods)" using api that(2) by (auto simp: typed_api_def)
    from distinct_names [OF that(1) this] show ?thesis using p by (simp add: typed_status_def)
  qed
  show ?thesis
    unfolding reconcilePods_def Let_def
    by (intro emits_intros yields_mono [OF finish_typed [OF degraded]] yields_mono [OF observe_yields [OF ps]])
      (auto intro!: emits_intros decide_typed [OF k] targets)
qed

lemma Reconcile_typed:
  assumes ps: "r_Prober r = ps" and k: "condition_functions (r_lib r)" and api: "typed_api r nn"
  shows "yields inv (Reconcile r nn) (\<lambda>x es. typed_writes es)"
proof -
  have degraded: "yields inv (finish r (setDegraded r p reason msg) res) (\<lambda>x es. typed_writes es)"
    if "typed_status (pol_Status p)" "reason \<noteq> ''''" for p reason msg res
    by (rule finish_typed) (rule typed_helpers(3) [OF k that])
  have target: "yields inv (reconcileTarget r nn p cfg) (\<lambda>x es. typed_writes es)"
    if "typed_status (pol_Status p)" for p cfg
    unfolding reconcileTarget_def conflictingPolicy_def Let_def
    by (intro emits_intros yields_mono [OF degraded [OF that]] yields_mono [OF reconcilePods_typed [OF ps k api that]])
      (auto simp: ps inv_Forget Reason_defs)
  have read: "typed_status (pol_Status p)" if "fst (cl_GetPolicy (r_Client r) nn w) = Inr p" for p w
    using api that by (auto simp: typed_api_def)
  show ?thesis
    unfolding Reconcile_def reconcileDeletion_def reconcileFinalizer_def Let_def
    by (intro emits_intros yields_mono [OF degraded] yields_mono [OF target])
      (auto simp: ps inv_Forget Reason_defs intro: read)
qed

end

text \<open>
  C15: every status a \<open>Reconcile\<close> sends is well typed for the API: one condition per type, each with a
  reason; one entry per pod name among the targets; a strategy of the enumeration in the last
  remediation. It needs that the policy was well typed when it was read, that no two listed
  pods share a name, and that the condition helpers of the library do what they document.
\<close>

theorem written_status_typed:
  assumes "r_Prober r = managerSource K ord" and "managerInv K (prober s)"
    and "condition_functions (r_lib r)" and "typed_api r nn"
    and "run_state (Reconcile r nn) s = (x, s')" and "trace s' = trace s @ es" and "StatusUpdate p e \<in> set es"
  shows "distinct (map c_Type (Conditions (pol_Status p))) \<and>
    (\<forall>c \<in> set (Conditions (pol_Status p)). c_Reason c \<noteq> '''') \<and>
    distinct (map th_PodName (Targets (pol_Status p))) \<and>
    (\<forall>l. LastRemediation (pol_Status p) = Some l \<longrightarrow>
       rr_Strategy l \<in> {StrategyAuto, StrategyRolloutRestart, StrategyDeletePod})"
proof -
  have "typed_writes es"
    using yields_run [OF mgr.Reconcile_typed [OF assms(1,3,4)] assms(2,5,6)] by simp
  with assms(7) show ?thesis by (auto simp: typed_writes_def typed_status_def typed_conditions_def)
qed

lemma exReconciler_typed: "typed_api (exReconciler (exPolicy exSpec) (\<lambda>_. None)) exNN"
  by (auto simp: typed_api_def typed_status_def typed_conditions_def exReconciler_def exClient_def exStatus_def)

theorem written_status_typed_witness:
  "\<exists>p. StatusUpdate p None \<in> set (trace ex_result) \<and> distinct (map c_Type (Conditions (pol_Status p))) \<and>
     distinct (map th_PodName (Targets (pol_Status p)))"
proof -
  have "\<exists>p. StatusUpdate p None \<in> set (trace ex_result)" using ex_run(2) by fastforce
  then obtain p where p: "StatusUpdate p None \<in> set (trace ex_result)" ..
  have t: "trace ex_result = trace exState @ trace ex_result" by simp
  have lib: "condition_functions (r_lib (exReconciler (exPolicy exSpec) (\<lambda>_. None)))"
    by (simp add: condition_functions_exLib)
  from written_status_typed [OF exReconciler_prober exState_inv lib exReconciler_typed ex_run(1) t p] p
  show ?thesis by blast
qed

end
