(* ===== verification/Spec2Isabelle.thy ===== *)
theory Spec2Isabelle
  imports ControllerProps DecisionProps ProberProps LoopProps DeepCopyProps WiringProps EntryPointProps
    StampProps PersistProps StatusTypes EventProps
begin

text \<open>
  \<^bold>\<open>hotswap-operator: verification development\<close>

  \<^bold>\<open>The program.\<close> A Kubernetes operator that replaces pods whose own HTTP health check
  regresses. A \<open>HotSwapPolicy\<close> (\<open>api/v1alpha1/hotswappolicy_types.go\<close>) names a Deployment, an
  \<open>httpGet\<close> probe and how to remediate. The prober (\<open>internal/prober/prober.go\<close>,
  \<open>checker.go\<close>) runs one goroutine per pod, applies each result to a threshold state machine
  and sends an event when a pod's health changes. The reconciler
  (\<open>internal/controller/hotswappolicy_controller.go\<close>, \<open>logic.go\<close>) tells the prober which pods
  to probe (\<open>Sync\<close>, \<open>SetSeenReady\<close>, \<open>Forget\<close>), reads its \<open>Snapshot\<close>, decides, and
  restarts the rollout or deletes pods. The two share nothing but the prober's operations, whose
  interface in the code is \<open>ProbeSource\<close>. \<open>internal/metrics/metrics.go\<close> declares the metrics.
  \<open>cmd/main.go\<close> reads the flags, registers the API types (\<open>groupversion_info.go\<close>) and starts a
  controller-runtime manager that runs both; the deep copies of the API types, which the caches
  and the client rely on, are generated (\<open>zz_generated.deepcopy.go\<close>).

  \<^bold>\<open>Theories and what they model.\<close>
  \<^item> \<open>Prelude\<close>: Go's machine integers (\<open>int32\<close>, \<open>int64\<close> as words with signed comparison),
    instants (nanoseconds since Go's zero time) and durations with the saturating \<open>Time.Sub\<close>,
    the unspecified iteration order of maps (a \<open>range_order\<close>, universally quantified in the
    theorems), and the state monad.
  \<^item> \<open>GoStd\<close>: the standard-library functions whose results the operator writes out (\<open>%d\<close>,
    \<open>%q\<close>, \<open>ToLower\<close>, \<open>HasPrefix\<close>, \<open>JoinHostPort\<close>, RFC 3339).
  \<^item> \<open>ApiTypes\<close>: the types of \<open>hotswappolicy_types.go\<close>, field by field, and of the Kubernetes
    objects the fields the operator reads.
  \<^item> \<open>GoHeap\<close>, \<open>DeepCopy\<close>, \<open>DeepCopyProps\<close>: a heap of typed cells with pointers and slices, the
    locale \<open>deep_copier\<close> of what a deep copy promises, the generated functions over it, and the
    interpretations that they keep the promise, from the library's copy functions upwards.
  \<^item> \<open>Checker\<close>: \<open>ProbeConfig\<close> and \<open>Probe\<close> of \<open>checker.go\<close>, over any HTTP client.
  \<^item> \<open>HttpClient\<close>: the client of \<open>NewHTTPChecker\<close> and the redirect loop of \<open>net/http\<close>.
  \<^item> \<open>Logic\<close>: the functions of \<open>logic.go\<close>.
  \<^item> \<open>ProbeState\<close>: \<open>PodState\<close>, \<open>podEntry\<close> and \<open>record\<close> of \<open>prober.go\<close>, against the history
    of results (\<open>streak\<close>, \<open>down\<close>).
  \<^item> \<open>ProbeSource\<close>: the interface \<open>ProbeSource\<close> as a record of operations, its contract as the
    locale \<open>probe_source\<close>.
  \<^item> \<open>Manager\<close>, \<open>ManagerInv\<close>, \<open>ManagerOps\<close>: the store of \<open>Manager\<close> and its operations under
    the mutex; the invariant that tracked pods and live goroutines correspond one to one; the
    interpretation of \<open>probe_source\<close> on the manager, with probe results arriving between any two
    calls of the reconciler; \<open>Events\<close>, and \<open>Start\<close>, which cancels the root context.
  \<^item> \<open>Goroutines\<close>: \<open>run\<close> and \<open>probeOnce\<close> as a step relation over all interleavings at the
    lock operations, \<open>Start\<close> as the shutdown step, and the inductive invariant.
  \<^item> \<open>Metrics\<close>: the collectors and their labels.
  \<^item> \<open>Effects\<close>: the reconciler's world: the API client (a parameter that answers from and into a
    world of any type), the Kubernetes helper libraries (parameters), and the trace of writes,
    metrics and events.
  \<^item> \<open>Conflict\<close>: \<open>lessPolicy\<close> and the choice among rival policies, over the locale \<open>priority\<close>.
  \<^item> \<open>Reconciler\<close>: \<open>Reconcile\<close> and all its helpers, in the order of the source, cut where the
    code has its comments.
  \<^item> \<open>Watch\<close>: the handlers that map Deployment and Pod events to policies.
  \<^item> \<open>Wiring\<close>: \<open>SetupWithManager\<close>: the defaults and the calls of the builder, as data; what
    controller-runtime makes of them is a parameter (\<open>ControllerRuntime\<close>) with \<open>runtime_laws\<close>.
  \<^item> \<open>Flags\<close>, \<open>SchemeReg\<close>, \<open>EntryPoint\<close>: \<open>main\<close>: its flags and their parsing, the registration of
    the types, the options of the servers and the manager, the calls up to \<open>Start\<close>.

  \<^bold>\<open>Specifications and lemmas.\<close>
  \<^item> \<open>Yields\<close>, \<open>Remediation\<close>: a calculus of effects and what a remediation may do to the cluster;
    \<open>yields_from\<close> keeps the state of the prober a call starts from.
  \<^item> \<open>Decision\<close>: the abstract \<open>verdict_of\<close> over exact integers, and the refinement: \<open>decide\<close>, on
    words and through its early returns, is \<open>perform\<close> of the verdict.
  \<^item> \<open>ReconcileSafety\<close>, \<open>Reporting\<close>: the safety of the whole handler and what it reports, proved
    inside \<open>probe_source\<close> for every probe source. The snapshot a call acts on is the one the prober
    itself gives after the synchronisation and the Ready marks of the call (\<open>seen_snapshot\<close>).
  \<^item> \<open>Persist\<close>: the laws of an API server that keeps every version of the policy, accepts a status
    only on top of the newest and serves reads from a cache that may lag (\<open>status_server\<close>), times
    cut to whole seconds, and what one \<open>Reconcile\<close> can add to the versions; \<open>PersistProps\<close> runs it
    over any history of reconciles with any outcome, waits and restarts.
  \<^item> \<open>StatusTypes\<close>: the API types of every status written, inside \<open>probe_source\<close>.
  \<^item> \<open>EventProps\<close>: the accounts of transitions and events along every run of the probe loops, as
    multisets of policies.
  \<^item> \<open>Rfc3339\<close>: a reader of RFC 3339 stamps and that it inverts the writer; \<open>MergePatch\<close>: JSON
    documents, their text, and the merge of RFC 7386.
  \<^item> \<open>Scenario\<close>: a small concrete cluster on which the witnesses evaluate the model.
  \<^item> \<open>ReconcileSpec\<close>, \<open>ControllerProps\<close>, \<open>DecisionProps\<close>, \<open>ProberProps\<close>, \<open>LoopProps\<close>,
    \<open>WiringProps\<close>, \<open>EntryPointProps\<close>, \<open>StampProps\<close>, the theories above and this theory: the
    properties, numbered C1 to C40, each stated in prose before its theorem and, where it has
    hypotheses, applied at a concrete input after it.

  \<^bold>\<open>Modelling decisions.\<close> A panic is a value (\<open>Panic\<close>), as is an API error; of an error only
  whether it is NotFound matters. A nil pointer is \<open>None\<close>; a nil slice or map is the empty one
  where the code only ranges over it. Contexts are numbered in the order of their creation.
  \<open>K\<close> stands for \<open>NamespacedName.String()\<close>, a library function, and is a parameter of every
  operation of the manager. Log lines are left out. Loops are structural recursion or folds over
  finite key lists, so no fuel is needed. Where the code counts in \<open>int32\<close> or \<open>int\<close>, theorems
  bound the number of probe results of one pod and of listed pods by two billion, the range in
  which the counters do not wrap.

  In \<open>GoHeap\<close> a fresh address is the next one, and the cell of \<open>new\<close> or \<open>make\<close> is written once,
  when the value copied into it is complete; nothing reads it before. The command line exits on
  errors, as Go's does. Startup calls answer by a function of all the calls made so far. The API
  server and the JSON encoding in between enter only as the client parameter, with the laws of
  \<open>status_server\<close> where a property needs that a status comes back. The transition time of a
  condition, which the library takes from a clock of its own, is not a field of the model.

  \<^bold>\<open>Not modelled.\<close> Log lines and the logger's options in \<open>main\<close>; the code of Kubernetes,
  controller-runtime and Prometheus, which is not in the repository (its clients, caches, queues,
  registries and helpers are parameters or laws); the JSON encoding and the defaults of the CRD
  schema, which the API server applies; manifests, build files, and the tests with their helpers
  in \<open>test/\<close>.

  \<^bold>\<open>Plan.\<close> The counter of attempts over histories of reconciles; the encoding of the spec with
  \<open>omitempty\<close> and the schema's defaults (a zero that is sent as absent comes back as the default);
  progress of the probe loops under a fair scheduler.
\<close>

section \<open>From probe results to a remediation\<close>

text \<open>Recording results touches neither the cancel function nor the Ready mark.\<close>

lemma record_probe_marks:
  "snd (record_probe (pod\<lparr>cancel := c, SeenReady := r\<rparr>) cfg ok now) =
     (snd (record_probe pod cfg ok now))\<lparr>cancel := c, SeenReady := r\<rparr>"
  by (simp add: record_probe_def Let_def)

lemma record_all_marks:
  "record_all cfg (pod\<lparr>cancel := c, SeenReady := r\<rparr>) rs =
     (record_all cfg pod rs)\<lparr>cancel := c, SeenReady := r\<rparr>"
proof (induction rs arbitrary: pod)
  case (Cons x rs)
  then show ?case by (cases x) (simp only: record_all.simps record_probe_marks)
qed simp

text \<open>The store after a run of results of one pod.\<close>

definition record_results ::
  "(NamespacedName \<Rightarrow> string) \<Rightarrow> NamespacedName \<Rightarrow> UID \<Rightarrow> ProbeConfig \<Rightarrow> (bool \<times> gotime) list \<Rightarrow>
   Manager \<Rightarrow> Manager" where
  "record_results K nn u cfg rs m =
     fold (\<lambda>(ok, now) m. snd (probe_record K nn u cfg ok now m)) rs m"

lemma entry_at_record_results:
  "entry_at (record_results K nn u cfg rs m) k v =
     (if k = K nn \<and> v = u then map_option (\<lambda>pod. record_all cfg pod rs) (entry_at m k v)
      else entry_at m k v)"
  unfolding record_results_def
proof (induction rs arbitrary: m)
  case Nil
  then show ?case by (simp add: option.map_ident)
next
  case (Cons x rs)
  then show ?case
    by (cases x) (simp add: entry_at_probe_record option.map_comp comp_def)
qed

text \<open>
  C6: end to end for a Deployment of one pod. A pod is synchronised into a policy that did not
  track it, is seen Ready, and its probes give the results \<open>rs\<close>. If the rollout is neither
  stalled nor in progress and nothing was remediated before, then the next decision is to
  remediate if some run of \<open>failureThreshold\<close> failures in a row was not followed by
  \<open>successThreshold\<close> successes in a row, and otherwise that all is healthy.
\<close>

theorem regression_is_remediated:
  assumes wf: "wf_manager K m" and new: "entry_at m (K nn) (t_UID t) = None"
    and m1: "m1 = SetSeenReady K nn (t_UID t) (Sync K ord nn cfg [t] m)"
    and m2: "m2 = record_results K nn (t_UID t) cfg rs m1"
    and len: "length rs < 2 ^ 31"
    and dep: "deploymentStable dep" "\<not> progressDeadlineExceeded dep"
    and first: "LastRemediation (pol_Status policy) = None"
  shows "verdict_of policy dep (Snapshot K ord nn m2) now =
    (if down (nat (sint (success_of cfg))) (nat (sint (failure_of cfg))) (map fst rs)
     then Remediate (chooseStrategy (Strategy (Remediation (pol_Spec policy))) (effectiveReplicas dep))
     else AllHealthy)"
proof -
  let ?u = "t_UID t"
  have desired: "desired_map [t] = [?u \<mapsto> t]" by (simp add: desired_map_def)
  obtain c where c: "entry_at (Sync K ord nn cfg [t] m) (K nn) ?u = Some ((new_podEntry t)\<lparr>cancel := Some c\<rparr>)"
    using entry_at_Sync [OF wf, where ts = "[t]" and u = ?u and ord = ord and nn = nn and cfg = cfg] new
    by (auto simp: desired synced_def)
  have other: "entry_at (Sync K ord nn cfg [t] m) (K nn) v = None" if "v \<noteq> ?u" for v
    using entry_at_Sync [OF wf, where ts = "[t]" and u = v and ord = ord and nn = nn and cfg = cfg] that
    by (simp add: desired)
  define pod where "pod = record_all cfg (new_podEntry t) rs"
  have "entry_at m1 (K nn) = [?u \<mapsto> (new_podEntry t)\<lparr>cancel := Some c, SeenReady := True\<rparr>]"
    using c other by (auto simp: m1 entry_at_SetSeenReady fun_eq_iff)
  then have "entry_at m2 (K nn) = [?u \<mapsto> pod\<lparr>cancel := Some c, SeenReady := True\<rparr>]"
    by (auto simp: m2 entry_at_record_results fun_eq_iff record_all_marks pod_def)
  then have snap: "Snapshot K ord nn m2 = [PodState.truncate (pod\<lparr>cancel := Some c, SeenReady := True\<rparr>)]"
    by (simp add: Snapshot_entries map_filter_simps)
  have "Healthy pod \<longleftrightarrow> \<not> down (nat (sint (success_of cfg))) (nat (sint (failure_of cfg))) (map fst rs)"
    unfolding pod_def by (rule record_all_Healthy [OF len])
  then show ?thesis
    using dep first by (simp add: snap verdict_of_def Let_def unhealthy_of_def systemic_def within_cooldown_def)
qed

theorem regression_is_remediated_witness:
  "verdict_of (exPolicy exSpec) exDep
     (Snapshot exString ascending exNN
        (record_results exString exNN ''u1'' exCfg [(True, exNow), (False, exNow)]
           (SetSeenReady exString exNN ''u1''
              (Sync exString ascending exNN exCfg [pod_target exPod] NewManager)))) exNow =
   Remediate StrategyDeletePod"
proof -
  have "down 1 1 [True, False]"
    unfolding down_def by (intro exI [of _ "[True]"] exI [of _ "[]"]) simp
  moreover have "deploymentStable exDep" "\<not> progressDeadlineExceeded exDep"
    by (simp_all add: deploymentStable_def progressDeadlineExceeded_def exDep_def)
  moreover have u: "t_UID (pod_target exPod) = ''u1''" by (simp add: pod_target_def exPod_def)
  ultimately show ?thesis
    using regression_is_remediated [OF wf_NewManager _ refl refl, where K = exString and nn = exNN and
        t = "pod_target exPod" and rs = "[(True, exNow), (False, exNow)]" and dep = exDep and
        policy = "exPolicy exSpec" and cfg = exCfg and ord = ascending and now = exNow]
    by (simp add: u exStatus_def success_of_def failure_of_def exCfg_def go_cmp chooseStrategy_def)
qed

end
